theory Spec2Isabelle
  imports Complex_Main "HOL-Library.AList" "HOL-Library.Log_Nat"
begin

section \<open>Numbers\<close>

text \<open>
  The program computes with JavaScript numbers, which are IEEE-754 doubles. The theory reads
  them in two ways.

  In the exact reading a number is a rational and every arithmetic step of the source is the
  same step on \<open>rat\<close>; the only rounding is the one the source asks for (\<open>toFixed\<close>). This is
  the reading of the ledger, of the fractional-sale policy, of the schedulers and of all four
  composers. It follows the control flow and the data flow of the source, not the last bit of
  a product or a sum: at an input where a binary rounding error decides a comparison or a
  decimal rounding, the program can go another way than the exact reading does.

  In the double-precision reading (\<open>dbl\<close> below, and every definition whose name ends in
  \<open>_ieee\<close>) a number is a rational that is a double, and every arithmetic operation returns
  the double nearest to its exact result, ties to even, as the program's own operations do.
  It is given for the tax calculator and for the composer of part_001, and it is the reading
  in which the bounds on a bill's total are decided. Overflow to an infinity and the sign of
  zero are outside both readings. Where the source can meet a value that is not a number
  (\<open>undefined\<close>, \<open>NaN\<close>), the type \<open>jsnum\<close> below has it.
\<close>

datatype jsnum = Num rat | NaN | Undefined

text \<open>
  \<open>+(x).toFixed(d)\<close> and \<open>parseFloat(x.toFixed(d))\<close>: the decimal with \<open>d\<close> digits
  nearest to \<open>x\<close>; of two equally near ones \<open>toFixed\<close> takes the larger magnitude.
\<close>

definition toFixed :: "nat \<Rightarrow> rat \<Rightarrow> rat" where
  "toFixed d x = sgn x * of_int \<lfloor>\<bar>x\<bar> * 10 ^ d + 1 / 2\<rfloor> / 10 ^ d"

text \<open>\<open>x || 0\<close>: \<open>undefined\<close>, \<open>NaN\<close> and \<open>0\<close> are falsy.\<close>

fun js_or0 :: "jsnum \<Rightarrow> jsnum" where
  "js_or0 (Num r) = (if r = 0 then Num 0 else Num r)"
| "js_or0 NaN = Num 0"
| "js_or0 Undefined = Num 0"

text \<open>\<open>*\<close> and \<open>+\<close> on numbers; an operand that is \<open>undefined\<close> or \<open>NaN\<close> gives \<open>NaN\<close>.\<close>

fun js_times :: "jsnum \<Rightarrow> jsnum \<Rightarrow> jsnum" where
  "js_times (Num a) (Num b) = Num (a * b)"
| "js_times _ _ = NaN"

fun js_plus :: "jsnum \<Rightarrow> jsnum \<Rightarrow> jsnum" where
  "js_plus (Num a) (Num b) = Num (a + b)"
| "js_plus _ _ = NaN"

text \<open>\<open>x / 100\<close>, the only division of the tax calculator.\<close>

fun js_div100 :: "jsnum \<Rightarrow> jsnum" where
  "js_div100 (Num a) = Num (a / 100)"
| "js_div100 _ = NaN"

text \<open>\<open>+(x).toFixed(2)\<close> on the result of an addition: \<open>NaN.toFixed(2)\<close> is the string
  \<open>"NaN"\<close>, which unary plus reads back as \<open>NaN\<close>.\<close>

fun js_toFixed2 :: "jsnum \<Rightarrow> jsnum" where
  "js_toFixed2 (Num a) = Num (toFixed 2 a)"
| "js_toFixed2 _ = NaN"

text \<open>\<open>Number(x)\<close> on a cell of the sheet: a number is itself, a missing cell is \<open>NaN\<close>.\<close>

fun js_Number :: "jsnum \<Rightarrow> jsnum" where
  "js_Number (Num r) = Num r"
| "js_Number _ = NaN"

text \<open>
  Doubles. \<open>rne y\<close> is the integer nearest to \<open>y\<close>, the even one of two equally near;
  \<open>binade x\<close> is the exponent \<open>e\<close> with \<open>2^e \<le> x < 2^(e+1)\<close> of a positive \<open>x\<close>. A double
  has 53 significant bits and its exponent is at least -1022, so the doubles around \<open>x\<close> are
  the multiples of \<open>2^u\<close> with \<open>u = max (binade |x|) (-1022) - 52\<close>, and \<open>dbl x\<close> is the one
  nearest to \<open>x\<close>. The largest finite double is not modelled: a result beyond it, which the
  program would turn into \<open>Infinity\<close>, stays finite here.
\<close>

definition rne :: "rat \<Rightarrow> int" where
  "rne y = (let f = \<lfloor>y\<rfloor>
            in if y - of_int f < 1 / 2 then f
               else if y - of_int f > 1 / 2 then f + 1
               else if even f then f else f + 1)"

definition binade :: "rat \<Rightarrow> int" where
  "binade x = (let (p, q) = quotient_of x;
                   e0 = bitlen p - bitlen q
               in if 2 powi e0 \<le> x then e0 else e0 - 1)"

definition dbl :: "rat \<Rightarrow> rat" where
  "dbl x = (if x = 0 then 0
            else (let u = max (binade \<bar>x\<bar>) (- 1022) - 52
                  in sgn x * of_int (rne (\<bar>x\<bar> / 2 powi u)) * 2 powi u))"

text \<open>
  \<open>a + b\<close>, \<open>a - b\<close>, \<open>a * b\<close> and \<open>a / b\<close> on doubles: the exact result, rounded. A literal
  of the source such as \<open>0.9\<close> is the double \<open>dbl (9 / 10)\<close>.
\<close>

definition dadd :: "rat \<Rightarrow> rat \<Rightarrow> rat" where
  "dadd a b = dbl (a + b)"

definition dsub :: "rat \<Rightarrow> rat \<Rightarrow> rat" where
  "dsub a b = dbl (a - b)"

definition dmul :: "rat \<Rightarrow> rat \<Rightarrow> rat" where
  "dmul a b = dbl (a * b)"

definition ddiv :: "rat \<Rightarrow> rat \<Rightarrow> rat" where
  "ddiv a b = dbl (a / b)"

text \<open>
  \<open>+(x).toFixed(d)\<close> and \<open>parseFloat(x.toFixed(d))\<close> on a double \<open>x\<close>: \<open>toFixed\<close> prints the
  decimal with \<open>d\<close> digits nearest to the exact value of \<open>x\<close> (the larger of two equally near
  ones), and reading the string back gives the double nearest to that decimal.
\<close>

definition toFixed_ieee :: "nat \<Rightarrow> rat \<Rightarrow> rat" where
  "toFixed_ieee d x = dbl (toFixed d x)"

text \<open>\<open>x || 0\<close> on a number.\<close>

definition or0 :: "rat \<Rightarrow> rat" where
  "or0 x = (if x = 0 then 0 else x)"

section \<open>Tax calculator\<close>

text \<open>
  \<^verbatim>\<open>
  function calculateItemTotal(price, qty, gstPercent, cessPercent, mrp) {
      const base = price * qty;
      const gstTax = (base * gstPercent) / 100;
      const cessTax = ((mrp || 0) * qty * (cessPercent || 0)) / 100;
      return +(base + gstTax + cessTax).toFixed(2);
  }
  \<close>
  The function is the same in all four source files.
\<close>

definition calculateItemTotal :: "jsnum \<Rightarrow> jsnum \<Rightarrow> jsnum \<Rightarrow> jsnum \<Rightarrow> jsnum \<Rightarrow> jsnum" where
  "calculateItemTotal price qty gstPercent cessPercent mrp =
     (let base = js_times price qty;
          gstTax = js_div100 (js_times base gstPercent);
          cessTax = js_div100 (js_times (js_times (js_or0 mrp) qty) (js_or0 cessPercent))
      in js_toFixed2 (js_plus (js_plus base gstTax) cessTax))"

text \<open>
  The same function on doubles: each product, quotient and sum is rounded to a double before
  the next operation sees it, and \<open>toFixed(2)\<close> is applied to the double the second sum gave.
\<close>

definition calculateItemTotal_ieee :: "rat \<Rightarrow> rat \<Rightarrow> rat \<Rightarrow> rat \<Rightarrow> rat \<Rightarrow> rat" where
  "calculateItemTotal_ieee price q gst cess m =
     (let base = dmul price q;
          gstTax = ddiv (dmul base gst) 100;
          cessTax = ddiv (dmul (dmul (or0 m) q) (or0 cess)) 100
      in toFixed_ieee 2 (dadd (dadd base gstTax) cessTax))"

section \<open>Inventory ledger\<close>

text \<open>
  An inventory row as \<open>buildStockMap\<close> stores it: the numeric columns normalised to numbers,
  \<open>remainingQty\<close> and \<open>singleUnitCost\<close> added. \<open>originalIsFloat\<close> exists in part_002 only
  (\<open>Math.abs(qty % 1) > 0.0001\<close> at load time, never written again).
\<close>

record item =
  Item_Details :: string
  Price :: rat
  GST_PERCENT :: rat
  CESS :: rat
  MRP :: rat
  remainingQty :: rat
  singleUnitCost :: rat
  originalIsFloat :: bool

text \<open>
  The \<open>singleUnitCost\<close> that \<open>buildStockMap\<close> computes for a row from its cells (part_001,
  line 51; the same in part_000 and part_002). The record \<open>item\<close> holds the rows for which
  it is a number.
  \<^verbatim>\<open>
  singleUnitCost: calculateItemTotal(Number(item["Price"]), 1, Number(item["GST PERCENT"]),
                                     Number(item["CESS%"]), Number(item["MRP"])),
  \<close>
\<close>

definition singleUnitCostOf :: "jsnum \<Rightarrow> jsnum \<Rightarrow> jsnum \<Rightarrow> jsnum \<Rightarrow> jsnum" where
  "singleUnitCostOf price gst cess mrpCell =
     calculateItemTotal (js_Number price) (Num 1) (js_Number gst) (js_Number cess) (js_Number mrpCell)"

text \<open>
  The stock map is a JavaScript \<open>Map\<close> from item name to item: an association list in
  insertion order. \<open>buildStockMap\<close> stores each row under its own \<open>"Item Details"\<close>, so in
  a map it built the keys are distinct and every value carries its key (\<open>wf_stock\<close>).
\<close>

type_synonym stockMap = "(string \<times> item) list"

definition wf_stock :: "stockMap \<Rightarrow> bool" where
  "wf_stock m = (distinct (map fst m) \<and> list_all (\<lambda>(k, i). Item_Details i = k) m)"

text \<open>\<open>Math.random()\<close>: the \<open>k\<close>-th call of a run returns \<open>rnd k\<close>, a number in \<open>[0, 1)\<close>.\<close>

type_synonym rng = "nat \<Rightarrow> rat"

definition rng_ok :: "rng \<Rightarrow> bool" where
  "rng_ok rnd = (\<forall>k. 0 \<le> rnd k \<and> rnd k < 1)"

text \<open>
  \<^verbatim>\<open>
  function shuffleArray(array) {
      for (let i = array.length - 1; i > 0; i--) {
          const j = Math.floor(Math.random() * (i + 1));
          [array[i], array[j]] = [array[j], array[i]];
      }
  }
  \<close>
  The first argument of \<open>shuffleLoop\<close> is the loop variable \<open>i\<close>; the array travels with the
  number of \<open>Math.random()\<close> calls made so far.
\<close>

fun shuffleLoop :: "rng \<Rightarrow> nat \<Rightarrow> 'a list \<times> nat \<Rightarrow> 'a list \<times> nat" where
  "shuffleLoop rnd 0 (array, k) = (array, k)"
| "shuffleLoop rnd (Suc i') (array, k) =
     (let i = Suc i';
          j = nat \<lfloor>rnd k * of_nat (i + 1)\<rfloor>
      in shuffleLoop rnd i' (array[i := array ! j, j := array ! i], k + 1))"

definition shuffleArray :: "rng \<Rightarrow> 'a list \<times> nat \<Rightarrow> 'a list \<times> nat" where
  "shuffleArray rnd ak = shuffleLoop rnd (length (fst ak) - 1) ak"

text \<open>The number held by a \<open>jsnum\<close> that is known to be one.\<close>

fun theNum :: "jsnum \<Rightarrow> rat" where
  "theNum (Num r) = r"
| "theNum _ = 0"

text \<open>
  \<^verbatim>\<open>
  function getItemBillTotal(item, qty) {
      return calculateItemTotal(item["Price"], qty, item["GST PERCENT"] || 0,
                                item["CESS%"] || 0, item["MRP"] || 0);
  }
  \<close>
\<close>

definition getItemBillTotal :: "item \<Rightarrow> rat \<Rightarrow> rat" where
  "getItemBillTotal it q =
     theNum (calculateItemTotal (Num (Price it)) (Num q) (js_or0 (Num (GST_PERCENT it)))
               (js_or0 (Num (CESS it))) (js_or0 (Num (MRP it))))"

section \<open>Fractional-sale policy\<close>

text \<open>\<open>x % 1\<close>: the remainder of the division truncated towards zero, with the sign of \<open>x\<close>.\<close>

definition rem1 :: "rat \<Rightarrow> rat" where
  "rem1 x = x - of_int (if 0 \<le> x then \<lfloor>x\<rfloor> else \<lceil>x\<rceil>)"

text \<open>
  part_000 and part_001:
  \<^verbatim>\<open>
  function canSellInFloat(item, roomLeft) {
      if (item["MRP"] > 10000) return true;
      if (item.remainingQty % 1 !== 0) return true;
      if (item.singleUnitCost > roomLeft) return true;
      return false;
  }
  \<close>
\<close>

definition canSellInFloat :: "item \<Rightarrow> rat \<Rightarrow> bool" where
  "canSellInFloat it roomLeft =
     (if MRP it > 10000 then True
      else if rem1 (remainingQty it) \<noteq> 0 then True
      else if singleUnitCost it > roomLeft then True
      else False)"

text \<open>
  part_002 (\<open>// STRICT FLOAT LOGIC\<close>):
  \<^verbatim>\<open>
  function canSellInFloat(item) {
      if (item["MRP"] > 10000) return true;
      if (item.originalIsFloat) return true;
      return false;
  }
  \<close>
\<close>

definition canSellInFloat_p2 :: "item \<Rightarrow> bool" where
  "canSellInFloat_p2 it =
     (if MRP it > 10000 then True
      else if originalIsFloat it then True
      else False)"

section \<open>Bill composer (part_001)\<close>

datatype mode = RANGE | EXACT

text \<open>An entry \<open>{ item, qty, cost }\<close> of \<open>currentBill\<close>.\<close>

record entry =
  item :: item
  qty :: rat
  cost :: rat

text \<open>
  The variables of one attempt (\<open>currentBill\<close>, \<open>currentTotal\<close>, \<open>pickedCount\<close>, the scratch
  map \<open>tempUsed\<close>), and \<open>calls\<close>, the number of \<open>Math.random()\<close> calls made so far.
\<close>

record attempt =
  currentBill :: "entry list"
  currentTotal :: rat
  pickedCount :: nat
  tempUsed :: "(string \<times> rat) list"
  calls :: nat

text \<open>\<open>tempUsed.get(name) || 0\<close>\<close>

definition usedOf :: "(string \<times> rat) list \<Rightarrow> string \<Rightarrow> rat" where
  "usedOf tu n = (case map_of tu n of None \<Rightarrow> 0 | Some u \<Rightarrow> u)"

text \<open>
  \<^verbatim>\<open>
  const getRem = (i) => {
      const used = tempUsed.get(i["Item Details"]) || 0;
      return Math.max(0, i.remainingQty - used);
  };
  \<close>
\<close>

definition getRem :: "(string \<times> rat) list \<Rightarrow> item \<Rightarrow> rat" where
  "getRem tu i = (let used = usedOf tu (Item_Details i) in max 0 (remainingQty i - used))"

text \<open>
  The head of the item loop (part_001, lines 171-174); \<open>True\<close> is \<open>break\<close>.
  \<^verbatim>\<open>
  if (currentTotal >= targetMin && pickedCount >= minItems) {
       if (attempt === 0 || Math.random() > 0.5) break;
  }
  \<close>
  The argument \<open>bigFirst\<close> is the test of the deterministic pass: \<open>attempt === 0\<close> in
  part_001, \<open>attempt === 0 || attempt === 2\<close> in part_002. When it holds, \<open>Math.random()\<close>
  is not called.
\<close>

definition doneCondition :: "rng \<Rightarrow> rat \<Rightarrow> nat \<Rightarrow> bool \<Rightarrow> attempt \<Rightarrow> bool \<times> attempt" where
  "doneCondition rnd targetMin minItems bigFirst st =
     (if currentTotal st \<ge> targetMin \<and> pickedCount st \<ge> minItems then
        (if bigFirst then (True, st)
         else (rnd (calls st) > 1 / 2, st\<lparr>calls := calls st + 1\<rparr>))
      else (False, st))"

text \<open>
  \<open>Math.min(actualRemaining, roomLeft / item.singleUnitCost)\<close>. It is evaluated with
  \<open>roomLeft \<ge> 1\<close> only, where a division by a zero unit cost is \<open>Infinity\<close> in JavaScript (and
  zero in HOL): the minimum is then \<open>actualRemaining\<close>.
\<close>

definition absMaxOf :: "rat \<Rightarrow> rat \<Rightarrow> item \<Rightarrow> rat" where
  "absMaxOf actualRemaining roomLeft it =
     (if singleUnitCost it = 0 then actualRemaining
      else (let maxQtyBudget = roomLeft / singleUnitCost it in min actualRemaining maxQtyBudget))"

text \<open>
  The quantity chosen for one item (part_001, lines 188-210; part_002, lines 174-188);
  \<open>None\<close> is \<open>continue\<close>.
  \<^verbatim>\<open>
  let qty = 0;
  if (allowFloat) {
      if (absMax < 0.01) continue;
      let factor = (attempt === 0) ? 0.9 : (Math.random() * 0.8 + 0.2);
      qty = parseFloat((absMax * factor).toFixed(2));
      if (pickedCount < minItems && qty > absMax / 2) {
           qty = parseFloat((absMax / 2).toFixed(2));
      }
  } else {
      let intMax = Math.floor(absMax);
      if (intMax < 1) continue;
      if (pickedCount < minItems) intMax = Math.min(intMax, 2);
      qty = Math.floor(Math.random() * intMax) + 1;
  }
  \<close>
\<close>

definition chooseQty :: "rng \<Rightarrow> nat \<Rightarrow> bool \<Rightarrow> bool \<Rightarrow> rat \<Rightarrow> attempt \<Rightarrow> rat option \<times> attempt" where
  "chooseQty rnd minItems bigFirst allowFloat absMax st =
     (if allowFloat then
        (if absMax < 1 / 100 then (None, st)
         else
           (let (factor, st1) =
                  (if bigFirst then (9 / 10, st)
                   else (rnd (calls st) * (8 / 10) + 2 / 10, st\<lparr>calls := calls st + 1\<rparr>));
                q = toFixed 2 (absMax * factor)
            in if pickedCount st < minItems \<and> q > absMax / 2
               then (Some (toFixed 2 (absMax / 2)), st1)
               else (Some q, st1)))
      else
        (let intMax = \<lfloor>absMax\<rfloor>
         in if intMax < 1 then (None, st)
            else
              (let intMax' = (if pickedCount st < minItems then min intMax 2 else intMax)
               in (Some (of_int (\<lfloor>rnd (calls st) * of_int intMax'\<rfloor> + 1)),
                   st\<lparr>calls := calls st + 1\<rparr>))))"

text \<open>
  The end of the loop body (part_001, lines 212-219; part_002, lines 190-196).
  \<^verbatim>\<open>
  if (qty <= 0) continue;
  let cost = getItemBillTotal(item, qty);
  currentBill.push({ item, qty, cost });
  currentTotal += cost;
  pickedCount++;
  tempUsed.set(item["Item Details"], (tempUsed.get(item["Item Details"]) || 0) + qty);
  \<close>
\<close>

definition pushEntry :: "item \<Rightarrow> rat \<Rightarrow> attempt \<Rightarrow> attempt" where
  "pushEntry it q st =
     (if q \<le> 0 then st
      else
        (let c = getItemBillTotal it q
         in st\<lparr>currentBill := currentBill st @ [\<lparr>item = it, qty = q, cost = c\<rparr>],
               currentTotal := currentTotal st + c,
               pickedCount := pickedCount st + 1,
               tempUsed := AList.update (Item_Details it)
                             (usedOf (tempUsed st) (Item_Details it) + q) (tempUsed st)\<rparr>))"

text \<open>
  The body of the item loop after its head (part_001, lines 176-219); leaving the state as
  it is stands for \<open>continue\<close>.
  \<^verbatim>\<open>
  const actualRemaining = getRem(item);
  if (actualRemaining <= 0.001) continue;
  const roomLeft = targetMax - currentTotal;
  if (roomLeft < 1) continue;
  const allowFloat = canSellInFloat(item, roomLeft);
  let maxQtyBudget = roomLeft / item.singleUnitCost;
  let absMax = Math.min(actualRemaining, maxQtyBudget);
  ...
  \<close>
\<close>

definition pickItem :: "rng \<Rightarrow> rat \<Rightarrow> nat \<Rightarrow> nat \<Rightarrow> item \<Rightarrow> attempt \<Rightarrow> attempt" where
  "pickItem rnd targetMax minItems attemptNo it st =
     (let actualRemaining = getRem (tempUsed st) it
      in if actualRemaining \<le> 1 / 1000 then st
         else
           (let roomLeft = targetMax - currentTotal st
            in if roomLeft < 1 then st
               else
                 (let allowFloat = canSellInFloat it roomLeft;
                      absMax = absMaxOf actualRemaining roomLeft it
                  in case chooseQty rnd minItems (attemptNo = 0) allowFloat absMax st of
                       (None, st1) \<Rightarrow> st1
                     | (Some q, st1) \<Rightarrow> pushEntry it q st1)))"

text \<open>\<open>for (const item of selectionPool) { ... }\<close>\<close>

fun pickItems :: "rng \<Rightarrow> rat \<Rightarrow> rat \<Rightarrow> nat \<Rightarrow> nat \<Rightarrow> item list \<Rightarrow> attempt \<Rightarrow> attempt" where
  "pickItems rnd targetMin targetMax minItems attemptNo [] st = st"
| "pickItems rnd targetMin targetMax minItems attemptNo (it # selectionPool) st =
     (case doneCondition rnd targetMin minItems (attemptNo = 0) st of
        (True, st1) \<Rightarrow> st1
      | (False, st1) \<Rightarrow>
          pickItems rnd targetMin targetMax minItems attemptNo selectionPool
            (pickItem rnd targetMax minItems attemptNo it st1))"

text \<open>
  Validation (part_001, lines 223-231; the same lines in part_000 and part_002).
  \<^verbatim>\<open>
  let isValid = false;
  const tolerance = mode === 'EXACT' ? margin : 0;
  if (mode === 'RANGE') {
      if (currentTotal >= targetMin && currentTotal <= targetMax && pickedCount >= minItems) isValid = true;
  } else {
       if (Math.abs(targetMax - currentTotal) <= tolerance && pickedCount >= minItems) isValid = true;
  }
  \<close>
\<close>

definition isValid :: "mode \<Rightarrow> rat \<Rightarrow> rat \<Rightarrow> rat \<Rightarrow> nat \<Rightarrow> attempt \<Rightarrow> bool" where
  "isValid md margin targetMin targetMax minItems st =
     (let tolerance = (if md = EXACT then margin else 0)
      in if md = RANGE
         then currentTotal st \<ge> targetMin \<and> currentTotal st \<le> targetMax \<and> pickedCount st \<ge> minItems
         else \<bar>targetMax - currentTotal st\<bar> \<le> tolerance \<and> pickedCount st \<ge> minItems)"

text \<open>
  Safe landing (part_001, lines 234 and 243).
  \<^verbatim>\<open>
  const futureDayRemaining = dayTotalRemaining - currentTotal;
  if (futureDayRemaining <= margin || futureDayRemaining > 50) { ... }
  \<close>
\<close>

definition safeLanding :: "rat \<Rightarrow> rat \<Rightarrow> attempt \<Rightarrow> bool" where
  "safeLanding dayTotalRemaining margin st =
     (let futureDayRemaining = dayTotalRemaining - currentTotal st
      in futureDayRemaining \<le> margin \<or> futureDayRemaining > 50)"

definition newAttempt :: "nat \<Rightarrow> attempt" where
  "newAttempt k = \<lparr>currentBill = [], currentTotal = 0, pickedCount = 0, tempUsed = [], calls = k\<rparr>"

text \<open>
  The attempt loop of one tier (part_001, lines 142-255):
  \<open>for (let attempt = 0; attempt < maxAttempts; attempt++)\<close>. Attempt 0 walks
  \<open>expensiveItemsFirst\<close>, every later attempt a fresh shuffled copy of \<open>availableItems\<close>. The
  result is the accepted attempt, if any, and the number of \<open>Math.random()\<close> calls made.
\<close>

function attemptLoop ::
  "rng \<Rightarrow> mode \<Rightarrow> rat \<Rightarrow> rat \<Rightarrow> rat \<Rightarrow> rat \<Rightarrow> item list \<Rightarrow> item list \<Rightarrow> nat \<Rightarrow> nat \<Rightarrow> nat \<Rightarrow> nat
     \<Rightarrow> attempt option \<times> nat" where
  "attemptLoop rnd md margin targetMin targetMax dayTotalRemaining availableItems expensiveItemsFirst
       minItems maxAttempts attemptNo k =
     (if attemptNo < maxAttempts then
        (let (selectionPool, k1) =
               (if attemptNo = 0 then (expensiveItemsFirst, k)
                else shuffleArray rnd (availableItems, k));
             st = pickItems rnd targetMin targetMax minItems attemptNo selectionPool (newAttempt k1)
         in if isValid md margin targetMin targetMax minItems st \<and> safeLanding dayTotalRemaining margin st
            then (Some st, calls st)
            else attemptLoop rnd md margin targetMin targetMax dayTotalRemaining availableItems
                   expensiveItemsFirst minItems maxAttempts (attemptNo + 1) (calls st))
      else (None, k))"
  by pat_completeness auto
termination
  by (relation "measure (\<lambda>(rnd, md, margin, targetMin, targetMax, dayTotalRemaining, availableItems,
                           expensiveItemsFirst, minItems, maxAttempts, attemptNo, k). maxAttempts - attemptNo)")
     auto

declare attemptLoop.simps [simp del]

text \<open>A tier \<open>{ count, attempts }\<close> and the table \<open>baseAttempts\<close>.\<close>

record tier =
  count :: nat
  attempts :: nat

definition baseAttempts :: "tier list" where
  "baseAttempts = [\<lparr>count = 4, attempts = 50\<rparr>, \<lparr>count = 3, attempts = 50\<rparr>,
                   \<lparr>count = 2, attempts = 100\<rparr>, \<lparr>count = 1, attempts = 20\<rparr>]"

text \<open>
  \<^verbatim>\<open>
  let effortMultiplier = 1.0;
  if (currentFailures > 50) effortMultiplier = 0.5;
  if (currentFailures > 500) effortMultiplier = 0.1;
  if (currentFailures > 2000) effortMultiplier = 0.02;
  \<close>
\<close>

definition effortMultiplier :: "nat \<Rightarrow> rat" where
  "effortMultiplier currentFailures =
     (if currentFailures > 2000 then 2 / 100
      else if currentFailures > 500 then 1 / 10
      else if currentFailures > 50 then 1 / 2
      else 1)"

text \<open>
  The tier loop (part_001, lines 123-256): \<open>for (const tier of baseAttempts)\<close>. The sum
  \<open>minPossibleCost\<close> of lines 131-139 feeds an \<open>if\<close> with an empty body and is left out. The
  result names the tier whose attempt was accepted.
\<close>

fun tierLoop ::
  "rng \<Rightarrow> mode \<Rightarrow> rat \<Rightarrow> rat \<Rightarrow> rat \<Rightarrow> rat \<Rightarrow> item list \<Rightarrow> item list \<Rightarrow> rat \<Rightarrow> tier list \<Rightarrow> nat
     \<Rightarrow> (tier \<times> attempt) option \<times> nat" where
  "tierLoop rnd md margin targetMin targetMax dayTotalRemaining availableItems expensiveItemsFirst
       effort [] k = (None, k)"
| "tierLoop rnd md margin targetMin targetMax dayTotalRemaining availableItems expensiveItemsFirst
       effort (t # tiers) k =
     (let minItems = count t;
          maxAttempts = max 1 (nat \<lfloor>of_nat (attempts t) * effort\<rfloor>);
          itemCount = length availableItems
      in if itemCount < minItems
         then tierLoop rnd md margin targetMin targetMax dayTotalRemaining availableItems
                expensiveItemsFirst effort tiers k
         else
           (case attemptLoop rnd md margin targetMin targetMax dayTotalRemaining availableItems
                   expensiveItemsFirst minItems maxAttempts 0 k of
              (Some st, k') \<Rightarrow> (Some (t, st), k')
            | (None, k') \<Rightarrow>
                tierLoop rnd md margin targetMin targetMax dayTotalRemaining availableItems
                  expensiveItemsFirst effort tiers k'))"

section \<open>Result formatter\<close>

text \<open>A line of a bill; \<open>itemQty\<close> is the source's field \<open>qty\<close>.\<close>

record billItem =
  name :: string
  itemQty :: rat
  unitPrice :: rat
  gstPercent :: rat
  cessPercent :: rat
  mrp :: rat
  cessTaxAmount :: rat
  itemTotal :: rat
  date :: string

text \<open>
  The object a composer call returns. \<open>targetAmount\<close> is absent from a failure, \<open>reason\<close>
  from all but the "No items" failure, and \<open>tempUsedMap\<close> is set by part_002 only.
\<close>

record bill =
  items :: "billItem list"
  total :: rat
  targetAmount :: "rat option"
  success :: bool
  reason :: "string option"
  tempUsedMap :: "(string \<times> rat) list option"

text \<open>
  \<^verbatim>\<open>
  function formatResult(billArray, total, target, date) {
      const finalItems = billArray.map(entry => {
          const cessTaxAmount = ((entry.item["MRP"] || 0) * entry.qty * (entry.item["CESS%"] || 0)) / 100;
          return { name: entry.item["Item Details"], qty: entry.qty, unitPrice: entry.item["Price"],
                   gstPercent: entry.item["GST PERCENT"], cessPercent: entry.item["CESS%"],
                   mrp: entry.item["MRP"], cessTaxAmount: cessTaxAmount, itemTotal: entry.cost,
                   date: date };
      });
      return { items: finalItems, total: +total.toFixed(2), targetAmount: target, success: true };
  }
  \<close>
\<close>

definition formatEntry :: "string \<Rightarrow> entry \<Rightarrow> billItem" where
  "formatEntry d e =
     \<lparr>name = Item_Details (item e), itemQty = qty e, unitPrice = Price (item e),
      gstPercent = GST_PERCENT (item e), cessPercent = CESS (item e), mrp = MRP (item e),
      cessTaxAmount = MRP (item e) * qty e * CESS (item e) / 100,
      itemTotal = cost e, date = d\<rparr>"

definition formatResult :: "entry list \<Rightarrow> rat \<Rightarrow> rat \<Rightarrow> string \<Rightarrow> bill" where
  "formatResult billArray tot target d =
     \<lparr>items = map (formatEntry d) billArray, total = toFixed 2 tot, targetAmount = Some target,
      success = True, reason = None, tempUsedMap = None\<rparr>"

text \<open>\<open>{ items: [], total: 0, success: false }\<close>, with or without a \<open>reason\<close>.\<close>

definition failure :: "string option \<Rightarrow> bill" where
  "failure r = \<lparr>items = [], total = 0, targetAmount = None, success = False, reason = r,
                tempUsedMap = None\<rparr>"

section \<open>Commit and the composer's entry point (part_001)\<close>

text \<open>
  \<^verbatim>\<open>
  currentBill.forEach(entry => {
      const realItem = stockMap.get(entry.item["Item Details"]);
      realItem.remainingQty = parseFloat((realItem.remainingQty - entry.qty).toFixed(3));
  });
  \<close>
  Every entry's item was read from the map, so the lookup finds it; a missing key would be a
  \<open>TypeError\<close> in the source and leaves the map as it is here.
\<close>

definition commitQty :: "stockMap \<Rightarrow> string \<Rightarrow> rat \<Rightarrow> stockMap" where
  "commitQty stock n q =
     (case map_of stock n of
        None \<Rightarrow> stock
      | Some realItem \<Rightarrow>
          AList.update n (realItem\<lparr>remainingQty := toFixed 3 (remainingQty realItem - q)\<rparr>) stock)"

definition commitBill :: "stockMap \<Rightarrow> entry list \<Rightarrow> stockMap" where
  "commitBill stock bl = foldl (\<lambda>m e. commitQty m (Item_Details (item e)) (qty e)) stock bl"

text \<open>
  The snapshot of the stock a composer call starts from (part_001, lines 94-106).
  \<^verbatim>\<open>
  let availableItems = Array.from(stockMap.values()).filter(item => item.remainingQty > 0.001);
  availableItems.sort((a, b) => a.singleUnitCost - b.singleUnitCost);
  const expensiveItemsFirst = [...availableItems].sort((a, b) => b.singleUnitCost - a.singleUnitCost);
  \<close>
  \<open>Array.prototype.sort\<close> is stable, as \<open>sort_key\<close> is.
\<close>

definition availableItemsOf :: "stockMap \<Rightarrow> item list" where
  "availableItemsOf stock =
     sort_key singleUnitCost (filter (\<lambda>i. remainingQty i > 1 / 1000) (map snd stock))"

definition expensiveFirstOf :: "item list \<Rightarrow> item list" where
  "expensiveFirstOf availableItems = sort_key (\<lambda>i. - singleUnitCost i) availableItems"

text \<open>
  \<open>generateBillFromMap\<close> of part_001 (lines 90-260). It returns the bill, the stock map
  after the call and the number of \<open>Math.random()\<close> calls made. \<open>await waitFrame()\<close> only
  yields to the event loop and is left out.
  \<^verbatim>\<open>
  const itemCount = availableItems.length;
  if (itemCount === 0) return { items: [], total: 0, success: false, reason: "No items" };
  ...
  for (const tier of baseAttempts) { ...
              if (futureDayRemaining <= margin || futureDayRemaining > 50) {
                  currentBill.forEach(entry => { ... });
                  return formatResult(currentBill, currentTotal, targetMax, date);
              }
  ... }
  return { items: [], total: 0, success: false };
  \<close>
\<close>

definition generateBillFromMap ::
  "rng \<Rightarrow> stockMap \<Rightarrow> rat \<Rightarrow> rat \<Rightarrow> rat \<Rightarrow> string \<Rightarrow> rat \<Rightarrow> mode \<Rightarrow> nat \<Rightarrow> nat
     \<Rightarrow> bill \<times> stockMap \<times> nat" where
  "generateBillFromMap rnd stock targetMin targetMax dayTotalRemaining d margin md currentFailures k =
     (let availableItems = availableItemsOf stock;
          itemCount = length availableItems
      in if itemCount = 0 then (failure (Some ''No items''), stock, k)
         else
           (case tierLoop rnd md margin targetMin targetMax dayTotalRemaining availableItems
                   (expensiveFirstOf availableItems) (effortMultiplier currentFailures) baseAttempts k of
              (Some (t, st), k') \<Rightarrow>
                (formatResult (currentBill st) (currentTotal st) targetMax d,
                 commitBill stock (currentBill st), k')
            | (None, k') \<Rightarrow> (failure None, stock, k')))"

section \<open>Bill composer (part_001) in double precision\<close>

text \<open>
  The definitions of this section follow part_001 line by line, as those of the sections
  \<open>Bill composer (part_001)\<close>, \<open>Result formatter\<close> and \<open>Commit and the composer's entry
  point (part_001)\<close> do, whose quotations of the source they share; each carries the name of
  its exact counterpart. What does no arithmetic (\<open>usedOf\<close>, \<open>doneCondition\<close>,
  \<open>canSellInFloat\<close>, whose \<open>% 1\<close> is exact on doubles, \<open>newAttempt\<close>, \<open>baseAttempts\<close>,
  \<open>expensiveFirstOf\<close>, \<open>failure\<close>) is used as it is. The numbers in an \<open>item\<close>, an
  \<open>attempt\<close>, a \<open>bill\<close> and the results of \<open>Math.random()\<close> are doubles here.

  \<open>getItemBillTotal\<close> (lines 62-70).
\<close>

definition getItemBillTotal_ieee :: "item \<Rightarrow> rat \<Rightarrow> rat" where
  "getItemBillTotal_ieee it q =
     calculateItemTotal_ieee (Price it) q (or0 (GST_PERCENT it)) (or0 (CESS it)) (or0 (MRP it))"

text \<open>\<open>getRem\<close> (lines 164-167): \<open>Math.max(0, i.remainingQty - used)\<close>.\<close>

definition getRem_ieee :: "(string \<times> rat) list \<Rightarrow> item \<Rightarrow> rat" where
  "getRem_ieee tu i = (let used = usedOf tu (Item_Details i) in max 0 (dsub (remainingQty i) used))"

text \<open>
  \<open>Math.min(actualRemaining, roomLeft / item.singleUnitCost)\<close> (lines 185-186); a zero unit
  cost makes the quotient \<open>Infinity\<close> and the minimum \<open>actualRemaining\<close>.
\<close>

definition absMaxOf_ieee :: "rat \<Rightarrow> rat \<Rightarrow> item \<Rightarrow> rat" where
  "absMaxOf_ieee actualRemaining roomLeft it =
     (if singleUnitCost it = 0 then actualRemaining
      else (let maxQtyBudget = ddiv roomLeft (singleUnitCost it) in min actualRemaining maxQtyBudget))"

text \<open>
  The quantity chosen for one item (lines 188-210). The literals \<open>0.01\<close>, \<open>0.9\<close>, \<open>0.8\<close>
  and \<open>0.2\<close> are the doubles nearest to them.
\<close>

definition chooseQty_ieee :: "rng \<Rightarrow> nat \<Rightarrow> bool \<Rightarrow> bool \<Rightarrow> rat \<Rightarrow> attempt \<Rightarrow> rat option \<times> attempt" where
  "chooseQty_ieee rnd minItems bigFirst allowFloat absMax st =
     (if allowFloat then
        (if absMax < dbl (1 / 100) then (None, st)
         else
           (let (factor, st1) =
                  (if bigFirst then (dbl (9 / 10), st)
                   else (dadd (dmul (rnd (calls st)) (dbl (8 / 10))) (dbl (2 / 10)),
                         st\<lparr>calls := calls st + 1\<rparr>));
                q = toFixed_ieee 2 (dmul absMax factor)
            in if pickedCount st < minItems \<and> q > ddiv absMax 2
               then (Some (toFixed_ieee 2 (ddiv absMax 2)), st1)
               else (Some q, st1)))
      else
        (let intMax = \<lfloor>absMax\<rfloor>
         in if intMax < 1 then (None, st)
            else
              (let intMax' = (if pickedCount st < minItems then min intMax 2 else intMax)
               in (Some (dadd (of_int \<lfloor>dmul (rnd (calls st)) (of_int intMax')\<rfloor>) 1),
                   st\<lparr>calls := calls st + 1\<rparr>))))"

text \<open>The end of the loop body (lines 212-219): \<open>currentTotal += cost\<close> is a rounded sum.\<close>

definition pushEntry_ieee :: "item \<Rightarrow> rat \<Rightarrow> attempt \<Rightarrow> attempt" where
  "pushEntry_ieee it q st =
     (if q \<le> 0 then st
      else
        (let c = getItemBillTotal_ieee it q
         in st\<lparr>currentBill := currentBill st @ [\<lparr>item = it, qty = q, cost = c\<rparr>],
               currentTotal := dadd (currentTotal st) c,
               pickedCount := pickedCount st + 1,
               tempUsed := AList.update (Item_Details it)
                             (dadd (usedOf (tempUsed st) (Item_Details it)) q) (tempUsed st)\<rparr>))"

text \<open>The body of the item loop after its head (lines 176-219).\<close>

definition pickItem_ieee :: "rng \<Rightarrow> rat \<Rightarrow> nat \<Rightarrow> nat \<Rightarrow> item \<Rightarrow> attempt \<Rightarrow> attempt" where
  "pickItem_ieee rnd targetMax minItems attemptNo it st =
     (let actualRemaining = getRem_ieee (tempUsed st) it
      in if actualRemaining \<le> dbl (1 / 1000) then st
         else
           (let roomLeft = dsub targetMax (currentTotal st)
            in if roomLeft < 1 then st
               else
                 (let allowFloat = canSellInFloat it roomLeft;
                      absMax = absMaxOf_ieee actualRemaining roomLeft it
                  in case chooseQty_ieee rnd minItems (attemptNo = 0) allowFloat absMax st of
                       (None, st1) \<Rightarrow> st1
                     | (Some q, st1) \<Rightarrow> pushEntry_ieee it q st1)))"

text \<open>\<open>for (const item of selectionPool) { ... }\<close>\<close>

fun pickItems_ieee :: "rng \<Rightarrow> rat \<Rightarrow> rat \<Rightarrow> nat \<Rightarrow> nat \<Rightarrow> item list \<Rightarrow> attempt \<Rightarrow> attempt" where
  "pickItems_ieee rnd targetMin targetMax minItems attemptNo [] st = st"
| "pickItems_ieee rnd targetMin targetMax minItems attemptNo (it # selectionPool) st =
     (case doneCondition rnd targetMin minItems (attemptNo = 0) st of
        (True, st1) \<Rightarrow> st1
      | (False, st1) \<Rightarrow>
          pickItems_ieee rnd targetMin targetMax minItems attemptNo selectionPool
            (pickItem_ieee rnd targetMax minItems attemptNo it st1))"

text \<open>
  Validation (lines 223-231). It compares \<open>currentTotal\<close>, the running sum of the line
  totals, which need not be a whole number of hundredths.
\<close>

definition isValid_ieee :: "mode \<Rightarrow> rat \<Rightarrow> rat \<Rightarrow> rat \<Rightarrow> nat \<Rightarrow> attempt \<Rightarrow> bool" where
  "isValid_ieee md margin targetMin targetMax minItems st =
     (let tolerance = (if md = EXACT then margin else 0)
      in if md = RANGE
         then currentTotal st \<ge> targetMin \<and> currentTotal st \<le> targetMax \<and> pickedCount st \<ge> minItems
         else \<bar>dsub targetMax (currentTotal st)\<bar> \<le> tolerance \<and> pickedCount st \<ge> minItems)"

text \<open>Safe landing (lines 234 and 243), on the same running sum.\<close>

definition safeLanding_ieee :: "rat \<Rightarrow> rat \<Rightarrow> attempt \<Rightarrow> bool" where
  "safeLanding_ieee dayTotalRemaining margin st =
     (let futureDayRemaining = dsub dayTotalRemaining (currentTotal st)
      in futureDayRemaining \<le> margin \<or> futureDayRemaining > 50)"

text \<open>\<open>shuffleArray\<close> (lines 6-11): \<open>Math.floor(Math.random() * (i + 1))\<close>.\<close>

fun shuffleLoop_ieee :: "rng \<Rightarrow> nat \<Rightarrow> 'a list \<times> nat \<Rightarrow> 'a list \<times> nat" where
  "shuffleLoop_ieee rnd 0 (array, k) = (array, k)"
| "shuffleLoop_ieee rnd (Suc i') (array, k) =
     (let i = Suc i';
          j = nat \<lfloor>dmul (rnd k) (of_nat (i + 1))\<rfloor>
      in shuffleLoop_ieee rnd i' (array[i := array ! j, j := array ! i], k + 1))"

definition shuffleArray_ieee :: "rng \<Rightarrow> 'a list \<times> nat \<Rightarrow> 'a list \<times> nat" where
  "shuffleArray_ieee rnd ak = shuffleLoop_ieee rnd (length (fst ak) - 1) ak"

text \<open>The attempt loop of one tier (lines 142-255).\<close>

function attemptLoop_ieee ::
  "rng \<Rightarrow> mode \<Rightarrow> rat \<Rightarrow> rat \<Rightarrow> rat \<Rightarrow> rat \<Rightarrow> item list \<Rightarrow> item list \<Rightarrow> nat \<Rightarrow> nat \<Rightarrow> nat \<Rightarrow> nat
     \<Rightarrow> attempt option \<times> nat" where
  "attemptLoop_ieee rnd md margin targetMin targetMax dayTotalRemaining availableItems expensiveItemsFirst
       minItems maxAttempts attemptNo k =
     (if attemptNo < maxAttempts then
        (let (selectionPool, k1) =
               (if attemptNo = 0 then (expensiveItemsFirst, k)
                else shuffleArray_ieee rnd (availableItems, k));
             st = pickItems_ieee rnd targetMin targetMax minItems attemptNo selectionPool (newAttempt k1)
         in if isValid_ieee md margin targetMin targetMax minItems st
               \<and> safeLanding_ieee dayTotalRemaining margin st
            then (Some st, calls st)
            else attemptLoop_ieee rnd md margin targetMin targetMax dayTotalRemaining availableItems
                   expensiveItemsFirst minItems maxAttempts (attemptNo + 1) (calls st))
      else (None, k))"
  by pat_completeness auto
termination
  by (relation "measure (\<lambda>(rnd, md, margin, targetMin, targetMax, dayTotalRemaining, availableItems,
                           expensiveItemsFirst, minItems, maxAttempts, attemptNo, k). maxAttempts - attemptNo)")
     auto

declare attemptLoop_ieee.simps [simp del]

text \<open>\<open>effortMultiplier\<close> (lines 110-113), with the literals \<open>0.5\<close>, \<open>0.1\<close> and \<open>0.02\<close>.\<close>

definition effortMultiplier_ieee :: "nat \<Rightarrow> rat" where
  "effortMultiplier_ieee currentFailures =
     (if currentFailures > 2000 then dbl (2 / 100)
      else if currentFailures > 500 then dbl (1 / 10)
      else if currentFailures > 50 then dbl (1 / 2)
      else 1)"

text \<open>
  The tier loop (lines 123-256);
  \<open>maxAttempts = Math.max(1, Math.floor(tier.attempts * effortMultiplier))\<close>.
\<close>

fun tierLoop_ieee ::
  "rng \<Rightarrow> mode \<Rightarrow> rat \<Rightarrow> rat \<Rightarrow> rat \<Rightarrow> rat \<Rightarrow> item list \<Rightarrow> item list \<Rightarrow> rat \<Rightarrow> tier list \<Rightarrow> nat
     \<Rightarrow> (tier \<times> attempt) option \<times> nat" where
  "tierLoop_ieee rnd md margin targetMin targetMax dayTotalRemaining availableItems expensiveItemsFirst
       effort [] k = (None, k)"
| "tierLoop_ieee rnd md margin targetMin targetMax dayTotalRemaining availableItems expensiveItemsFirst
       effort (t # tiers) k =
     (let minItems = count t;
          maxAttempts = max 1 (nat \<lfloor>dmul (of_nat (attempts t)) effort\<rfloor>);
          itemCount = length availableItems
      in if itemCount < minItems
         then tierLoop_ieee rnd md margin targetMin targetMax dayTotalRemaining availableItems
                expensiveItemsFirst effort tiers k
         else
           (case attemptLoop_ieee rnd md margin targetMin targetMax dayTotalRemaining availableItems
                   expensiveItemsFirst minItems maxAttempts 0 k of
              (Some st, k') \<Rightarrow> (Some (t, st), k')
            | (None, k') \<Rightarrow>
                tierLoop_ieee rnd md margin targetMin targetMax dayTotalRemaining availableItems
                  expensiveItemsFirst effort tiers k'))"

text \<open>
  \<open>formatResult\<close> (lines 263-279). The bill's \<open>total\<close> is \<open>+total.toFixed(2)\<close>: the running
  sum is rounded to two decimals here, after validation and safe landing have read it.
\<close>

definition formatEntry_ieee :: "string \<Rightarrow> entry \<Rightarrow> billItem" where
  "formatEntry_ieee d e =
     \<lparr>name = Item_Details (item e), itemQty = qty e, unitPrice = Price (item e),
      gstPercent = GST_PERCENT (item e), cessPercent = CESS (item e), mrp = MRP (item e),
      cessTaxAmount = ddiv (dmul (dmul (or0 (MRP (item e))) (qty e)) (or0 (CESS (item e)))) 100,
      itemTotal = cost e, date = d\<rparr>"

definition formatResult_ieee :: "entry list \<Rightarrow> rat \<Rightarrow> rat \<Rightarrow> string \<Rightarrow> bill" where
  "formatResult_ieee billArray tot target d =
     \<lparr>items = map (formatEntry_ieee d) billArray, total = toFixed_ieee 2 tot,
      targetAmount = Some target, success = True, reason = None, tempUsedMap = None\<rparr>"

text \<open>
  The commit (lines 245-249). \<open>stockMap.get\<close> of a name the map does not hold is
  \<open>undefined\<close>, and the assignment to its \<open>remainingQty\<close> throws a \<open>TypeError\<close>.
\<close>

datatype error = TypeError

definition commitQty_ieee :: "stockMap \<Rightarrow> string \<Rightarrow> rat \<Rightarrow> error + stockMap" where
  "commitQty_ieee stock n q =
     (case map_of stock n of
        None \<Rightarrow> Inl TypeError
      | Some realItem \<Rightarrow>
          Inr (AList.update n
                 (realItem\<lparr>remainingQty := toFixed_ieee 3 (dsub (remainingQty realItem) q)\<rparr>) stock))"

fun commitBill_ieee :: "stockMap \<Rightarrow> entry list \<Rightarrow> error + stockMap" where
  "commitBill_ieee stock [] = Inr stock"
| "commitBill_ieee stock (e # bl) =
     (case commitQty_ieee stock (Item_Details (item e)) (qty e) of
        Inl err \<Rightarrow> Inl err
      | Inr stock' \<Rightarrow> commitBill_ieee stock' bl)"

text \<open>The snapshot of the stock (lines 94-106), with the literal \<open>0.001\<close>.\<close>

definition availableItemsOf_ieee :: "stockMap \<Rightarrow> item list" where
  "availableItemsOf_ieee stock =
     sort_key singleUnitCost (filter (\<lambda>i. remainingQty i > dbl (1 / 1000)) (map snd stock))"

text \<open>
  \<open>generateBillFromMap\<close> of part_001 (lines 90-260) on doubles: the bill, the stock map after
  the call and the number of \<open>Math.random()\<close> calls made, or the error thrown.
\<close>

definition generateBillFromMap_ieee ::
  "rng \<Rightarrow> stockMap \<Rightarrow> rat \<Rightarrow> rat \<Rightarrow> rat \<Rightarrow> string \<Rightarrow> rat \<Rightarrow> mode \<Rightarrow> nat \<Rightarrow> nat
     \<Rightarrow> error + bill \<times> stockMap \<times> nat" where
  "generateBillFromMap_ieee rnd stock targetMin targetMax dayTotalRemaining d margin md currentFailures k =
     (let availableItems = availableItemsOf_ieee stock;
          itemCount = length availableItems
      in if itemCount = 0 then Inr (failure (Some ''No items''), stock, k)
         else
           (case tierLoop_ieee rnd md margin targetMin targetMax dayTotalRemaining availableItems
                   (expensiveFirstOf availableItems) (effortMultiplier_ieee currentFailures)
                   baseAttempts k of
              (Some (t, st), k') \<Rightarrow>
                (case commitBill_ieee stock (currentBill st) of
                   Inl err \<Rightarrow> Inl err
                 | Inr stock' \<Rightarrow>
                     Inr (formatResult_ieee (currentBill st) (currentTotal st) targetMax d, stock', k'))
            | (None, k') \<Rightarrow> Inr (failure None, stock, k')))"

section \<open>Bill composer (part_002)\<close>

text \<open>
  The loop body of part_002 (lines 163-196). It differs from part_001 in the policy, which
  no longer looks at \<open>roomLeft\<close>, in the added line 170, and in the deterministic passes.
  \<^verbatim>\<open>
  const actualRemaining = getRem(item);
  if (actualRemaining <= 0.001) continue;
  const roomLeft = targetMax - currentTotal;
  if (roomLeft < 1) continue;
  const allowFloat = canSellInFloat(item);
  if (!allowFloat && item.singleUnitCost > roomLeft) continue;
  let maxQtyBudget = roomLeft / item.singleUnitCost;
  let absMax = Math.min(actualRemaining, maxQtyBudget);
  ...
  \<close>
\<close>

definition pickItem_p2 :: "rng \<Rightarrow> rat \<Rightarrow> nat \<Rightarrow> nat \<Rightarrow> item \<Rightarrow> attempt \<Rightarrow> attempt" where
  "pickItem_p2 rnd targetMax minItems attemptNo it st =
     (let actualRemaining = getRem (tempUsed st) it
      in if actualRemaining \<le> 1 / 1000 then st
         else
           (let roomLeft = targetMax - currentTotal st
            in if roomLeft < 1 then st
               else
                 (let allowFloat = canSellInFloat_p2 it
                  in if \<not> allowFloat \<and> singleUnitCost it > roomLeft then st
                     else
                       (let absMax = absMaxOf actualRemaining roomLeft it
                        in case chooseQty rnd minItems (attemptNo = 0 \<or> attemptNo = 2) allowFloat absMax st of
                             (None, st1) \<Rightarrow> st1
                           | (Some q, st1) \<Rightarrow> pushEntry it q st1))))"

fun pickItems_p2 :: "rng \<Rightarrow> rat \<Rightarrow> rat \<Rightarrow> nat \<Rightarrow> nat \<Rightarrow> item list \<Rightarrow> attempt \<Rightarrow> attempt" where
  "pickItems_p2 rnd targetMin targetMax minItems attemptNo [] st = st"
| "pickItems_p2 rnd targetMin targetMax minItems attemptNo (it # selectionPool) st =
     (case doneCondition rnd targetMin minItems (attemptNo = 0 \<or> attemptNo = 2) st of
        (True, st1) \<Rightarrow> st1
      | (False, st1) \<Rightarrow>
          pickItems_p2 rnd targetMin targetMax minItems attemptNo selectionPool
            (pickItem_p2 rnd targetMax minItems attemptNo it st1))"

text \<open>
  The choice of the pool (part_002, lines 129-146).
  \<^verbatim>\<open>
  let useFreshPool = false;
  if (attempt < 2 && freshItems.length >= minItems) useFreshPool = true;
  if (useFreshPool) {
      if (attempt === 0) selectionPool = expensiveFresh;
      else { selectionPool = [...freshItems]; shuffleArray(selectionPool); }
  } else {
      if (attempt === 2) selectionPool = expensiveAll;
      else { selectionPool = [...availableItems]; shuffleArray(selectionPool); }
  }
  \<close>
\<close>

definition selectPool_p2 ::
  "rng \<Rightarrow> item list \<Rightarrow> item list \<Rightarrow> item list \<Rightarrow> item list \<Rightarrow> nat \<Rightarrow> nat \<Rightarrow> nat \<Rightarrow> item list \<times> nat" where
  "selectPool_p2 rnd availableItems freshItems expensiveAll expensiveFresh minItems attemptNo k =
     (let useFreshPool = (attemptNo < 2 \<and> length freshItems \<ge> minItems)
      in if useFreshPool
         then (if attemptNo = 0 then (expensiveFresh, k) else shuffleArray rnd (freshItems, k))
         else (if attemptNo = 2 then (expensiveAll, k) else shuffleArray rnd (availableItems, k)))"

text \<open>The attempt loop of part_002 (lines 126-217). An accepted attempt is returned as it is:
  nothing is written to the stock map.\<close>

function attemptLoop_p2 ::
  "rng \<Rightarrow> mode \<Rightarrow> rat \<Rightarrow> rat \<Rightarrow> rat \<Rightarrow> rat \<Rightarrow> item list \<Rightarrow> item list \<Rightarrow> item list \<Rightarrow> item list
     \<Rightarrow> nat \<Rightarrow> nat \<Rightarrow> nat \<Rightarrow> nat \<Rightarrow> attempt option \<times> nat" where
  "attemptLoop_p2 rnd md margin targetMin targetMax dayTotalRemaining availableItems freshItems
       expensiveAll expensiveFresh minItems maxAttempts attemptNo k =
     (if attemptNo < maxAttempts then
        (let (selectionPool, k1) =
               selectPool_p2 rnd availableItems freshItems expensiveAll expensiveFresh minItems attemptNo k;
             st = pickItems_p2 rnd targetMin targetMax minItems attemptNo selectionPool (newAttempt k1)
         in if isValid md margin targetMin targetMax minItems st \<and> safeLanding dayTotalRemaining margin st
            then (Some st, calls st)
            else attemptLoop_p2 rnd md margin targetMin targetMax dayTotalRemaining availableItems
                   freshItems expensiveAll expensiveFresh minItems maxAttempts (attemptNo + 1) (calls st))
      else (None, k))"
  by pat_completeness auto
termination
  by (relation "measure (\<lambda>(rnd, md, margin, targetMin, targetMax, dayTotalRemaining, availableItems,
                           freshItems, expensiveAll, expensiveFresh, minItems, maxAttempts, attemptNo, k).
                           maxAttempts - attemptNo)")
     auto

declare attemptLoop_p2.simps [simp del]

text \<open>
  \<^verbatim>\<open>
  let effortMultiplier = 1.0;
  if (currentFailures > 50) effortMultiplier = 0.5;
  if (currentFailures > 200) effortMultiplier = 0.1;
  if (currentFailures > 400) effortMultiplier = 0.02;
  \<close>
\<close>

definition effortMultiplier_p2 :: "nat \<Rightarrow> rat" where
  "effortMultiplier_p2 currentFailures =
     (if currentFailures > 400 then 2 / 100
      else if currentFailures > 200 then 1 / 10
      else if currentFailures > 50 then 1 / 2
      else 1)"

fun tierLoop_p2 ::
  "rng \<Rightarrow> mode \<Rightarrow> rat \<Rightarrow> rat \<Rightarrow> rat \<Rightarrow> rat \<Rightarrow> item list \<Rightarrow> item list \<Rightarrow> item list \<Rightarrow> item list
     \<Rightarrow> rat \<Rightarrow> tier list \<Rightarrow> nat \<Rightarrow> (tier \<times> attempt) option \<times> nat" where
  "tierLoop_p2 rnd md margin targetMin targetMax dayTotalRemaining availableItems freshItems
       expensiveAll expensiveFresh effort [] k = (None, k)"
| "tierLoop_p2 rnd md margin targetMin targetMax dayTotalRemaining availableItems freshItems
       expensiveAll expensiveFresh effort (t # tiers) k =
     (let minItems = count t;
          maxAttempts = max 1 (nat \<lfloor>of_nat (attempts t) * effort\<rfloor>)
      in if length availableItems < minItems
         then tierLoop_p2 rnd md margin targetMin targetMax dayTotalRemaining availableItems freshItems
                expensiveAll expensiveFresh effort tiers k
         else
           (case attemptLoop_p2 rnd md margin targetMin targetMax dayTotalRemaining availableItems
                   freshItems expensiveAll expensiveFresh minItems maxAttempts 0 k of
              (Some st, k') \<Rightarrow> (Some (t, st), k')
            | (None, k') \<Rightarrow>
                tierLoop_p2 rnd md margin targetMin targetMax dayTotalRemaining availableItems freshItems
                  expensiveAll expensiveFresh effort tiers k'))"

text \<open>
  The snapshot of part_002 (lines 85-94): \<open>freshItems\<close> are the available items whose name
  is not in \<open>dailyUsedItemIds\<close>.
  \<^verbatim>\<open>
  let availableItems = Array.from(stockMap.values()).filter(item => item.remainingQty > 0.001);
  let freshItems = availableItems.filter(item => !dailyUsedItemIds.has(item["Item Details"]));
  availableItems.sort((a, b) => a.singleUnitCost - b.singleUnitCost);
  freshItems.sort((a, b) => a.singleUnitCost - b.singleUnitCost);
  const expensiveAll = [...availableItems].sort((a, b) => b.singleUnitCost - a.singleUnitCost);
  const expensiveFresh = [...freshItems].sort((a, b) => b.singleUnitCost - a.singleUnitCost);
  \<close>
\<close>

definition freshItemsOf :: "stockMap \<Rightarrow> string set \<Rightarrow> item list" where
  "freshItemsOf stock dailyUsedItemIds =
     sort_key singleUnitCost
       (filter (\<lambda>i. Item_Details i \<notin> dailyUsedItemIds)
          (filter (\<lambda>i. remainingQty i > 1 / 1000) (map snd stock)))"

text \<open>
  \<open>generateBillFromMap\<close> of part_002 (lines 82-220). The result is the bill, the stock map
  after the call, the global \<open>billCounter\<close> and the number of \<open>Math.random()\<close> calls.
  \<^verbatim>\<open>
  billCounter++;
  ...
  if (itemCount === 0) return { items: [], total: 0, success: false, reason: "No items" };
  ...
              if (futureDayRemaining <= margin || futureDayRemaining > 50) {
                  const billData = formatResult(currentBill, currentTotal, targetMax, date);
                  billData.tempUsedMap = tempUsed;
                  return billData;
              }
  ...
  return { items: [], total: 0, success: false };
  \<close>
\<close>

definition generateBillFromMap_p2 ::
  "rng \<Rightarrow> stockMap \<Rightarrow> rat \<Rightarrow> rat \<Rightarrow> rat \<Rightarrow> string \<Rightarrow> rat \<Rightarrow> mode \<Rightarrow> nat \<Rightarrow> string set \<Rightarrow> nat \<Rightarrow> nat
     \<Rightarrow> bill \<times> stockMap \<times> nat \<times> nat" where
  "generateBillFromMap_p2 rnd stock targetMin targetMax dayTotalRemaining d margin md currentFailures
       dailyUsedItemIds billCounter k =
     (let availableItems = availableItemsOf stock;
          freshItems = freshItemsOf stock dailyUsedItemIds;
          itemCount = length availableItems
      in if itemCount = 0 then (failure (Some ''No items''), stock, billCounter + 1, k)
         else
           (case tierLoop_p2 rnd md margin targetMin targetMax dayTotalRemaining availableItems freshItems
                   (expensiveFirstOf availableItems) (expensiveFirstOf freshItems)
                   (effortMultiplier_p2 currentFailures) baseAttempts k of
              (Some (t, st), k') \<Rightarrow>
                ((formatResult (currentBill st) (currentTotal st) targetMax d)
                   \<lparr>tempUsedMap := Some (tempUsed st)\<rparr>,
                 stock, billCounter + 1, k')
            | (None, k') \<Rightarrow> (failure None, stock, billCounter + 1, k')))"

text \<open>
  The commit, done by the callers of part_002 (\<open>tryGenerateCashBills\<close>, lines 623-629;
  \<open>tryGenerateAllBills\<close>, lines 519-525).
  \<^verbatim>\<open>
  if (bill.tempUsedMap) {
      for (let [name, qty] of bill.tempUsedMap.entries()) {
          const item = stockMap.get(name);
          item.remainingQty = parseFloat((item.remainingQty - qty).toFixed(3));
          dailyUsedItemIds.add(name);
      }
  }
  \<close>
\<close>

definition commitTempUsed :: "stockMap \<times> string set \<Rightarrow> bill \<Rightarrow> stockMap \<times> string set" where
  "commitTempUsed su b =
     (case tempUsedMap b of
        None \<Rightarrow> su
      | Some tu \<Rightarrow> foldl (\<lambda>(m, u) (n, q). (commitQty m n q, insert n u)) su tu)"

section \<open>Bill composer (part_000)\<close>

text \<open>
  The RANGE loop of part_000 (lines 124-177) is the item loop of part_001 without a
  deterministic pass: the head asks \<open>Math.random() > 0.5\<close> whenever the minimum is met, and
  a fractional quantity always takes \<open>factor = Math.random() * 0.8 + 0.2\<close>.
\<close>

definition pickItem_p0 :: "rng \<Rightarrow> rat \<Rightarrow> nat \<Rightarrow> item \<Rightarrow> attempt \<Rightarrow> attempt" where
  "pickItem_p0 rnd targetMax minItems it st =
     (let actualRemaining = getRem (tempUsed st) it
      in if actualRemaining \<le> 1 / 1000 then st
         else
           (let roomLeft = targetMax - currentTotal st
            in if roomLeft < 1 then st
               else
                 (let allowFloat = canSellInFloat it roomLeft;
                      absMax = absMaxOf actualRemaining roomLeft it
                  in case chooseQty rnd minItems False allowFloat absMax st of
                       (None, st1) \<Rightarrow> st1
                     | (Some q, st1) \<Rightarrow> pushEntry it q st1)))"

fun pickItems_p0 :: "rng \<Rightarrow> rat \<Rightarrow> rat \<Rightarrow> nat \<Rightarrow> item list \<Rightarrow> attempt \<Rightarrow> attempt" where
  "pickItems_p0 rnd targetMin targetMax minItems [] st = st"
| "pickItems_p0 rnd targetMin targetMax minItems (it # randomItems) st =
     (case doneCondition rnd targetMin minItems False st of
        (True, st1) \<Rightarrow> st1
      | (False, st1) \<Rightarrow>
          pickItems_p0 rnd targetMin targetMax minItems randomItems
            (pickItem_p0 rnd targetMax minItems it st1))"

text \<open>
  The first loop of EXACT mode (part_000, lines 182-213). The second argument counts the
  iterations still to run, \<open>minItems - 1\<close> at the start.
  \<^verbatim>\<open>
  for (let i = 0; i < minItems - 1; i++) {
     const remaining = targetMax - currentTotal;
     if (remaining <= 5) break;
     const r = randomItems[Math.floor(Math.random()*randomItems.length)];
     const actualRemaining = getRem(r);
     if (actualRemaining <= 0.001) continue;
     const safeMax = remaining * 0.8;
     let qty = 0;
     let maxQtyBudget = safeMax / r.singleUnitCost;
     let absMax = Math.min(actualRemaining, maxQtyBudget);
     if (canSellInFloat(r, safeMax)) {
         if (absMax < 0.01) continue;
         qty = parseFloat((Math.random() * absMax).toFixed(2));
     } else {
         let intMax = Math.floor(absMax);
         if (intMax < 1) continue;
         qty = Math.floor(Math.random() * intMax) + 1;
     }
     if (qty > 0) {
         let cost = getItemBillTotal(r, qty);
         currentBill.push({ item: r, qty, cost });
         currentTotal += cost;
         pickedCount++;
         tempUsed.set(r["Item Details"], (tempUsed.get(r["Item Details"])||0)+qty);
     }
  }
  \<close>
  With \<open>Math.random()\<close> in \<open>[0, 1)\<close> the index is below the length of \<open>randomItems\<close>.
\<close>

fun exactFill_p0 :: "rng \<Rightarrow> rat \<Rightarrow> item list \<Rightarrow> nat \<Rightarrow> attempt \<Rightarrow> attempt" where
  "exactFill_p0 rnd targetMax randomItems 0 st = st"
| "exactFill_p0 rnd targetMax randomItems (Suc n) st =
     (let remaining = targetMax - currentTotal st
      in if remaining \<le> 5 then st
         else
           (let r = randomItems ! nat \<lfloor>rnd (calls st) * of_nat (length randomItems)\<rfloor>;
                st1 = st\<lparr>calls := calls st + 1\<rparr>;
                actualRemaining = getRem (tempUsed st1) r
            in if actualRemaining \<le> 1 / 1000 then exactFill_p0 rnd targetMax randomItems n st1
               else
                 (let safeMax = remaining * (8 / 10);
                      absMax = absMaxOf actualRemaining safeMax r
                  in if canSellInFloat r safeMax
                     then (if absMax < 1 / 100 then exactFill_p0 rnd targetMax randomItems n st1
                           else exactFill_p0 rnd targetMax randomItems n
                                  (pushEntry r (toFixed 2 (rnd (calls st1) * absMax))
                                     (st1\<lparr>calls := calls st1 + 1\<rparr>)))
                     else (let intMax = \<lfloor>absMax\<rfloor>
                           in if intMax < 1 then exactFill_p0 rnd targetMax randomItems n st1
                              else exactFill_p0 rnd targetMax randomItems n
                                     (pushEntry r (of_int (\<lfloor>rnd (calls st1) * of_int intMax\<rfloor> + 1))
                                        (st1\<lparr>calls := calls st1 + 1\<rparr>))))))"

text \<open>
  The closing pick of EXACT mode (part_000, lines 216-250). It does not write to \<open>tempUsed\<close>.
  \<^verbatim>\<open>
  if (pickedCount >= minItems - 1) {
      const gap = targetMax - currentTotal;
      if (gap > 0.1) {
          const candidate = availableItems.find(i => {
              const rem = getRem(i);
              const costOfRem = getItemBillTotal(i, rem);
              return rem > 0 && costOfRem >= gap;
          });
          if (candidate) {
              let neededQty = gap / candidate["Price"];
              let exactQty = parseFloat((gap / candidate.singleUnitCost).toFixed(2));
              if (exactQty <= getRem(candidate) && exactQty > 0) {
                  if (canSellInFloat(candidate, gap) || Number.isInteger(exactQty)) {
                      let cost = getItemBillTotal(candidate, exactQty);
                      if (Math.abs(cost - gap) < 5) {
                          currentBill.push({ item: candidate, qty: exactQty, cost });
                          currentTotal += cost;
                          pickedCount++;
                      }
                  }
              }
          }
      }
  }
  \<close>
  \<open>neededQty\<close> is not used. With a unit cost of zero \<open>exactQty\<close> is \<open>Infinity\<close>, which is not at
  most the stock left: nothing is picked.
\<close>

definition sniperFill_p0 :: "rat \<Rightarrow> item list \<Rightarrow> nat \<Rightarrow> attempt \<Rightarrow> attempt" where
  "sniperFill_p0 targetMax availableItems minItems st =
     (if pickedCount st \<ge> minItems - 1 then
        (let gap = targetMax - currentTotal st
         in if gap > 1 / 10 then
              (case find (\<lambda>i. let rem = getRem (tempUsed st) i;
                                 costOfRem = getItemBillTotal i rem
                             in rem > 0 \<and> costOfRem \<ge> gap) availableItems of
                 None \<Rightarrow> st
               | Some candidate \<Rightarrow>
                   if singleUnitCost candidate = 0 then st
                   else
                     (let exactQty = toFixed 2 (gap / singleUnitCost candidate)
                      in if exactQty \<le> getRem (tempUsed st) candidate \<and> exactQty > 0 then
                           (if canSellInFloat candidate gap \<or> rem1 exactQty = 0 then
                              (let c = getItemBillTotal candidate exactQty
                               in if \<bar>c - gap\<bar> < 5
                                  then st\<lparr>currentBill := currentBill st
                                                           @ [\<lparr>item = candidate, qty = exactQty, cost = c\<rparr>],
                                          currentTotal := currentTotal st + c,
                                          pickedCount := pickedCount st + 1\<rparr>
                                  else st)
                            else st)
                         else st))
            else st)
      else st)"

text \<open>
  The attempt loop of part_000 (lines 109-297). \<open>randomItems\<close> is shuffled in place after
  every rejected attempt and is a variable of the loop.
  \<^verbatim>\<open>
  for (let attempt = 0; attempt < maxAttempts; attempt++) {
      ...
      if (mode === 'RANGE') { for (const item of randomItems) { ... } }
      else if (mode === 'EXACT') { ... }
      ...
      if (isValid) {
          const futureDayRemaining = dayTotalRemaining - currentTotal;
          if (futureDayRemaining <= margin || futureDayRemaining > 50) {
              currentBill.forEach(entry => { ... });
              return formatResult(currentBill, currentTotal, targetMax, date);
          }
      }
      shuffleArray(randomItems);
  }
  \<close>
\<close>

function attemptLoop_p0 ::
  "rng \<Rightarrow> mode \<Rightarrow> rat \<Rightarrow> rat \<Rightarrow> rat \<Rightarrow> rat \<Rightarrow> item list \<Rightarrow> nat \<Rightarrow> nat \<Rightarrow> item list \<Rightarrow> nat \<Rightarrow> nat
     \<Rightarrow> attempt option \<times> nat" where
  "attemptLoop_p0 rnd md margin targetMin targetMax dayTotalRemaining availableItems minItems
       maxAttempts randomItems attemptNo k =
     (if attemptNo < maxAttempts then
        (let st = (case md of
                     RANGE \<Rightarrow> pickItems_p0 rnd targetMin targetMax minItems randomItems (newAttempt k)
                   | EXACT \<Rightarrow> sniperFill_p0 targetMax availableItems minItems
                               (exactFill_p0 rnd targetMax randomItems (minItems - 1) (newAttempt k)))
         in if isValid md margin targetMin targetMax minItems st \<and> safeLanding dayTotalRemaining margin st
            then (Some st, calls st)
            else (case shuffleArray rnd (randomItems, calls st) of
                    (randomItems', k1) \<Rightarrow>
                      attemptLoop_p0 rnd md margin targetMin targetMax dayTotalRemaining availableItems
                        minItems maxAttempts randomItems' (attemptNo + 1) k1))
      else (None, k))"
  by pat_completeness auto
termination
  by (relation "measure (\<lambda>(rnd, md, margin, targetMin, targetMax, dayTotalRemaining, availableItems,
                           minItems, maxAttempts, randomItems, attemptNo, k). maxAttempts - attemptNo)")
     auto

declare attemptLoop_p0.simps [simp del]

text \<open>
  \<^verbatim>\<open>
  let effortMultiplier = 1.0;
  if (currentFailures > 50) effortMultiplier = 0.2;
  if (currentFailures > 500) effortMultiplier = 0.05;
  if (currentFailures > 2000) effortMultiplier = 0.01;
  \<close>
\<close>

definition effortMultiplier_p0 :: "nat \<Rightarrow> rat" where
  "effortMultiplier_p0 currentFailures =
     (if currentFailures > 2000 then 1 / 100
      else if currentFailures > 500 then 5 / 100
      else if currentFailures > 50 then 2 / 10
      else 1)"

text \<open>
  The tier loop of part_000 (lines 96-298); every tier starts from a fresh shuffled copy of
  \<open>availableItems\<close>.
  \<^verbatim>\<open>
  if (itemCount < minItems) continue;
  let randomItems = [...availableItems];
  shuffleArray(randomItems);
  \<close>
\<close>

fun tierLoop_p0 ::
  "rng \<Rightarrow> mode \<Rightarrow> rat \<Rightarrow> rat \<Rightarrow> rat \<Rightarrow> rat \<Rightarrow> item list \<Rightarrow> rat \<Rightarrow> tier list \<Rightarrow> nat
     \<Rightarrow> (tier \<times> attempt) option \<times> nat" where
  "tierLoop_p0 rnd md margin targetMin targetMax dayTotalRemaining availableItems effort [] k = (None, k)"
| "tierLoop_p0 rnd md margin targetMin targetMax dayTotalRemaining availableItems effort (t # tiers) k =
     (let minItems = count t;
          maxAttempts = max 1 (nat \<lfloor>of_nat (attempts t) * effort\<rfloor>);
          itemCount = length availableItems
      in if itemCount < minItems
         then tierLoop_p0 rnd md margin targetMin targetMax dayTotalRemaining availableItems effort tiers k
         else
           (case shuffleArray rnd (availableItems, k) of
              (randomItems, k1) \<Rightarrow>
                (case attemptLoop_p0 rnd md margin targetMin targetMax dayTotalRemaining availableItems
                        minItems maxAttempts randomItems 0 k1 of
                   (Some st, k') \<Rightarrow> (Some (t, st), k')
                 | (None, k') \<Rightarrow>
                     tierLoop_p0 rnd md margin targetMin targetMax dayTotalRemaining availableItems
                       effort tiers k')))"

text \<open>
  \<open>generateBillFromMap\<close> of part_000 (lines 70-299): the bill, the stock map after the
  call, the global \<open>billCounter\<close> and the number of \<open>Math.random()\<close> calls.
\<close>

definition generateBillFromMap_p0 ::
  "rng \<Rightarrow> stockMap \<Rightarrow> rat \<Rightarrow> rat \<Rightarrow> rat \<Rightarrow> string \<Rightarrow> rat \<Rightarrow> mode \<Rightarrow> nat \<Rightarrow> nat \<Rightarrow> nat
     \<Rightarrow> bill \<times> stockMap \<times> nat \<times> nat" where
  "generateBillFromMap_p0 rnd stock targetMin targetMax dayTotalRemaining d margin md currentFailures
       billCounter k =
     (let availableItems = availableItemsOf stock;
          itemCount = length availableItems
      in if itemCount = 0 then (failure (Some ''No items available''), stock, billCounter + 1, k)
         else
           (case tierLoop_p0 rnd md margin targetMin targetMax dayTotalRemaining availableItems
                   (effortMultiplier_p0 currentFailures) baseAttempts k of
              (Some (t, st), k') \<Rightarrow>
                (formatResult (currentBill st) (currentTotal st) targetMax d,
                 commitBill stock (currentBill st), billCounter + 1, k')
            | (None, k') \<Rightarrow> (failure None, stock, billCounter + 1, k')))"

section \<open>Legacy composer (index.js)\<close>

text \<open>
  A row of the stock map of index.js, whose \<open>buildStockMap\<close> copies the sheet row and adds
  \<open>remainingQty\<close>. The composer reads \<open>Price\<close>, \<open>GST PERCENT\<close>, \<open>CESS%\<close>, \<open>MRP\<close>, \<open>Amount\<close> and
  \<open>remainingQty\<close>; the fields carry the suffix \<open>_legacy\<close> to keep them apart from those of
  \<open>item\<close>.
\<close>

record legacyItem =
  Price_legacy :: rat
  GST_PERCENT_legacy :: rat
  CESS_legacy :: rat
  MRP_legacy :: rat
  Amount_legacy :: rat
  remainingQty_legacy :: rat

type_synonym legacyStock = "(string \<times> legacyItem) list"

text \<open>
  \<^verbatim>\<open>
  function getMinMaxItemsByTarget(targetAmount) {
      if (targetAmount < 1000) return [2, 3];
      if (targetAmount < 5000) return [3, 5];
      return [5, 7];
  }
  \<close>
\<close>

definition getMinMaxItemsByTarget :: "rat \<Rightarrow> nat \<times> nat" where
  "getMinMaxItemsByTarget billTarget =
     (if billTarget < 1000 then (2, 3) else if billTarget < 5000 then (3, 5) else (5, 7))"

text \<open>
  The keys of \<open>allItems\<close> (index.js, lines 46-48): the rows in stock with a price of at least
  \<open>MIN_UNIT_PRICE = 50\<close>, by falling \<open>Amount\<close> (the sort is stable). The array of the source
  holds the row objects of the map themselves, so a quantity written through one is seen
  through the other; here the array holds the keys and a row is read from the map.
  \<^verbatim>\<open>
  const allItems = Array.from(stockMap.entries())
      .filter(([_, item]) => item.remainingQty > 0 && item["Price"] >= MIN_UNIT_PRICE)
      .sort((a, b) => b[1]["Amount"] - a[1]["Amount"]);
  \<close>
\<close>

definition allItemsOf_legacy :: "legacyStock \<Rightarrow> string list" where
  "allItemsOf_legacy stock =
     map fst (sort_key (\<lambda>e. - Amount_legacy (snd e))
                (filter (\<lambda>e. remainingQty_legacy (snd e) > 0 \<and> Price_legacy (snd e) \<ge> 50) stock))"

text \<open>The line total as the legacy composer calls it, every rate guarded with \<open>|| 0\<close>.\<close>

definition lineTotal_legacy :: "legacyItem \<Rightarrow> rat \<Rightarrow> rat" where
  "lineTotal_legacy it q =
     theNum (calculateItemTotal (Num (Price_legacy it)) (Num q) (js_or0 (Num (GST_PERCENT_legacy it)))
               (js_or0 (Num (CESS_legacy it))) (js_or0 (Num (MRP_legacy it))))"

text \<open>
  The search for the quantity (index.js, lines 114-127); \<open>firstLine\<close> is
  \<open>result.length === 0\<close>, \<open>billTotal\<close> the running \<open>total\<close>, \<open>billTarget\<close> the parameter
  \<open>targetAmount\<close> and \<open>tryQty\<close> the variable \<open>qty\<close>.
  \<^verbatim>\<open>
  while (qty <= maxQty) {
      const itemTotal = calculateItemTotal(unitPrice, qty, gstPercent, cessPercent, mrp);
      if (total + itemTotal > targetAmount + margin) break;
      if (itemTotal <= idealContribution * 1.5 || result.length === 0) {
           selectedQty = qty;
      } else {
           break;
      }
      qty++;
  }
  \<close>
\<close>

function qtyLoop_legacy :: "legacyItem \<Rightarrow> rat \<Rightarrow> rat \<Rightarrow> rat \<Rightarrow> rat \<Rightarrow> bool \<Rightarrow> int \<Rightarrow> int \<Rightarrow> int" where
  "qtyLoop_legacy it billTotal billTarget margin idealContribution firstLine tryQty selectedQty =
     (if of_int tryQty \<le> remainingQty_legacy it then
        (let itemTotal = lineTotal_legacy it (of_int tryQty)
         in if billTotal + itemTotal > billTarget + margin then selectedQty
            else if itemTotal \<le> idealContribution * (3 / 2) \<or> firstLine
            then qtyLoop_legacy it billTotal billTarget margin idealContribution firstLine (tryQty + 1) tryQty
            else selectedQty)
      else selectedQty)"
  by pat_completeness auto
termination
proof (relation "measure (\<lambda>(it, billTotal, billTarget, margin, idealContribution, firstLine, tryQty, selectedQty).
                    nat (\<lfloor>remainingQty_legacy it\<rfloor> + 1 - tryQty))", goal_cases)
  case 1
  show ?case by simp
next
  case (2 it billTotal billTarget margin idealContribution firstLine tryQty selectedQty x)
  then have "tryQty \<le> \<lfloor>remainingQty_legacy it\<rfloor>" by (simp add: le_floor_iff)
  then show ?case by simp
qed

declare qtyLoop_legacy.simps [simp del]

text \<open>The variables of the item loop of the legacy composer, with the stock map it writes.\<close>

record legacyAttempt =
  stock_legacy :: legacyStock
  result_legacy :: "billItem list"
  total_legacy :: rat
  remainingTarget_legacy :: rat
  looped_legacy :: bool
  pickedCount_legacy :: nat
  startIndex_legacy :: nat
  iterationCount_legacy :: nat

text \<open>
  The line is pushed and the row written (index.js, lines 152-170).
  \<^verbatim>\<open>
  const cessTaxAmount = ((mrp || 0) * finalQty * (cessPercent || 0)) / 100;
  result.push({ name: productName, qty: finalQty, unitPrice, gstPercent, cessPercent, mrp,
                cessTaxAmount, itemTotal: finalItemTotal, date });
  total += finalItemTotal;
  remainingTarget -= finalItemTotal;
  item.remainingQty -= finalQty;
  item.Amount = +(item.remainingQty * unitPrice).toFixed(2);
  stockMap.set(productName, item);
  pickedCount++;
  \<close>
\<close>

definition pushLine_legacy :: "string \<Rightarrow> legacyItem \<Rightarrow> string \<Rightarrow> int \<Rightarrow> rat \<Rightarrow> legacyAttempt \<Rightarrow> legacyAttempt" where
  "pushLine_legacy productName it d finalQty finalItemTotal st =
     (let line = \<lparr>name = productName, itemQty = of_int finalQty, unitPrice = Price_legacy it,
                   gstPercent = GST_PERCENT_legacy it, cessPercent = CESS_legacy it,
                   mrp = MRP_legacy it,
                   cessTaxAmount = MRP_legacy it * of_int finalQty * CESS_legacy it / 100,
                   itemTotal = finalItemTotal, date = d\<rparr>;
          left = remainingQty_legacy it - of_int finalQty;
          it' = it\<lparr>remainingQty_legacy := left,
                   Amount_legacy := toFixed 2 (left * Price_legacy it)\<rparr>
      in st\<lparr>stock_legacy := AList.update productName it' (stock_legacy st),
             result_legacy := result_legacy st @ [line],
             total_legacy := total_legacy st + finalItemTotal,
             remainingTarget_legacy := remainingTarget_legacy st - finalItemTotal,
             pickedCount_legacy := pickedCount_legacy st + 1\<rparr>)"

text \<open>
  One row offered to the bill (index.js, lines 93-172), for a row with stock left. The rates
  of the pushed line are the guarded ones (\<open>item["GST PERCENT"] || 0\<close> and so on), which on
  numbers are the rates themselves.
  \<^verbatim>\<open>
  const idealContribution = remainingTarget / (expectedItems - result.length);
  let qty = 1;
  let selectedQty = 0;
  const MIN_ITEM_CONTRIBUTION = 200;
  const minContributionForThisItem = Math.min(MIN_ITEM_CONTRIBUTION, remainingTarget);
  const minQtyToMeetContribution = Math.ceil(minContributionForThisItem / unitPrice);
  qty = Math.max(1, minQtyToMeetContribution);
  while (qty <= maxQty) { ... }
  let finalQty = selectedQty;
  if (finalQty > 0) {
      let finalItemTotal = calculateItemTotal(unitPrice, finalQty, gstPercent, cessPercent, mrp);
      if (finalItemTotal < minContributionForThisItem && result.length < expectedItems - 1) {
          finalQty = 0;
      }
      if (finalQty === 1 && total + finalItemTotal > targetAmount + margin) {
          finalQty = 0;
      } else if (total + finalItemTotal > targetAmount + margin) {
          if (finalQty > 1) {
              finalQty -= 1;
              finalItemTotal = calculateItemTotal(unitPrice, finalQty, gstPercent, cessPercent, mrp);
          } else {
              finalQty = 0;
          }
      }
      if (finalQty > 0) { ... }
  }
  \<close>
\<close>

definition offerItem_legacy :: "string \<Rightarrow> legacyItem \<Rightarrow> nat \<Rightarrow> rat \<Rightarrow> string \<Rightarrow> rat \<Rightarrow> legacyAttempt \<Rightarrow> legacyAttempt" where
  "offerItem_legacy productName it expectedItems billTarget d margin st =
     (let idealContribution =
            remainingTarget_legacy st / (of_nat expectedItems - of_nat (length (result_legacy st)));
          minContributionForThisItem = min 200 (remainingTarget_legacy st);
          minQtyToMeetContribution = \<lceil>minContributionForThisItem / Price_legacy it\<rceil>;
          tryQty = max 1 minQtyToMeetContribution;
          selectedQty = qtyLoop_legacy it (total_legacy st) billTarget margin idealContribution
                          (result_legacy st = []) tryQty 0
      in if selectedQty > 0 then
           (let finalItemTotal = lineTotal_legacy it (of_int selectedQty);
                finalQty1 = (if finalItemTotal < minContributionForThisItem
                                \<and> int (length (result_legacy st)) < int expectedItems - 1
                             then 0 else selectedQty);
                over = (total_legacy st + finalItemTotal > billTarget + margin);
                finalQty = (if finalQty1 = 1 \<and> over then 0
                            else if over then (if finalQty1 > 1 then finalQty1 - 1 else 0)
                            else finalQty1);
                finalItemTotal' = (if \<not> (finalQty1 = 1 \<and> over) \<and> over \<and> finalQty1 > 1
                                   then lineTotal_legacy it (of_int (finalQty1 - 1))
                                   else finalItemTotal)
            in if finalQty > 0 then pushLine_legacy productName it d finalQty finalItemTotal' st
               else st)
         else st)"

text \<open>
  One turn of the item loop, apart from \<open>iterationCount++\<close> (index.js, lines 84-91 and
  175-182). \<open>startIndex\<close> stays below \<open>itemCount\<close>, and the key read from \<open>allItems\<close> is a key
  of the map.
  \<^verbatim>\<open>
  const [productName, item] = allItems[startIndex];
  iterationCount++;
  if (item.remainingQty <= 0) {
      startIndex = (startIndex + 1) % itemCount;
      looped = (startIndex === 0);
      continue;
  }
  ...
  startIndex = (startIndex + 1) % itemCount;
  if (startIndex === 0) {
      looped = true;
      if (result.length < minItems && Math.abs(total - targetAmount) > targetAmount * 0.1) {
          looped = false;
      }
  }
  \<close>
\<close>

definition pickStep_legacy :: "string list \<Rightarrow> nat \<Rightarrow> nat \<Rightarrow> rat \<Rightarrow> string \<Rightarrow> rat \<Rightarrow> legacyAttempt \<Rightarrow> legacyAttempt" where
  "pickStep_legacy allItems expectedItems minItems billTarget d margin st =
     (let itemCount = length allItems;
          productName = allItems ! startIndex_legacy st;
          it = the (map_of (stock_legacy st) productName);
          startIndex' = (startIndex_legacy st + 1) mod itemCount
      in if remainingQty_legacy it \<le> 0
         then st\<lparr>startIndex_legacy := startIndex', looped_legacy := (startIndex' = 0)\<rparr>
         else
           (let st1 = offerItem_legacy productName it expectedItems billTarget d margin st
            in st1\<lparr>startIndex_legacy := startIndex',
                   looped_legacy :=
                     (if startIndex' = 0
                      then \<not> (length (result_legacy st1) < minItems
                              \<and> \<bar>total_legacy st1 - billTarget\<bar> > billTarget * (1 / 10))
                      else looped_legacy st1)\<rparr>))"

text \<open>
  The item loop (index.js, line 83), with \<open>maxLoopIterations = itemCount * 2\<close>. The turn
  does not read \<open>iterationCount\<close>, whose increment is written after it here.
  \<^verbatim>\<open>
  while (pickedCount < expectedItems && !looped && iterationCount < maxLoopIterations) { ... }
  \<close>
\<close>

function pickLoop_legacy :: "string list \<Rightarrow> nat \<Rightarrow> nat \<Rightarrow> rat \<Rightarrow> string \<Rightarrow> rat \<Rightarrow> legacyAttempt \<Rightarrow> legacyAttempt" where
  "pickLoop_legacy allItems expectedItems minItems billTarget d margin st =
     (if pickedCount_legacy st < expectedItems \<and> \<not> looped_legacy st
         \<and> iterationCount_legacy st < length allItems * 2
      then pickLoop_legacy allItems expectedItems minItems billTarget d margin
             ((pickStep_legacy allItems expectedItems minItems billTarget d margin st)
                \<lparr>iterationCount_legacy := iterationCount_legacy st + 1\<rparr>)
      else st)"
  by pat_completeness auto
termination
  by (relation "measure (\<lambda>(allItems, expectedItems, minItems, billTarget, d, margin, st).
                   length allItems * 2 - iterationCount_legacy st)") auto

declare pickLoop_legacy.simps [simp del]

text \<open>
  What the legacy composer returns: \<open>success\<close> is set (to \<open>false\<close>) only by the return for an
  empty \<open>allItems\<close>, which has no \<open>targetAmount\<close>. The callers of index.js take a result as a
  bill when it has a line (\<open>bill?.items?.length > 0\<close>) and as a failure otherwise.
\<close>

record legacyBill =
  items_legacy :: "billItem list"
  billTotal_legacy :: rat
  targetAmount_legacy :: "rat option"
  success_legacy :: "bool option"

text \<open>
  \<open>generateBillFromMap(stockMap, targetAmount, date, margin)\<close> of index.js (lines 38-190),
  with the globals \<open>billCounter\<close> and \<open>lastStartIndex\<close> and the count of random calls;
  \<open>billTarget\<close> is its parameter \<open>targetAmount\<close>.
  \<^verbatim>\<open>
  billCounter++;
  ...
  const itemCount = allItems.length;
  if (billCounter % RESET_INTERVAL === 0 && lastStartIndex > 0) {
      lastStartIndex = Math.floor(Math.random() * lastStartIndex);
  }
  let startIndex = lastStartIndex % itemCount;
  if (itemCount === 0) return { items: [], total: 0, success: false };
  const [minItemsOriginal, maxItems] = getMinMaxItemsByTarget(targetAmount);
  const minItems = Math.max(3, minItemsOriginal);
  const finalMaxItems = Math.max(minItems, maxItems);
  const expectedItems = Math.floor(Math.random() * (finalMaxItems - minItems + 1)) + minItems;
  lastStartIndex += expectedItems;
  ...
  return { items: result, total: +total.toFixed(2), targetAmount };
  \<close>
\<close>

definition generateBillFromMap_legacy ::
  "rng \<Rightarrow> legacyStock \<Rightarrow> rat \<Rightarrow> string \<Rightarrow> rat \<Rightarrow> nat \<Rightarrow> nat \<Rightarrow> nat
     \<Rightarrow> legacyBill \<times> legacyStock \<times> nat \<times> nat \<times> nat" where
  "generateBillFromMap_legacy rnd stock billTarget d margin billCounter lastStartIndex k =
     (let billCounter' = billCounter + 1;
          allItems = allItemsOf_legacy stock;
          itemCount = length allItems;
          reset = (billCounter' mod 5 = 0 \<and> lastStartIndex > 0);
          lastStartIndex1 = (if reset then nat \<lfloor>rnd k * of_nat lastStartIndex\<rfloor> else lastStartIndex);
          k1 = (if reset then k + 1 else k)
      in if itemCount = 0
         then (\<lparr>items_legacy = [], billTotal_legacy = 0, targetAmount_legacy = None,
                 success_legacy = Some False\<rparr>, stock, billCounter', lastStartIndex1, k1)
         else
           (let startIndex = lastStartIndex1 mod itemCount;
                minItems = max 3 (fst (getMinMaxItemsByTarget billTarget));
                finalMaxItems = max minItems (snd (getMinMaxItemsByTarget billTarget));
                expectedItems = nat \<lfloor>rnd k1 * of_nat (finalMaxItems - minItems + 1)\<rfloor> + minItems;
                st = pickLoop_legacy allItems expectedItems minItems billTarget d margin
                       \<lparr>stock_legacy = stock, result_legacy = [], total_legacy = 0,
                        remainingTarget_legacy = billTarget, looped_legacy = False,
                        pickedCount_legacy = 0, startIndex_legacy = startIndex,
                        iterationCount_legacy = 0\<rparr>
            in (\<lparr>items_legacy = result_legacy st, billTotal_legacy = toFixed 2 (total_legacy st),
                  targetAmount_legacy = Some billTarget, success_legacy = None\<rparr>,
                stock_legacy st, billCounter', lastStartIndex1 + expectedItems, k1 + 1)))"

section \<open>Scheduler (part_001)\<close>

text \<open>
  The messages of the skip logic: \<open>CRITICAL ERROR: <date> Skipped 100%. Stopping all
  future days.\<close> and \<open>Date: <date> - Skipped <percent>% (<remaining> remaining)\<close>, with the
  date, the percentage (\<open>toFixed(1)\<close>) and the remainder (\<open>toFixed(2)\<close>) they are built from;
  and the message of part_002 for a day without a bill, \<open>FAILURE: <date> Skipped 100% (No valid
  bills generated). Moving to next day.\<close>
\<close>

datatype logMsg = CriticalError string | PartialSkip string rat rat | FailureNoBills string

text \<open>
  The state of \<open>tryGenerateCashBills\<close>: the locals \<open>stockMap\<close>, \<open>allGeneratedBills\<close>,
  \<open>hasSkipped\<close>, \<open>abortAll\<close>; the messages written with \<open>console.error\<close> and
  \<open>console.warn\<close>; the items appended to the page element \<open>skippedDaysLog\<close> (\<open>None\<close> when the
  page has no such element); the number of \<open>Math.random()\<close> calls.
\<close>

record run =
  stockMap :: stockMap
  allGeneratedBills :: "bill list"
  hasSkipped :: bool
  abortAll :: bool
  console :: "logMsg list"
  logList :: "logMsg list option"
  randomCalls :: nat

text \<open>
  The request for the next bill (part_001, lines 564-579).
  \<^verbatim>\<open>
  const remaining = targetAmount - dateAccumulated;
  let currentMargin = 5;
  let mode = 'RANGE';
  let targetMin = minBill;
  let targetMax = maxBill;
  if (consecutiveFailures > 20) targetMin = 10;
  if (remaining <= maxBill) {
      mode = 'EXACT'; targetMin = remaining; targetMax = remaining; currentMargin = 50;
  } else {
      if (targetMax > remaining) targetMax = remaining;
  }
  \<close>
  The result is \<open>(mode, targetMin, targetMax, currentMargin)\<close>.
\<close>

definition nextRequest :: "rat \<Rightarrow> rat \<Rightarrow> rat \<Rightarrow> nat \<Rightarrow> mode \<times> rat \<times> rat \<times> rat" where
  "nextRequest minBill maxBill remaining consecutiveFailures =
     (let targetMin = (if consecutiveFailures > 20 then 10 else minBill);
          targetMax = maxBill
      in if remaining \<le> maxBill then (EXACT, remaining, remaining, 50)
         else (RANGE, targetMin, (if targetMax > remaining then remaining else targetMax), 5))"

text \<open>\<open>logList.appendChild(li)\<close>, guarded by \<open>if(logList)\<close>.\<close>

definition logBoth :: "logMsg \<Rightarrow> run \<Rightarrow> run" where
  "logBoth m r = r\<lparr>console := console r @ [m],
                   logList := (case logList r of None \<Rightarrow> None | Some l \<Rightarrow> Some (l @ [m]))\<rparr>"

text \<open>
  The skip logic (part_001, lines 591-618), entered with \<open>consecutiveFailures > 5000\<close>.
  \<^verbatim>\<open>
  hasSkipped = true;
  const percentSkipped = ((remaining / targetAmount) * 100).toFixed(1);
  if (dateAccumulated === 0) {
      const logMsg = `CRITICAL ERROR: ${formatDisplayDate(date)} Skipped 100%. Stopping all future days.`;
      console.error(logMsg);
      if(logList) { ... logList.appendChild(li); }
      abortAll = true;
  } else {
      const logMsg = `Date: ${formatDisplayDate(date)} - Skipped ${percentSkipped}% (...)`;
      console.warn(logMsg);
      if(logList) { ... logList.appendChild(li); }
  }
  break;
  \<close>
\<close>

definition skipDay :: "string \<Rightarrow> rat \<Rightarrow> rat \<Rightarrow> run \<Rightarrow> run" where
  "skipDay d dayTarget dateAccumulated r =
     (let remaining = dayTarget - dateAccumulated;
          r1 = r\<lparr>hasSkipped := True\<rparr>;
          percentSkipped = toFixed 1 (remaining / dayTarget * 100)
      in if dateAccumulated = 0
         then (logBoth (CriticalError d) r1)\<lparr>abortAll := True\<rparr>
         else logBoth (PartialSkip d percentSkipped (toFixed 2 remaining)) r1)"

text \<open>
  The loop of one day (part_001, lines 555-620) on the loop variables \<open>dateAccumulated\<close> and
  \<open>consecutiveFailures\<close> and the run; \<open>dayTarget\<close> is the day's \<open>targetAmount\<close>.
  Nothing bounds the number of bills of a day, so the loop is a partial function: \<open>None\<close>
  is a loop that does not end.
  \<^verbatim>\<open>
  while (dateAccumulated < targetAmount) {
      ...
      let bill = await generateBillFromMap(stockMap, targetMin, targetMax, remaining, date,
                                           currentMargin, mode, consecutiveFailures);
      if (bill.success) {
          allGeneratedBills.push(bill);
          dateAccumulated += bill.total;
          consecutiveFailures = 0;
      } else {
          consecutiveFailures++;
          if (consecutiveFailures > 5000) { ... break; }
      }
  }
  \<close>
  The progress text of the button (lines 558-562) is left out.
\<close>

partial_function (option) dayLoop ::
  "rng \<Rightarrow> rat \<Rightarrow> rat \<Rightarrow> string \<Rightarrow> rat \<Rightarrow> rat \<times> nat \<times> run \<Rightarrow> (rat \<times> nat \<times> run) option" where
  "dayLoop rnd minBill maxBill d dayTarget s =
     (case s of (dateAccumulated, consecutiveFailures, r) \<Rightarrow>
        if dateAccumulated < dayTarget then
          (let remaining = dayTarget - dateAccumulated
           in case nextRequest minBill maxBill remaining consecutiveFailures of
                (md, targetMin, targetMax, currentMargin) \<Rightarrow>
                  (case generateBillFromMap rnd (stockMap r) targetMin targetMax remaining d
                          currentMargin md consecutiveFailures (randomCalls r) of
                     (b, stock', k') \<Rightarrow>
                       if success b
                       then dayLoop rnd minBill maxBill d dayTarget
                              (dateAccumulated + total b, 0,
                               r\<lparr>stockMap := stock', allGeneratedBills := allGeneratedBills r @ [b],
                                 randomCalls := k'\<rparr>)
                       else if consecutiveFailures + 1 > 5000
                       then Some (dateAccumulated, consecutiveFailures + 1,
                                  skipDay d dayTarget dateAccumulated
                                    (r\<lparr>stockMap := stock', randomCalls := k'\<rparr>))
                       else dayLoop rnd minBill maxBill d dayTarget
                              (dateAccumulated, consecutiveFailures + 1,
                               r\<lparr>stockMap := stock', randomCalls := k'\<rparr>)))
        else Some s)"

declare dayLoop.simps [code]

text \<open>
  The loop over the schedule (part_001, lines 545-621).
  \<^verbatim>\<open>
  for (const { date, targetAmount } of dateAmountTargets) {
      if (abortAll) break;
      if (targetAmount <= 0) continue;
      let dateAccumulated = 0;
      let consecutiveFailures = 0;
      while (dateAccumulated < targetAmount) { ... }
  }
  \<close>
\<close>

fun processDays :: "rng \<Rightarrow> rat \<Rightarrow> rat \<Rightarrow> (string \<times> rat) list \<Rightarrow> run \<Rightarrow> run option" where
  "processDays rnd minBill maxBill [] r = Some r"
| "processDays rnd minBill maxBill ((d, dayTarget) # dateAmountTargets) r =
     (if abortAll r then Some r
      else if dayTarget \<le> 0 then processDays rnd minBill maxBill dateAmountTargets r
      else (case dayLoop rnd minBill maxBill d dayTarget (0, 0, r) of
              None \<Rightarrow> None
            | Some (dateAccumulated, consecutiveFailures, r') \<Rightarrow>
                processDays rnd minBill maxBill dateAmountTargets r'))"

text \<open>
  \<open>tryGenerateCashBills\<close> of part_001 (lines 521-637) from the stock map that
  \<open>buildStockMap(cashStockData)\<close> returned, the two numbers read from the page and the
  schedule \<open>dateAmountTargets\<close>. The export of the two workbooks and the final \<open>alert\<close> read
  the resulting run and are left out.
  \<^verbatim>\<open>
  minBill = Math.max(minBill, 10);
  if (maxBill > 10000) maxBill = 10000;
  const stockMap = buildStockMap(cashStockData);
  const allGeneratedBills = [];
  let hasSkipped = false;
  let abortAll = false;
  \<close>
\<close>

definition tryGenerateCashBills ::
  "rng \<Rightarrow> stockMap \<Rightarrow> bool \<Rightarrow> rat \<Rightarrow> rat \<Rightarrow> (string \<times> rat) list \<Rightarrow> nat \<Rightarrow> run option" where
  "tryGenerateCashBills rnd stock hasLogList minBill maxBill dateAmountTargets k =
     processDays rnd (max minBill 10) (if maxBill > 10000 then 10000 else maxBill) dateAmountTargets
       \<lparr>stockMap = stock, allGeneratedBills = [], hasSkipped = False, abortAll = False,
        console = [], logList = (if hasLogList then Some [] else None), randomCalls = k\<rparr>"

section \<open>Scheduler (part_002)\<close>

text \<open>
  The request for the next bill in part_002 (lines 591-610); \<open>u\<close> is the value of the one
  \<open>Math.random()\<close> call.
  \<^verbatim>\<open>
  let currentMargin = 5;
  let mode = 'RANGE';
  let randomTarget = minBill + Math.random() * (maxBill - minBill);
  let randomMin = Math.max(minBill, randomTarget * 0.95);
  let randomMax = Math.min(maxBill, randomTarget * 1.05);
  let targetMin = randomMin;
  let targetMax = randomMax;
  if (consecutiveFailures > 20) targetMin = 10;
  if (remaining <= maxBill) {
      mode = 'EXACT'; targetMin = remaining; targetMax = remaining; currentMargin = 50;
  } else {
      if (targetMax > remaining) targetMax = remaining;
  }
  \<close>
\<close>

definition nextRequest_p2 :: "rat \<Rightarrow> rat \<Rightarrow> rat \<Rightarrow> nat \<Rightarrow> rat \<Rightarrow> mode \<times> rat \<times> rat \<times> rat" where
  "nextRequest_p2 minBill maxBill remaining consecutiveFailures u =
     (let randomTarget = minBill + u * (maxBill - minBill);
          randomMin = max minBill (randomTarget * (95 / 100));
          randomMax = min maxBill (randomTarget * (105 / 100));
          targetMin = (if consecutiveFailures > 20 then 10 else randomMin);
          targetMax = randomMax
      in if remaining \<le> maxBill then (EXACT, remaining, remaining, 50)
         else (RANGE, targetMin, (if targetMax > remaining then remaining else targetMax), 5))"

text \<open>\<open>xs.slice(-3)\<close>: the last three elements, or all of a shorter array.\<close>

definition slice_last3 :: "'a list \<Rightarrow> 'a list" where
  "slice_last3 xs = drop (length xs - 3) xs"

text \<open>
  The skip logic of part_002 (lines 637-658), entered with \<open>consecutiveFailures > 500\<close>. It
  sets no flag that stops the later days.
  \<^verbatim>\<open>
  hasSkipped = true;
  const percentSkipped = ((remaining / targetAmount) * 100).toFixed(1);
  let logMsg = `Date: ${formatDisplayDate(date)} - Skipped ${percentSkipped}% (...)`;
  if (dateAccumulated === 0) {
      logMsg = `FAILURE: ${formatDisplayDate(date)} Skipped 100% (No valid bills generated). Moving to next day.`;
  }
  console.warn(logMsg);
  if(logList) { ... logList.appendChild(li); }
  break;
  \<close>
\<close>

definition skipDay_p2 :: "string \<Rightarrow> rat \<Rightarrow> rat \<Rightarrow> run \<Rightarrow> run" where
  "skipDay_p2 d dayTarget dateAccumulated r =
     (let remaining = dayTarget - dateAccumulated;
          r1 = r\<lparr>hasSkipped := True\<rparr>;
          percentSkipped = toFixed 1 (remaining / dayTarget * 100);
          logMsg = (if dateAccumulated = 0 then FailureNoBills d
                    else PartialSkip d percentSkipped (toFixed 2 remaining))
      in logBoth logMsg r1)"

text \<open>
  The loop of one day in part_002 (lines 577-660) on the loop variables \<open>dateAccumulated\<close>,
  \<open>consecutiveFailures\<close>, \<open>todaysBills\<close> and \<open>dailyUsedItemIds\<close>, the global \<open>billCounter\<close> and
  the run. Of the run it uses \<open>stockMap\<close>, \<open>allGeneratedBills\<close> (read only: the day's bills
  are appended after the loop, when they get their purchaser names), \<open>hasSkipped\<close>, the two
  logs and the count of random calls; part_002 has no \<open>abortAll\<close>.
  \<^verbatim>\<open>
  while (dateAccumulated < targetAmount) {
      const remaining = targetAmount - dateAccumulated;
      if (remaining <= 5) break;
      ...
      let bill = await generateBillFromMap(stockMap, targetMin, targetMax, remaining, date,
                         currentMargin, mode, consecutiveFailures, dailyUsedItemIds);
      if (bill.success) {
          const recentBills = allGeneratedBills.slice(-3).concat(todaysBills.slice(-3));
          const last3Totals = recentBills.slice(-3).map(b => b.total);
          if (last3Totals.includes(bill.total) && consecutiveFailures < 50 && mode !== 'EXACT') {
              consecutiveFailures++;
              continue;
          }
          if (bill.tempUsedMap) { ... }
          todaysBills.push(bill);
          dateAccumulated += bill.total;
          consecutiveFailures = 0;
      } else {
          consecutiveFailures++;
          if (consecutiveFailures > 500) { ... break; }
      }
  }
  \<close>
\<close>

partial_function (option) dayLoop_p2 ::
  "rng \<Rightarrow> rat \<Rightarrow> rat \<Rightarrow> string \<Rightarrow> rat \<Rightarrow> rat \<times> nat \<times> bill list \<times> string set \<times> nat \<times> run
     \<Rightarrow> (rat \<times> nat \<times> bill list \<times> string set \<times> nat \<times> run) option" where
  "dayLoop_p2 rnd minBill maxBill d dayTarget s =
     (case s of (dateAccumulated, consecutiveFailures, todaysBills, dailyUsedItemIds, billCounter, r) \<Rightarrow>
        if dateAccumulated < dayTarget then
          (let remaining = dayTarget - dateAccumulated
           in if remaining \<le> 5 then Some s
              else
                (case nextRequest_p2 minBill maxBill remaining consecutiveFailures
                        (rnd (randomCalls r)) of
                   (md, targetMin, targetMax, currentMargin) \<Rightarrow>
                     (case generateBillFromMap_p2 rnd (stockMap r) targetMin targetMax remaining d
                             currentMargin md consecutiveFailures dailyUsedItemIds billCounter
                             (randomCalls r + 1) of
                        (b, stock', billCounter', k') \<Rightarrow>
                          if success b then
                            (let recentBills = slice_last3 (allGeneratedBills r) @ slice_last3 todaysBills;
                                 last3Totals = map total (slice_last3 recentBills)
                             in if total b \<in> set last3Totals \<and> consecutiveFailures < 50 \<and> md \<noteq> EXACT
                                then dayLoop_p2 rnd minBill maxBill d dayTarget
                                       (dateAccumulated, consecutiveFailures + 1, todaysBills,
                                        dailyUsedItemIds, billCounter',
                                        r\<lparr>stockMap := stock', randomCalls := k'\<rparr>)
                                else
                                  (case commitTempUsed (stock', dailyUsedItemIds) b of
                                     (stock'', dailyUsedItemIds') \<Rightarrow>
                                       dayLoop_p2 rnd minBill maxBill d dayTarget
                                         (dateAccumulated + total b, 0, todaysBills @ [b],
                                          dailyUsedItemIds', billCounter',
                                          r\<lparr>stockMap := stock'', randomCalls := k'\<rparr>)))
                          else if consecutiveFailures + 1 > 500
                          then Some (dateAccumulated, consecutiveFailures + 1, todaysBills,
                                     dailyUsedItemIds, billCounter',
                                     skipDay_p2 d dayTarget dateAccumulated
                                       (r\<lparr>stockMap := stock', randomCalls := k'\<rparr>))
                          else dayLoop_p2 rnd minBill maxBill d dayTarget
                                 (dateAccumulated, consecutiveFailures + 1, todaysBills,
                                  dailyUsedItemIds, billCounter',
                                  r\<lparr>stockMap := stock', randomCalls := k'\<rparr>))))
        else Some s)"

declare dayLoop_p2.simps [code]

section \<open>Notions used in the proofs\<close>

text \<open>A whole number of hundredths.\<close>

definition cents :: "rat \<Rightarrow> bool" where
  "cents x = (\<exists>k::int. x = of_int k / 100)"

text \<open>Two attempt states that hold the same bill, total, count and scratch map.\<close>

definition sameGathered :: "attempt \<Rightarrow> attempt \<Rightarrow> bool" where
  "sameGathered st st' =
     (currentBill st' = currentBill st \<and> currentTotal st' = currentTotal st
      \<and> pickedCount st' = pickedCount st \<and> tempUsed st' = tempUsed st)"

text \<open>The second state is the first with one more entry, \<open>q\<close> units of \<open>it\<close>.\<close>

definition addedEntry :: "item \<Rightarrow> rat \<Rightarrow> attempt \<Rightarrow> attempt \<Rightarrow> bool" where
  "addedEntry it q st st' =
     (currentBill st' = currentBill st @ [\<lparr>item = it, qty = q, cost = getItemBillTotal it q\<rparr>]
      \<and> currentTotal st' = currentTotal st + getItemBillTotal it q
      \<and> pickedCount st' = pickedCount st + 1
      \<and> tempUsed st' = AList.update (Item_Details it) (usedOf (tempUsed st) (Item_Details it) + q)
                          (tempUsed st))"

text \<open>The running total is the sum of the entries' costs, the count is their number, and
  every cost is the line total of its entry.\<close>

definition attemptInv :: "attempt \<Rightarrow> bool" where
  "attemptInv st =
     (currentTotal st = sum_list (map cost (currentBill st))
      \<and> pickedCount st = length (currentBill st)
      \<and> list_all (\<lambda>e. cost e = getItemBillTotal (item e) (qty e)) (currentBill st))"

text \<open>
  The record of an attempt: the items taken, in order, each with its quantity. \<open>tracks\<close> says
  that the second state is the first after these takings.
\<close>

definition mkEntry :: "item \<times> rat \<Rightarrow> entry" where
  "mkEntry p = \<lparr>item = fst p, qty = snd p, cost = getItemBillTotal (fst p) (snd p)\<rparr>"

definition noteUsed :: "(string \<times> rat) list \<Rightarrow> item \<times> rat \<Rightarrow> (string \<times> rat) list" where
  "noteUsed tu p = AList.update (Item_Details (fst p)) (usedOf tu (Item_Details (fst p)) + snd p) tu"

definition tracks :: "(item \<times> rat) list \<Rightarrow> attempt \<Rightarrow> attempt \<Rightarrow> bool" where
  "tracks picks st st' =
     (currentBill st' = currentBill st @ map mkEntry picks
      \<and> currentTotal st' = currentTotal st + sum_list (map (\<lambda>p. getItemBillTotal (fst p) (snd p)) picks)
      \<and> pickedCount st' = pickedCount st + length picks
      \<and> tempUsed st' = foldl noteUsed (tempUsed st) picks)"

text \<open>
  An attempt over a pool: takings of positive quantities from items of the pool, each item
  at most once if the names in the pool are distinct.
\<close>

definition takenFrom :: "item list \<Rightarrow> (item \<times> rat) list \<Rightarrow> bool" where
  "takenFrom pool picks =
     (fst ` set picks \<subseteq> set pool
      \<and> (\<forall>p \<in> set picks. 0 < snd p)
      \<and> (distinct (map Item_Details pool) \<longrightarrow> distinct (map (\<lambda>p. Item_Details (fst p)) picks)))"

text \<open>What the skip logic leaves behind when it declares a day a critical failure.\<close>

definition criticalLogged :: "string \<Rightarrow> run \<Rightarrow> run \<Rightarrow> bool" where
  "criticalLogged d r r' =
     (abortAll r' \<and> hasSkipped r'
      \<and> console r' = console r @ [CriticalError d]
      \<and> logList r' = (case logList r of None \<Rightarrow> None | Some l \<Rightarrow> Some (l @ [CriticalError d])))"

text \<open>
  What the skip logic of part_002 leaves behind for a day without a bill, and the run inside
  the state of its day loop.
\<close>

definition noBillsLogged :: "string \<Rightarrow> run \<Rightarrow> run \<Rightarrow> bool" where
  "noBillsLogged d r r' =
     (hasSkipped r'
      \<and> console r' = console r @ [FailureNoBills d]
      \<and> logList r' = (case logList r of None \<Rightarrow> None | Some l \<Rightarrow> Some (l @ [FailureNoBills d])))"

definition runOf :: "rat \<times> nat \<times> bill list \<times> string set \<times> nat \<times> run \<Rightarrow> run" where
  "runOf s = snd (snd (snd (snd (snd s))))"

text \<open>The legacy composer has written no row as long as it has pushed no line.\<close>

definition untouched_legacy :: "legacyStock \<Rightarrow> legacyAttempt \<Rightarrow> bool" where
  "untouched_legacy stock st = (result_legacy st \<noteq> [] \<or> stock_legacy st = stock)"

text \<open>
  The call of the composer that the day loop of part_001 makes when nothing has accumulated
  yet: the request is computed from the whole \<open>dayTarget\<close>, and the composer works on the
  stock map and the random numbers of the run.
\<close>

definition dayCall :: "rng \<Rightarrow> rat \<Rightarrow> rat \<Rightarrow> string \<Rightarrow> rat \<Rightarrow> nat \<Rightarrow> run \<Rightarrow> bill \<times> stockMap \<times> nat" where
  "dayCall rnd minBill maxBill d dayTarget consecutiveFailures r =
     (case nextRequest minBill maxBill dayTarget consecutiveFailures of
        (md, targetMin, targetMax, currentMargin) \<Rightarrow>
          generateBillFromMap rnd (stockMap r) targetMin targetMax dayTarget d currentMargin md
            consecutiveFailures (randomCalls r))"

text \<open>
  The run after \<open>n\<close> such calls in a row whose bills the loop did not take: each call hands
  its stock map and its count of random numbers to the next, and the failure counter goes up
  by one, as in the \<open>else\<close> branch of the loop.
\<close>

fun afterFailures :: "rng \<Rightarrow> rat \<Rightarrow> rat \<Rightarrow> string \<Rightarrow> rat \<Rightarrow> nat \<Rightarrow> run \<Rightarrow> nat \<Rightarrow> run" where
  "afterFailures rnd minBill maxBill d dayTarget consecutiveFailures r 0 = r"
| "afterFailures rnd minBill maxBill d dayTarget consecutiveFailures r (Suc n) =
     (case dayCall rnd minBill maxBill d dayTarget consecutiveFailures r of
        (b, stock', k') \<Rightarrow>
          afterFailures rnd minBill maxBill d dayTarget (consecutiveFailures + 1)
            (r\<lparr>stockMap := stock', randomCalls := k'\<rparr>) n)"

text \<open>
  The same for part_002, whose loop draws a random number for the request before it calls the
  composer and threads \<open>billCounter\<close> through the calls.
\<close>

definition dayCall_p2 ::
  "rng \<Rightarrow> rat \<Rightarrow> rat \<Rightarrow> string \<Rightarrow> rat \<Rightarrow> nat \<Rightarrow> string set \<Rightarrow> nat \<Rightarrow> run \<Rightarrow> bill \<times> stockMap \<times> nat \<times> nat" where
  "dayCall_p2 rnd minBill maxBill d dayTarget consecutiveFailures dailyUsedItemIds billCounter r =
     (case nextRequest_p2 minBill maxBill dayTarget consecutiveFailures (rnd (randomCalls r)) of
        (md, targetMin, targetMax, currentMargin) \<Rightarrow>
          generateBillFromMap_p2 rnd (stockMap r) targetMin targetMax dayTarget d currentMargin md
            consecutiveFailures dailyUsedItemIds billCounter (randomCalls r + 1))"

fun afterFailures_p2 ::
  "rng \<Rightarrow> rat \<Rightarrow> rat \<Rightarrow> string \<Rightarrow> rat \<Rightarrow> nat \<Rightarrow> string set \<Rightarrow> nat \<times> run \<Rightarrow> nat \<Rightarrow> nat \<times> run" where
  "afterFailures_p2 rnd minBill maxBill d dayTarget consecutiveFailures dailyUsedItemIds br 0 = br"
| "afterFailures_p2 rnd minBill maxBill d dayTarget consecutiveFailures dailyUsedItemIds br (Suc n) =
     (case dayCall_p2 rnd minBill maxBill d dayTarget consecutiveFailures dailyUsedItemIds (fst br) (snd br) of
        (b, stock', billCounter', k') \<Rightarrow>
          afterFailures_p2 rnd minBill maxBill d dayTarget (consecutiveFailures + 1) dailyUsedItemIds
            (billCounter', (snd br)\<lparr>stockMap := stock', randomCalls := k'\<rparr>) n)"

section \<open>Example ledgers\<close>

definition tea :: item where
  "tea = \<lparr>Item_Details = ''Tea'', Price = 100, GST_PERCENT = 0, CESS = 0, MRP = 0,
           remainingQty = 10, singleUnitCost = 100, originalIsFloat = False\<rparr>"

definition spice :: item where
  "spice = \<lparr>Item_Details = ''Spice'', Price = 100, GST_PERCENT = 0, CESS = 0, MRP = 0,
             remainingQty = 39 / 1000, singleUnitCost = 100, originalIsFloat = True\<rparr>"

definition oil :: item where
  "oil = \<lparr>Item_Details = ''Oil'', Price = 1000, GST_PERCENT = 0, CESS = 0, MRP = 0,
           remainingQty = 1 / 2, singleUnitCost = 1000, originalIsFloat = True\<rparr>"

text \<open>A run that starts with an empty stock map.\<close>

definition emptyRun :: run where
  "emptyRun = \<lparr>stockMap = [], allGeneratedBills = [], hasSkipped = False, abortAll = False,
               console = [], logList = Some [], randomCalls = 0\<rparr>"

text \<open>A ledger for the legacy composer.\<close>

definition rice :: legacyItem where
  "rice = \<lparr>Price_legacy = 100, GST_PERCENT_legacy = 0, CESS_legacy = 0, MRP_legacy = 0,
            Amount_legacy = 1000, remainingQty_legacy = 10\<rparr>"

text \<open>
  A row of the sheet with a price and a quantity and no tax, as \<open>buildStockMap\<close> stores it,
  in double precision: the cells are the doubles nearest to the decimals typed.
\<close>

definition priced :: "string \<Rightarrow> rat \<Rightarrow> rat \<Rightarrow> item" where
  "priced n p q = \<lparr>Item_Details = n, Price = dbl p, GST_PERCENT = 0, CESS = 0, MRP = 0,
                   remainingQty = dbl q, singleUnitCost = calculateItemTotal_ieee (dbl p) 1 0 0 0,
                   originalIsFloat = False\<rparr>"

text \<open>
  An item of which less than a hundredth of a unit is left: it passes the filter
  \<open>remainingQty > 0.001\<close>, and no quantity can be chosen of it (\<open>absMax < 0.01\<close>). A run that
  starts with this item alone.
\<close>

definition dust :: item where
  "dust = \<lparr>Item_Details = ''Dust'', Price = 100, GST_PERCENT = 0, CESS = 0, MRP = 0,
            remainingQty = 1 / 200, singleUnitCost = 100, originalIsFloat = True\<rparr>"

definition dustRun :: run where
  "dustRun = \<lparr>stockMap = [(''Dust'', dust)], allGeneratedBills = [], hasSkipped = False,
              abortAll = False, console = [], logList = Some [], randomCalls = 0\<rparr>"

section \<open>Rounding lemmas\<close>

lemma toFixed_zero: "toFixed d 0 = 0"
  by (simp add: toFixed_def)

lemma toFixed_int_multiple: "\<exists>k::int. toFixed d x = of_int k / 10 ^ d"
proof (cases "0 \<le> x")
  case True
  then have "toFixed d x = of_int (if x = 0 then 0 else \<lfloor>\<bar>x\<bar> * 10 ^ d + 1 / 2\<rfloor>) / 10 ^ d"
    by (auto simp: toFixed_def sgn_if)
  then show ?thesis by blast
next
  case False
  then have "toFixed d x = of_int (- \<lfloor>\<bar>x\<bar> * 10 ^ d + 1 / 2\<rfloor>) / 10 ^ d"
    by (simp add: toFixed_def sgn_if)
  then show ?thesis by blast
qed

lemma toFixed_error_nonneg:
  assumes "0 \<le> x"
  shows "\<bar>toFixed d x - x\<bar> \<le> 1 / (2 * 10 ^ d)"
proof (cases "x = 0")
  case True
  then show ?thesis by (simp add: toFixed_zero)
next
  case False
  with assms have pos: "0 < x" by simp
  define p :: rat where "p = 10 ^ d"
  define n :: int where "n = \<lfloor>x * p + 1 / 2\<rfloor>"
  have p0: "0 < p" by (simp add: p_def)
  have lo: "of_int n \<le> x * p + 1 / 2" unfolding n_def by (rule of_int_floor_le)
  have hi: "x * p + 1 / 2 < of_int n + 1" unfolding n_def by linarith
  have tf: "toFixed d x = of_int n / p"
    using pos by (simp add: toFixed_def n_def p_def)
  have "\<bar>of_int n - x * p\<bar> \<le> 1 / 2" using lo hi by linarith
  then have "\<bar>of_int n - x * p\<bar> / p \<le> (1 / 2) / p"
    using p0 by (intro divide_right_mono) simp_all
  moreover have "\<bar>of_int n - x * p\<bar> / p = \<bar>of_int n / p - x\<bar>"
  proof -
    have "of_int n / p - x = (of_int n - x * p) / p" using p0 by (simp add: field_simps)
    then show ?thesis using p0 by simp
  qed
  ultimately show ?thesis by (simp add: tf p_def)
qed

lemma toFixed_minus: "toFixed d (- x) = - toFixed d x"
  by (simp add: toFixed_def sgn_minus)

lemma toFixed_error: "\<bar>toFixed d x - x\<bar> \<le> 1 / (2 * 10 ^ d)"
proof (cases "0 \<le> x")
  case True
  then show ?thesis by (rule toFixed_error_nonneg)
next
  case False
  then have "0 \<le> - x" by simp
  then have "\<bar>toFixed d (- x) - (- x)\<bar> \<le> 1 / (2 * 10 ^ d)" by (rule toFixed_error_nonneg)
  moreover have "\<bar>toFixed d (- x) - (- x)\<bar> = \<bar>toFixed d x - x\<bar>"
    unfolding toFixed_minus by (simp add: abs_minus_commute)
  ultimately show ?thesis by simp
qed

lemma calculateItemTotal_Num:
  "calculateItemTotal (Num p) (Num q) (Num g) (Num c) (Num m)
     = Num (toFixed 2 (p * q + p * q * g / 100 + m * q * c / 100))"
  by (simp add: calculateItemTotal_def)

lemma toFixed_of_multiple: "toFixed d (of_int k / 10 ^ d) = of_int k / 10 ^ d"
proof -
  have p: "(0::rat) < 10 ^ d" by simp
  have a: "\<bar>of_int k / 10 ^ d\<bar> * 10 ^ d = (of_int \<bar>k\<bar> :: rat)"
    using p by simp
  have f: "\<lfloor>(of_int \<bar>k\<bar> :: rat) + 1 / 2\<rfloor> = \<bar>k\<bar>" by linarith
  have s: "sgn (of_int k / 10 ^ d :: rat) = of_int (sgn k)"
  proof -
    have "sgn (of_int k / 10 ^ d :: rat) = sgn (of_int k :: rat)"
      using p by simp
    also have "\<dots> = of_int (sgn k)" by (simp add: sgn_if)
    finally show ?thesis .
  qed
  have "toFixed d (of_int k / 10 ^ d) = of_int (sgn k) * of_int \<bar>k\<bar> / 10 ^ d"
    unfolding toFixed_def a f s by simp
  also have "\<dots> = of_int (sgn k * \<bar>k\<bar>) / 10 ^ d" by simp
  also have "sgn k * \<bar>k\<bar> = k" by (simp add: sgn_if)
  finally show ?thesis .
qed

lemma cents_toFixed2: "cents (toFixed 2 x)"
  using toFixed_int_multiple[of 2 x] by (simp add: cents_def)

lemma cents_add:
  assumes "cents x" "cents y"
  shows "cents (x + y)"
proof -
  from assms obtain a b :: int where "x = of_int a / 100" "y = of_int b / 100"
    unfolding cents_def by blast
  then have "x + y = of_int (a + b) / 100" by (simp add: add_divide_distrib)
  then show ?thesis unfolding cents_def by blast
qed

lemma cents_0: "cents 0"
  unfolding cents_def by (rule exI[of _ 0]) simp

lemma toFixed2_cents:
  assumes "cents x"
  shows "toFixed 2 x = x"
proof -
  from assms obtain k :: int where "x = of_int k / 10 ^ 2" unfolding cents_def by auto
  then show ?thesis by (simp only: toFixed_of_multiple)
qed

lemma getItemBillTotal_eq:
  "getItemBillTotal it q
     = toFixed 2 (Price it * q + Price it * q * GST_PERCENT it / 100 + MRP it * q * CESS it / 100)"
  by (simp add: getItemBillTotal_def calculateItemTotal_def)

lemma cents_getItemBillTotal: "cents (getItemBillTotal it q)"
  by (simp add: getItemBillTotal_eq cents_toFixed2)

subsection \<open>One step of the item loop\<close>

lemma sameGathered_refl: "sameGathered st st"
  by (simp add: sameGathered_def)

lemma chooseQty_frame:
  assumes "chooseQty rnd minItems bigFirst allowFloat absMax st = (r, st1)"
  shows "sameGathered st st1"
  using assms
  by (auto simp: chooseQty_def sameGathered_def Let_def split: if_splits prod.splits)

lemma doneCondition_frame:
  assumes "doneCondition rnd targetMin minItems bigFirst st = (b, st1)"
  shows "sameGathered st st1"
  using assms by (auto simp: doneCondition_def sameGathered_def split: if_splits)

lemma pushEntry_cases:
  "sameGathered st (pushEntry it q st) \<or> (0 < q \<and> addedEntry it q st (pushEntry it q st))"
  by (simp add: pushEntry_def sameGathered_def addedEntry_def Let_def)

lemma sameGathered_trans: "sameGathered a b \<Longrightarrow> sameGathered b c \<Longrightarrow> sameGathered a c"
  by (simp add: sameGathered_def)

lemma sameGathered_addedEntry: "sameGathered a b \<Longrightarrow> addedEntry it q b c \<Longrightarrow> addedEntry it q a c"
  by (simp add: sameGathered_def addedEntry_def)

lemma chooseQty_pushEntry_cases:
  "(case chooseQty rnd minItems bigFirst allowFloat absMax st of
      (None, st1) \<Rightarrow> st1 | (Some q, st1) \<Rightarrow> pushEntry it q st1) = st'
   \<Longrightarrow> sameGathered st st' \<or> (\<exists>q. 0 < q \<and> addedEntry it q st st')"
proof -
  assume a: "(case chooseQty rnd minItems bigFirst allowFloat absMax st of
      (None, st1) \<Rightarrow> st1 | (Some q, st1) \<Rightarrow> pushEntry it q st1) = st'"
  obtain r st1 where c: "chooseQty rnd minItems bigFirst allowFloat absMax st = (r, st1)"
    by (cases "chooseQty rnd minItems bigFirst allowFloat absMax st")
  note fr = chooseQty_frame[OF c]
  show ?thesis
  proof (cases r)
    case None
    with a c fr show ?thesis by simp
  next
    case (Some q)
    with a c have e: "st' = pushEntry it q st1" by simp
    from pushEntry_cases[of st1 it q] show ?thesis
    proof
      assume "sameGathered st1 (pushEntry it q st1)"
      with fr e show ?thesis by (auto intro: sameGathered_trans)
    next
      assume "0 < q \<and> addedEntry it q st1 (pushEntry it q st1)"
      with fr e show ?thesis by (auto intro: sameGathered_addedEntry)
    qed
  qed
qed

lemma pickItem_cases:
  "sameGathered st (pickItem rnd targetMax minItems attemptNo it st)
   \<or> (\<exists>q. 0 < q \<and> addedEntry it q st (pickItem rnd targetMax minItems attemptNo it st))"
proof (cases "getRem (tempUsed st) it \<le> 1 / 1000 \<or> targetMax - currentTotal st < 1")
  case True
  then have "pickItem rnd targetMax minItems attemptNo it st = st"
    by (auto simp: pickItem_def Let_def)
  then show ?thesis by (simp add: sameGathered_refl)
next
  case False
  then have "(case chooseQty rnd minItems (attemptNo = 0)
                     (canSellInFloat it (targetMax - currentTotal st))
                     (absMaxOf (getRem (tempUsed st) it) (targetMax - currentTotal st) it) st of
                (None, st1) \<Rightarrow> st1 | (Some q, st1) \<Rightarrow> pushEntry it q st1)
             = pickItem rnd targetMax minItems attemptNo it st"
    by (simp add: pickItem_def Let_def)
  then show ?thesis by (rule chooseQty_pushEntry_cases)
qed

lemma pickItem_p2_cases:
  "sameGathered st (pickItem_p2 rnd targetMax minItems attemptNo it st)
   \<or> (\<exists>q. 0 < q \<and> addedEntry it q st (pickItem_p2 rnd targetMax minItems attemptNo it st))"
proof (cases "getRem (tempUsed st) it \<le> 1 / 1000 \<or> targetMax - currentTotal st < 1
                \<or> (\<not> canSellInFloat_p2 it \<and> singleUnitCost it > targetMax - currentTotal st)")
  case True
  then have "pickItem_p2 rnd targetMax minItems attemptNo it st = st"
    by (auto simp: pickItem_p2_def Let_def)
  then show ?thesis by (simp add: sameGathered_refl)
next
  case False
  then have "(case chooseQty rnd minItems (attemptNo = 0 \<or> attemptNo = 2) (canSellInFloat_p2 it)
                     (absMaxOf (getRem (tempUsed st) it) (targetMax - currentTotal st) it) st of
                (None, st1) \<Rightarrow> st1 | (Some q, st1) \<Rightarrow> pushEntry it q st1)
             = pickItem_p2 rnd targetMax minItems attemptNo it st"
    by (auto simp: pickItem_p2_def Let_def)
  then show ?thesis by (rule chooseQty_pushEntry_cases)
qed

subsection \<open>The item loop as a list of takings\<close>

lemma tracks_Nil: "sameGathered st st' \<Longrightarrow> tracks [] st st'"
  by (simp add: tracks_def sameGathered_def)

lemma tracks_same: "sameGathered st st1 \<Longrightarrow> tracks ps st1 st' \<Longrightarrow> tracks ps st st'"
  by (simp add: tracks_def sameGathered_def)

lemma tracks_Cons: "addedEntry it q st st1 \<Longrightarrow> tracks ps st1 st' \<Longrightarrow> tracks ((it, q) # ps) st st'"
  by (simp add: tracks_def addedEntry_def mkEntry_def noteUsed_def)

lemma takenFrom_Nil: "takenFrom pool []"
  by (simp add: takenFrom_def)

lemma takenFrom_skip: "takenFrom pool ps \<Longrightarrow> takenFrom (it # pool) ps"
  by (auto simp: takenFrom_def)

lemma takenFrom_take: "takenFrom pool ps \<Longrightarrow> 0 < q \<Longrightarrow> takenFrom (it # pool) ((it, q) # ps)"
  by (auto simp: takenFrom_def)

lemma pickItems_trace:
  "\<exists>picks. takenFrom pool picks
         \<and> tracks picks st (pickItems rnd targetMin targetMax minItems attemptNo pool st)"
proof (induction pool arbitrary: st)
  case Nil
  show ?case
    by (rule exI[of _ "[]"]) (simp add: takenFrom_Nil tracks_Nil sameGathered_refl)
next
  case (Cons it pool)
  obtain b st1 where d: "doneCondition rnd targetMin minItems (attemptNo = 0) st = (b, st1)"
    by (cases "doneCondition rnd targetMin minItems (attemptNo = 0) st")
  note s1 = doneCondition_frame[OF d]
  show ?case
  proof (cases b)
    case True
    with d have "pickItems rnd targetMin targetMax minItems attemptNo (it # pool) st = st1" by simp
    with s1 show ?thesis
      by (intro exI[of _ "[]"]) (simp add: takenFrom_Nil tracks_Nil)
  next
    case False
    define st2 where "st2 = pickItem rnd targetMax minItems attemptNo it st1"
    from False d have e: "pickItems rnd targetMin targetMax minItems attemptNo (it # pool) st
                 = pickItems rnd targetMin targetMax minItems attemptNo pool st2"
      by (simp add: st2_def)
    from Cons.IH[of st2] obtain ps where ps: "takenFrom pool ps"
        "tracks ps st2 (pickItems rnd targetMin targetMax minItems attemptNo pool st2)"
      by blast
    from pickItem_cases[of st1 rnd targetMax minItems attemptNo it]
    show ?thesis
    proof
      assume "sameGathered st1 (pickItem rnd targetMax minItems attemptNo it st1)"
      then have "sameGathered st st2" using s1 by (auto simp: st2_def intro: sameGathered_trans)
      with ps e show ?thesis
        by (intro exI[of _ ps]) (simp add: takenFrom_skip tracks_same)
    next
      assume "\<exists>q. 0 < q \<and> addedEntry it q st1 (pickItem rnd targetMax minItems attemptNo it st1)"
      then obtain q where q: "0 < q" "addedEntry it q st1 st2" by (auto simp: st2_def)
      from q(2) s1 have "addedEntry it q st st2" by (rule sameGathered_addedEntry[rotated])
      with ps e q(1) show ?thesis
        by (intro exI[of _ "(it, q) # ps"]) (simp add: takenFrom_take tracks_Cons)
    qed
  qed
qed

lemma pickItems_p2_trace:
  "\<exists>picks. takenFrom pool picks
         \<and> tracks picks st (pickItems_p2 rnd targetMin targetMax minItems attemptNo pool st)"
proof (induction pool arbitrary: st)
  case Nil
  show ?case
    by (rule exI[of _ "[]"]) (simp add: takenFrom_Nil tracks_Nil sameGathered_refl)
next
  case (Cons it pool)
  obtain b st1 where d: "doneCondition rnd targetMin minItems (attemptNo = 0 \<or> attemptNo = 2) st = (b, st1)"
    by (cases "doneCondition rnd targetMin minItems (attemptNo = 0 \<or> attemptNo = 2) st")
  note s1 = doneCondition_frame[OF d]
  show ?case
  proof (cases b)
    case True
    with d have "pickItems_p2 rnd targetMin targetMax minItems attemptNo (it # pool) st = st1" by simp
    with s1 show ?thesis
      by (intro exI[of _ "[]"]) (simp add: takenFrom_Nil tracks_Nil)
  next
    case False
    define st2 where "st2 = pickItem_p2 rnd targetMax minItems attemptNo it st1"
    from False d have e: "pickItems_p2 rnd targetMin targetMax minItems attemptNo (it # pool) st
                 = pickItems_p2 rnd targetMin targetMax minItems attemptNo pool st2"
      by (simp add: st2_def)
    from Cons.IH[of st2] obtain ps where ps: "takenFrom pool ps"
        "tracks ps st2 (pickItems_p2 rnd targetMin targetMax minItems attemptNo pool st2)"
      by blast
    from pickItem_p2_cases[of st1 rnd targetMax minItems attemptNo it]
    show ?thesis
    proof
      assume "sameGathered st1 (pickItem_p2 rnd targetMax minItems attemptNo it st1)"
      then have "sameGathered st st2" using s1 by (auto simp: st2_def intro: sameGathered_trans)
      with ps e show ?thesis
        by (intro exI[of _ ps]) (simp add: takenFrom_skip tracks_same)
    next
      assume "\<exists>q. 0 < q \<and> addedEntry it q st1 (pickItem_p2 rnd targetMax minItems attemptNo it st1)"
      then obtain q where q: "0 < q" "addedEntry it q st1 st2" by (auto simp: st2_def)
      from q(2) s1 have "addedEntry it q st st2" by (rule sameGathered_addedEntry[rotated])
      with ps e q(1) show ?thesis
        by (intro exI[of _ "(it, q) # ps"]) (simp add: takenFrom_take tracks_Cons)
    qed
  qed
qed

subsection \<open>What takings from a fresh attempt give\<close>

lemma tracks_new_bill: "tracks picks (newAttempt k) st \<Longrightarrow> currentBill st = map mkEntry picks"
  by (simp add: tracks_def newAttempt_def)

lemma tracks_new_tempUsed: "tracks picks (newAttempt k) st \<Longrightarrow> tempUsed st = foldl noteUsed [] picks"
  by (simp add: tracks_def newAttempt_def)

lemma tracks_new_inv:
  assumes "tracks picks (newAttempt k) st"
  shows "attemptInv st"
proof -
  have "sum_list (map (\<lambda>p. getItemBillTotal (fst p) (snd p)) picks) = sum_list (map cost (map mkEntry picks))"
    by (simp add: mkEntry_def comp_def)
  moreover have "list_all (\<lambda>e. cost e = getItemBillTotal (item e) (qty e)) (map mkEntry picks)"
    by (simp add: list_all_iff mkEntry_def)
  ultimately show ?thesis using assms
    by (simp add: attemptInv_def tracks_def newAttempt_def)
qed

lemma cents_sum_costs:
  "list_all (\<lambda>e. cost e = getItemBillTotal (item e) (qty e)) es \<Longrightarrow> cents (sum_list (map cost es))"
proof (induction es)
  case Nil
  then show ?case by (simp add: cents_0)
next
  case (Cons e es)
  then show ?case by (simp add: cents_add cents_getItemBillTotal)
qed

lemma attemptInv_cents: "attemptInv st \<Longrightarrow> cents (currentTotal st)"
  by (simp add: attemptInv_def cents_sum_costs)

subsection \<open>Shuffling reorders\<close>

lemma shuffle_index:
  assumes "rng_ok rnd"
  shows "nat \<lfloor>rnd k * of_nat (Suc i)\<rfloor> \<le> i"
proof -
  from assms have r: "0 \<le> rnd k" "rnd k < 1" by (auto simp: rng_ok_def)
  have "rnd k * of_nat (Suc i) < 1 * of_nat (Suc i)"
    using r(2) by (intro mult_strict_right_mono) simp_all
  then have "rnd k * of_nat (Suc i) < of_int (int (Suc i))" by simp
  then have "\<lfloor>rnd k * of_nat (Suc i)\<rfloor> < int (Suc i)" by (simp only: floor_less_iff)
  then show ?thesis by linarith
qed

lemma shuffleLoop_reorders:
  assumes "rng_ok rnd"
  shows "i < length xs \<Longrightarrow>
         set (fst (shuffleLoop rnd i (xs, k))) = set xs
         \<and> distinct (fst (shuffleLoop rnd i (xs, k))) = distinct xs"
proof (induction i arbitrary: xs k)
  case 0
  then show ?case by simp
next
  case (Suc i)
  define j where "j = nat \<lfloor>rnd k * of_nat (Suc i + 1)\<rfloor>"
  define ys where "ys = xs[Suc i := xs ! j, j := xs ! Suc i]"
  have "j \<le> Suc i" unfolding j_def using shuffle_index[OF assms, of k "Suc i"] by simp
  with Suc.prems have jl: "j < length xs" by simp
  have s: "set ys = set xs" and d: "distinct ys = distinct xs"
    unfolding ys_def using Suc.prems jl by simp_all
  have l: "i < length ys" using Suc.prems by (simp add: ys_def)
  have "shuffleLoop rnd (Suc i) (xs, k) = shuffleLoop rnd i (ys, k + 1)"
    by (simp add: Let_def ys_def j_def)
  with Suc.IH[OF l, of "k + 1"] s d show ?case by simp
qed

lemma shuffleArray_reorders:
  assumes "rng_ok rnd"
  shows "set (fst (shuffleArray rnd (xs, k))) = set xs
         \<and> distinct (fst (shuffleArray rnd (xs, k))) = distinct xs"
proof (cases xs)
  case Nil
  then show ?thesis by (simp add: shuffleArray_def)
next
  case (Cons x xs')
  then have "length xs - 1 < length xs" by simp
  from shuffleLoop_reorders[OF assms this, of k] show ?thesis by (simp add: shuffleArray_def)
qed

lemma distinct_names_reorder:
  assumes "set ys = set xs" "distinct ys = distinct xs" "distinct (map Item_Details xs)"
  shows "distinct (map Item_Details ys)"
  using assms by (simp add: distinct_map)

lemma takenFrom_reorder:
  assumes "takenFrom pool picks" "set pool \<subseteq> set avail"
    and "distinct (map Item_Details pool)"
  shows "fst ` set picks \<subseteq> set avail \<and> (\<forall>p \<in> set picks. 0 < snd p)
         \<and> distinct (map (\<lambda>p. Item_Details (fst p)) picks)"
  using assms by (auto simp: takenFrom_def)

subsection \<open>Attempt loop and tier loop of part_001\<close>

lemma attemptLoop_step:
  assumes "attemptNo < maxAttempts"
    and "(if attemptNo = 0 then (expensiveItemsFirst, k) else shuffleArray rnd (availableItems, k))
           = (pool, k1)"
    and "st0 = pickItems rnd targetMin targetMax minItems attemptNo pool (newAttempt k1)"
  shows "attemptLoop rnd md margin targetMin targetMax dayTotalRemaining availableItems
           expensiveItemsFirst minItems maxAttempts attemptNo k
         = (if isValid md margin targetMin targetMax minItems st0 \<and> safeLanding dayTotalRemaining margin st0
            then (Some st0, calls st0)
            else attemptLoop rnd md margin targetMin targetMax dayTotalRemaining availableItems
                   expensiveItemsFirst minItems maxAttempts (attemptNo + 1) (calls st0))"
  using assms by (subst attemptLoop.simps) (simp add: Let_def)

lemma attemptLoop_end:
  "\<not> attemptNo < maxAttempts \<Longrightarrow>
   attemptLoop rnd md margin targetMin targetMax dayTotalRemaining availableItems
           expensiveItemsFirst minItems maxAttempts attemptNo k = (None, k)"
  by (subst attemptLoop.simps) simp

text \<open>An accepted attempt passed validation and safe landing; it is a list of takings from
  the pool of its attempt, which is \<open>expensiveItemsFirst\<close> or a shuffle of \<open>availableItems\<close>.\<close>

lemma attemptLoop_Some:
  "attemptLoop rnd md margin targetMin targetMax dayTotalRemaining availableItems expensiveItemsFirst
       minItems maxAttempts attemptNo k = (Some st, k')
   \<Longrightarrow> isValid md margin targetMin targetMax minItems st \<and> safeLanding dayTotalRemaining margin st
       \<and> (\<exists>pool picks k1. (pool = expensiveItemsFirst \<or> (\<exists>k0. pool = fst (shuffleArray rnd (availableItems, k0))))
              \<and> takenFrom pool picks \<and> tracks picks (newAttempt k1) st)"
proof (induction rnd md margin targetMin targetMax dayTotalRemaining availableItems expensiveItemsFirst
         minItems maxAttempts attemptNo k rule: attemptLoop.induct)
  case (1 rnd md margin targetMin targetMax dayTotalRemaining availableItems expensiveItemsFirst
          minItems maxAttempts attemptNo k)
  show ?case
  proof (cases "attemptNo < maxAttempts")
    case False
    with "1.prems" show ?thesis by (simp add: attemptLoop_end)
  next
    case lt: True
    obtain pool k1 where p: "(if attemptNo = 0 then (expensiveItemsFirst, k)
                else shuffleArray rnd (availableItems, k)) = (pool, k1)"
      by (cases "(if attemptNo = 0 then (expensiveItemsFirst, k)
                else shuffleArray rnd (availableItems, k))")
    have pool: "pool = expensiveItemsFirst \<or> (\<exists>k0. pool = fst (shuffleArray rnd (availableItems, k0)))"
    proof (cases "attemptNo = 0")
      case True
      with p show ?thesis by simp
    next
      case False
      with p have "pool = fst (shuffleArray rnd (availableItems, k))" by simp
      then show ?thesis by blast
    qed
    define st0 where "st0 = pickItems rnd targetMin targetMax minItems attemptNo pool (newAttempt k1)"
    from pickItems_trace[of pool "newAttempt k1" rnd targetMin targetMax minItems attemptNo]
    obtain picks where tr: "takenFrom pool picks" "tracks picks (newAttempt k1) st0"
      unfolding st0_def by blast
    note step = attemptLoop_step[OF lt p st0_def, of md margin dayTotalRemaining]
    show ?thesis
    proof (cases "isValid md margin targetMin targetMax minItems st0 \<and> safeLanding dayTotalRemaining margin st0")
      case True
      with step "1.prems" have "st = st0" by simp
      with True pool tr show ?thesis by blast
    next
      case False
      with step "1.prems" have r: "attemptLoop rnd md margin targetMin targetMax dayTotalRemaining
          availableItems expensiveItemsFirst minItems maxAttempts (attemptNo + 1) (calls st0) = (Some st, k')"
        by simp
      show ?thesis
        by (rule "1.IH"[OF lt p[symmetric] refl st0_def False r])
    qed
  qed
qed

lemma tierLoop_Some:
  "tierLoop rnd md margin targetMin targetMax dayTotalRemaining availableItems expensiveItemsFirst
       effort tiers k = (Some (t, st), k')
   \<Longrightarrow> t \<in> set tiers \<and> count t \<le> length availableItems
       \<and> isValid md margin targetMin targetMax (count t) st
       \<and> safeLanding dayTotalRemaining margin st
       \<and> (\<exists>pool picks k1. (pool = expensiveItemsFirst \<or> (\<exists>k0. pool = fst (shuffleArray rnd (availableItems, k0))))
              \<and> takenFrom pool picks \<and> tracks picks (newAttempt k1) st)"
proof (induction tiers arbitrary: k)
  case Nil
  then show ?case by simp
next
  case (Cons t0 tiers)
  show ?case
  proof (cases "length availableItems < count t0")
    case True
    with Cons.prems have "tierLoop rnd md margin targetMin targetMax dayTotalRemaining availableItems
        expensiveItemsFirst effort tiers k = (Some (t, st), k')"
      by (simp add: Let_def)
    from Cons.IH[OF this] show ?thesis by simp
  next
    case False
    obtain r k1 where a: "attemptLoop rnd md margin targetMin targetMax dayTotalRemaining availableItems
                   expensiveItemsFirst (count t0) (max 1 (nat \<lfloor>of_nat (attempts t0) * effort\<rfloor>)) 0 k = (r, k1)"
      by (cases "attemptLoop rnd md margin targetMin targetMax dayTotalRemaining availableItems
                   expensiveItemsFirst (count t0) (max 1 (nat \<lfloor>of_nat (attempts t0) * effort\<rfloor>)) 0 k")
    show ?thesis
    proof (cases r)
      case None
      with False a Cons.prems have "tierLoop rnd md margin targetMin targetMax dayTotalRemaining
          availableItems expensiveItemsFirst effort tiers k1 = (Some (t, st), k')"
        by (simp add: Let_def)
      from Cons.IH[OF this] show ?thesis by simp
    next
      case (Some st0)
      with False a Cons.prems have e: "t = t0" "st = st0" by (simp_all add: Let_def)
      from attemptLoop_Some[OF a[unfolded Some]] e False show ?thesis by simp
    qed
  qed
qed

subsection \<open>The entry point of part_001\<close>

lemma success_formatResult: "success (formatResult bl tot target d)"
  by (simp add: formatResult_def)

lemma not_success_failure: "\<not> success (failure r)"
  by (simp add: failure_def)

lemma total_formatResult:
  "attemptInv st \<Longrightarrow> total (formatResult (currentBill st) (currentTotal st) target d) = currentTotal st"
  by (simp add: formatResult_def toFixed2_cents attemptInv_cents)

lemma items_formatResult: "items (formatResult bl tot target d) = map (formatEntry d) bl"
  by (simp add: formatResult_def)

text \<open>A successful call ran the tier loop to an accepted attempt, formatted it and committed it.\<close>

lemma generateBillFromMap_success:
  assumes g: "generateBillFromMap rnd stock targetMin targetMax dayTotalRemaining d margin md
                currentFailures k = (b, stock', k')"
    and s: "success b"
  shows "\<exists>t st. tierLoop rnd md margin targetMin targetMax dayTotalRemaining (availableItemsOf stock)
                   (expensiveFirstOf (availableItemsOf stock)) (effortMultiplier currentFailures)
                   baseAttempts k = (Some (t, st), k')
                \<and> b = formatResult (currentBill st) (currentTotal st) targetMax d
                \<and> stock' = commitBill stock (currentBill st)"
proof (cases "length (availableItemsOf stock) = 0")
  case True
  with g have "b = failure (Some ''No items'')" by (simp add: generateBillFromMap_def)
  with s show ?thesis by (simp add: not_success_failure)
next
  case False
  obtain r k1 where tl: "tierLoop rnd md margin targetMin targetMax dayTotalRemaining (availableItemsOf stock)
                   (expensiveFirstOf (availableItemsOf stock)) (effortMultiplier currentFailures)
                   baseAttempts k = (r, k1)"
    by (cases "tierLoop rnd md margin targetMin targetMax dayTotalRemaining (availableItemsOf stock)
                   (expensiveFirstOf (availableItemsOf stock)) (effortMultiplier currentFailures)
                   baseAttempts k")
  show ?thesis
  proof (cases r)
    case None
    with False tl g have "b = failure None" by (simp add: generateBillFromMap_def Let_def)
    with s show ?thesis by (simp add: not_success_failure)
  next
    case (Some ts)
    obtain t st where ts: "ts = (t, st)" by (cases ts)
    from False tl g Some ts have "b = formatResult (currentBill st) (currentTotal st) targetMax d"
        "stock' = commitBill stock (currentBill st)" "k' = k1"
      by (simp_all add: generateBillFromMap_def Let_def)
    with tl Some ts show ?thesis by simp
  qed
qed

lemma generateBillFromMap_failure:
  assumes g: "generateBillFromMap rnd stock targetMin targetMax dayTotalRemaining d margin md
                currentFailures k = (b, stock', k')"
    and s: "\<not> success b"
  shows "stock' = stock"
proof (cases "length (availableItemsOf stock) = 0")
  case True
  with g show ?thesis by (simp add: generateBillFromMap_def)
next
  case False
  obtain r k1 where tl: "tierLoop rnd md margin targetMin targetMax dayTotalRemaining (availableItemsOf stock)
                   (expensiveFirstOf (availableItemsOf stock)) (effortMultiplier currentFailures)
                   baseAttempts k = (r, k1)"
    by (cases "tierLoop rnd md margin targetMin targetMax dayTotalRemaining (availableItemsOf stock)
                   (expensiveFirstOf (availableItemsOf stock)) (effortMultiplier currentFailures)
                   baseAttempts k")
  show ?thesis
  proof (cases r)
    case None
    with False tl g show ?thesis by (simp add: generateBillFromMap_def Let_def)
  next
    case (Some ts)
    obtain t st where ts: "ts = (t, st)" by (cases ts)
    from False tl g Some ts have "b = formatResult (currentBill st) (currentTotal st) targetMax d"
      by (simp add: generateBillFromMap_def Let_def)
    with s show ?thesis by (simp add: success_formatResult)
  qed
qed

text \<open>What validation and safe landing say about the formatted bill.\<close>

lemma accepted_bill:
  assumes v: "isValid md margin targetMin targetMax minItems st"
    and l: "safeLanding dayTotalRemaining margin st"
    and inv: "attemptInv st"
    and b: "b = formatResult (currentBill st) (currentTotal st) targetMax d"
  shows "(md = RANGE \<longrightarrow> targetMin \<le> total b \<and> total b \<le> targetMax)
       \<and> (md = EXACT \<longrightarrow> \<bar>targetMax - total b\<bar> \<le> margin)
       \<and> minItems \<le> length (items b)
       \<and> (dayTotalRemaining - total b \<le> margin \<or> dayTotalRemaining - total b > 50)"
proof -
  have tot: "total b = currentTotal st" unfolding b by (rule total_formatResult[OF inv])
  have len: "length (items b) = pickedCount st"
    using inv by (simp add: b items_formatResult attemptInv_def)
  have r: "md = RANGE \<longrightarrow> targetMin \<le> total b \<and> total b \<le> targetMax"
    using v tot by (simp add: isValid_def)
  have e: "md = EXACT \<longrightarrow> \<bar>targetMax - total b\<bar> \<le> margin"
    using v tot by (cases md) (simp_all add: isValid_def)
  have c: "minItems \<le> length (items b)"
    using v len by (cases md) (simp_all add: isValid_def)
  have s: "dayTotalRemaining - total b \<le> margin \<or> dayTotalRemaining - total b > 50"
    using l tot by (simp add: safeLanding_def Let_def)
  from r e c s show ?thesis by blast
qed

subsection \<open>Attempt loop, tier loop and entry point of part_002\<close>

lemma selectPool_p2_cases:
  assumes "selectPool_p2 rnd availableItems freshItems expensiveAll expensiveFresh minItems attemptNo k
             = (pool, k1)"
  shows "pool = expensiveFresh \<or> pool = expensiveAll
         \<or> (\<exists>k0. pool = fst (shuffleArray rnd (freshItems, k0)))
         \<or> (\<exists>k0. pool = fst (shuffleArray rnd (availableItems, k0)))"
proof -
  have "pool = fst (selectPool_p2 rnd availableItems freshItems expensiveAll expensiveFresh minItems attemptNo k)"
    using assms by simp
  then show ?thesis
    unfolding selectPool_p2_def Let_def
    by (cases "attemptNo < 2 \<and> minItems \<le> length freshItems"; cases "attemptNo = 0"; cases "attemptNo = 2")
       auto
qed

lemma attemptLoop_p2_step:
  assumes "attemptNo < maxAttempts"
    and "selectPool_p2 rnd availableItems freshItems expensiveAll expensiveFresh minItems attemptNo k
           = (pool, k1)"
    and "st0 = pickItems_p2 rnd targetMin targetMax minItems attemptNo pool (newAttempt k1)"
  shows "attemptLoop_p2 rnd md margin targetMin targetMax dayTotalRemaining availableItems freshItems
           expensiveAll expensiveFresh minItems maxAttempts attemptNo k
         = (if isValid md margin targetMin targetMax minItems st0 \<and> safeLanding dayTotalRemaining margin st0
            then (Some st0, calls st0)
            else attemptLoop_p2 rnd md margin targetMin targetMax dayTotalRemaining availableItems
                   freshItems expensiveAll expensiveFresh minItems maxAttempts (attemptNo + 1) (calls st0))"
  using assms by (subst attemptLoop_p2.simps) (simp add: Let_def)

lemma attemptLoop_p2_end:
  "\<not> attemptNo < maxAttempts \<Longrightarrow>
   attemptLoop_p2 rnd md margin targetMin targetMax dayTotalRemaining availableItems freshItems
           expensiveAll expensiveFresh minItems maxAttempts attemptNo k = (None, k)"
  by (subst attemptLoop_p2.simps) simp

lemma attemptLoop_p2_Some:
  "attemptLoop_p2 rnd md margin targetMin targetMax dayTotalRemaining availableItems freshItems
       expensiveAll expensiveFresh minItems maxAttempts attemptNo k = (Some st, k')
   \<Longrightarrow> isValid md margin targetMin targetMax minItems st \<and> safeLanding dayTotalRemaining margin st
       \<and> (\<exists>pool picks k1.
              (pool = expensiveFresh \<or> pool = expensiveAll
               \<or> (\<exists>k0. pool = fst (shuffleArray rnd (freshItems, k0)))
               \<or> (\<exists>k0. pool = fst (shuffleArray rnd (availableItems, k0))))
              \<and> takenFrom pool picks \<and> tracks picks (newAttempt k1) st)"
proof (induction rnd md margin targetMin targetMax dayTotalRemaining availableItems freshItems
         expensiveAll expensiveFresh minItems maxAttempts attemptNo k rule: attemptLoop_p2.induct)
  case (1 rnd md margin targetMin targetMax dayTotalRemaining availableItems freshItems
          expensiveAll expensiveFresh minItems maxAttempts attemptNo k)
  show ?case
  proof (cases "attemptNo < maxAttempts")
    case False
    with "1.prems" show ?thesis by (simp add: attemptLoop_p2_end)
  next
    case lt: True
    obtain pool k1 where p: "selectPool_p2 rnd availableItems freshItems expensiveAll expensiveFresh
                               minItems attemptNo k = (pool, k1)"
      by (cases "selectPool_p2 rnd availableItems freshItems expensiveAll expensiveFresh minItems attemptNo k")
    note pool = selectPool_p2_cases[OF p]
    define st0 where "st0 = pickItems_p2 rnd targetMin targetMax minItems attemptNo pool (newAttempt k1)"
    from pickItems_p2_trace[of pool "newAttempt k1" rnd targetMin targetMax minItems attemptNo]
    obtain picks where tr: "takenFrom pool picks" "tracks picks (newAttempt k1) st0"
      unfolding st0_def by blast
    note step = attemptLoop_p2_step[OF lt p st0_def, of md margin dayTotalRemaining]
    show ?thesis
    proof (cases "isValid md margin targetMin targetMax minItems st0 \<and> safeLanding dayTotalRemaining margin st0")
      case True
      with step "1.prems" have "st = st0" by simp
      with True pool tr show ?thesis by blast
    next
      case False
      with step "1.prems" have r: "attemptLoop_p2 rnd md margin targetMin targetMax dayTotalRemaining
          availableItems freshItems expensiveAll expensiveFresh minItems maxAttempts (attemptNo + 1)
          (calls st0) = (Some st, k')"
        by simp
      show ?thesis
        by (rule "1.IH"[OF lt p[symmetric] refl st0_def False r])
    qed
  qed
qed

lemma tierLoop_p2_Some:
  "tierLoop_p2 rnd md margin targetMin targetMax dayTotalRemaining availableItems freshItems
       expensiveAll expensiveFresh effort tiers k = (Some (t, st), k')
   \<Longrightarrow> t \<in> set tiers \<and> count t \<le> length availableItems
       \<and> isValid md margin targetMin targetMax (count t) st
       \<and> safeLanding dayTotalRemaining margin st
       \<and> (\<exists>pool picks k1.
              (pool = expensiveFresh \<or> pool = expensiveAll
               \<or> (\<exists>k0. pool = fst (shuffleArray rnd (freshItems, k0)))
               \<or> (\<exists>k0. pool = fst (shuffleArray rnd (availableItems, k0))))
              \<and> takenFrom pool picks \<and> tracks picks (newAttempt k1) st)"
proof (induction tiers arbitrary: k)
  case Nil
  then show ?case by simp
next
  case (Cons t0 tiers)
  show ?case
  proof (cases "length availableItems < count t0")
    case True
    with Cons.prems have "tierLoop_p2 rnd md margin targetMin targetMax dayTotalRemaining availableItems
        freshItems expensiveAll expensiveFresh effort tiers k = (Some (t, st), k')"
      by (simp add: Let_def)
    from Cons.IH[OF this] show ?thesis by simp
  next
    case False
    obtain r k1 where a: "attemptLoop_p2 rnd md margin targetMin targetMax dayTotalRemaining availableItems
                   freshItems expensiveAll expensiveFresh (count t0)
                   (max 1 (nat \<lfloor>of_nat (attempts t0) * effort\<rfloor>)) 0 k = (r, k1)"
      by (cases "attemptLoop_p2 rnd md margin targetMin targetMax dayTotalRemaining availableItems
                   freshItems expensiveAll expensiveFresh (count t0)
                   (max 1 (nat \<lfloor>of_nat (attempts t0) * effort\<rfloor>)) 0 k")
    show ?thesis
    proof (cases r)
      case None
      with False a Cons.prems have "tierLoop_p2 rnd md margin targetMin targetMax dayTotalRemaining
          availableItems freshItems expensiveAll expensiveFresh effort tiers k1 = (Some (t, st), k')"
        by (simp add: Let_def)
      from Cons.IH[OF this] show ?thesis by simp
    next
      case (Some st0)
      with False a Cons.prems have e: "t = t0" "st = st0" by (simp_all add: Let_def)
      from attemptLoop_p2_Some[OF a[unfolded Some]] e False show ?thesis by simp
    qed
  qed
qed

text \<open>Every return of part_002's composer hands back the stock map it was given and has
  counted the call.\<close>

lemma generateBillFromMap_p2_frame:
  assumes "generateBillFromMap_p2 rnd stock targetMin targetMax dayTotalRemaining d margin md
             currentFailures dailyUsedItemIds billCounter k = (b, stock', billCounter', k')"
  shows "stock' = stock \<and> billCounter' = billCounter + 1"
  using assms
  by (auto simp: generateBillFromMap_p2_def Let_def split: if_splits prod.splits option.splits)

lemma generateBillFromMap_p2_success:
  assumes g: "generateBillFromMap_p2 rnd stock targetMin targetMax dayTotalRemaining d margin md
                currentFailures dailyUsedItemIds billCounter k = (b, stock', billCounter', k')"
    and s: "success b"
  shows "\<exists>t st. tierLoop_p2 rnd md margin targetMin targetMax dayTotalRemaining (availableItemsOf stock)
                   (freshItemsOf stock dailyUsedItemIds) (expensiveFirstOf (availableItemsOf stock))
                   (expensiveFirstOf (freshItemsOf stock dailyUsedItemIds))
                   (effortMultiplier_p2 currentFailures) baseAttempts k = (Some (t, st), k')
                \<and> b = (formatResult (currentBill st) (currentTotal st) targetMax d)
                        \<lparr>tempUsedMap := Some (tempUsed st)\<rparr>"
proof (cases "length (availableItemsOf stock) = 0")
  case True
  with g have "b = failure (Some ''No items'')" by (simp add: generateBillFromMap_p2_def)
  with s show ?thesis by (simp add: not_success_failure)
next
  case False
  obtain r k1 where tl: "tierLoop_p2 rnd md margin targetMin targetMax dayTotalRemaining (availableItemsOf stock)
                   (freshItemsOf stock dailyUsedItemIds) (expensiveFirstOf (availableItemsOf stock))
                   (expensiveFirstOf (freshItemsOf stock dailyUsedItemIds))
                   (effortMultiplier_p2 currentFailures) baseAttempts k = (r, k1)"
    by (cases "tierLoop_p2 rnd md margin targetMin targetMax dayTotalRemaining (availableItemsOf stock)
                   (freshItemsOf stock dailyUsedItemIds) (expensiveFirstOf (availableItemsOf stock))
                   (expensiveFirstOf (freshItemsOf stock dailyUsedItemIds))
                   (effortMultiplier_p2 currentFailures) baseAttempts k")
  show ?thesis
  proof (cases r)
    case None
    with False tl g have "b = failure None" by (simp add: generateBillFromMap_p2_def Let_def)
    with s show ?thesis by (simp add: not_success_failure)
  next
    case (Some ts)
    obtain t st where ts: "ts = (t, st)" by (cases ts)
    from False tl g Some ts have "b = (formatResult (currentBill st) (currentTotal st) targetMax d)
                        \<lparr>tempUsedMap := Some (tempUsed st)\<rparr>" "k' = k1"
      by (simp_all add: generateBillFromMap_p2_def Let_def)
    with tl Some ts show ?thesis by simp
  qed
qed

lemma generateBillFromMap_p2_failure:
  assumes g: "generateBillFromMap_p2 rnd stock targetMin targetMax dayTotalRemaining d margin md
                currentFailures dailyUsedItemIds billCounter k = (b, stock', billCounter', k')"
    and s: "\<not> success b"
  shows "tempUsedMap b = None"
  using assms
  by (auto simp: generateBillFromMap_p2_def Let_def failure_def formatResult_def
           split: if_splits prod.splits option.splits)

subsection \<open>Committing quantities\<close>

lemma map_of_commitQty:
  "map_of (commitQty m n q) n' =
     (if n' = n then map_option (\<lambda>i. i\<lparr>remainingQty := toFixed 3 (remainingQty i - q)\<rparr>) (map_of m n)
      else map_of m n')"
  by (cases "map_of m n") (simp_all add: commitQty_def update_conv')

lemma foldl_commit_other:
  "n \<notin> key ` set ps \<Longrightarrow> map_of (foldl (\<lambda>m p. commitQty m (key p) (amt p)) m ps) n = map_of m n"
  by (induction ps arbitrary: m) (simp_all add: map_of_commitQty)

lemma foldl_commit_hit:
  "distinct (map key ps) \<Longrightarrow> p \<in> set ps \<Longrightarrow> map_of m (key p) = Some i \<Longrightarrow>
   map_of (foldl (\<lambda>m p. commitQty m (key p) (amt p)) m ps) (key p)
     = Some (i\<lparr>remainingQty := toFixed 3 (remainingQty i - amt p)\<rparr>)"
proof (induction ps arbitrary: m)
  case Nil
  then show ?case by simp
next
  case (Cons a ps)
  show ?case
  proof (cases "p = a")
    case True
    from Cons.prems(1) have "key a \<notin> key ` set ps" by simp
    from foldl_commit_other[OF this, of amt "commitQty m (key a) (amt a)"] True Cons.prems(3)
    show ?thesis by (simp add: map_of_commitQty)
  next
    case False
    with Cons.prems have in_ps: "p \<in> set ps" and d: "distinct (map key ps)"
      and na: "key a \<notin> key ` set ps" by auto
    have "key p \<in> key ` set ps" using in_ps by (rule imageI)
    with na have ne: "key p \<noteq> key a" by metis
    have "map_of (commitQty m (key a) (amt a)) (key p) = Some i"
      using ne Cons.prems(3) by (simp add: map_of_commitQty)
    from Cons.IH[OF d in_ps this] show ?thesis by simp
  qed
qed

lemma toFixed3_close: "\<bar>toFixed 3 (x - q) - (x - q)\<bar> \<le> 1 / 1000"
proof -
  have "\<bar>toFixed 3 (x - q) - (x - q)\<bar> \<le> 1 / (2 * 10 ^ 3)" by (rule toFixed_error)
  also have "\<dots> \<le> (1 / 1000 :: rat)" by simp
  finally show ?thesis .
qed

subsection \<open>Well-formed stock maps\<close>

lemma wf_stock_names: "wf_stock stock \<Longrightarrow> map Item_Details (map snd stock) = map fst stock"
  by (induction stock) (auto simp: wf_stock_def)

lemma wf_stock_lookup:
  assumes "wf_stock stock" "it \<in> snd ` set stock"
  shows "map_of stock (Item_Details it) = Some it"
proof -
  from assms(2) obtain k where k: "(k, it) \<in> set stock" by force
  with assms(1) have "Item_Details it = k" by (auto simp: wf_stock_def list_all_iff)
  moreover from assms(1) k have "map_of stock k = Some it" by (simp add: wf_stock_def)
  ultimately show ?thesis by simp
qed

lemma availableItemsOf_subset: "set (availableItemsOf stock) \<subseteq> snd ` set stock"
  by (auto simp: availableItemsOf_def)

lemma availableItemsOf_distinct:
  assumes "wf_stock stock"
  shows "distinct (map Item_Details (availableItemsOf stock))"
proof -
  have d: "distinct (map Item_Details (map snd stock))"
    using assms by (simp only: wf_stock_names) (simp add: wf_stock_def)
  then have "distinct (map Item_Details (filter (\<lambda>i. remainingQty i > 1 / 1000) (map snd stock)))"
    by (rule distinct_map_filter)
  then show ?thesis
    unfolding availableItemsOf_def by (simp add: distinct_map)
qed

lemma freshItemsOf_subset: "set (freshItemsOf stock used) \<subseteq> set (availableItemsOf stock)"
  by (auto simp: availableItemsOf_def freshItemsOf_def)

lemma freshItemsOf_distinct:
  assumes "wf_stock stock"
  shows "distinct (map Item_Details (freshItemsOf stock used))"
proof -
  have d: "distinct (map Item_Details (map snd stock))"
    using assms by (simp only: wf_stock_names) (simp add: wf_stock_def)
  then have "distinct (map Item_Details (filter (\<lambda>i. Item_Details i \<notin> used)
                (filter (\<lambda>i. remainingQty i > 1 / 1000) (map snd stock))))"
    by (intro distinct_map_filter)
  then show ?thesis
    unfolding freshItemsOf_def by (simp add: distinct_map)
qed

lemma expensiveFirstOf_reorders:
  "set (expensiveFirstOf xs) = set xs \<and> distinct (expensiveFirstOf xs) = distinct xs"
  by (simp add: expensiveFirstOf_def)

text \<open>Every pool of an attempt holds available items under distinct names.\<close>

lemma pool_good:
  assumes "set xs \<subseteq> set avail" "distinct (map Item_Details xs)" "rng_ok rnd"
    and "pool = expensiveFirstOf xs \<or> pool = fst (shuffleArray rnd (xs, k0))"
  shows "set pool \<subseteq> set avail \<and> distinct (map Item_Details pool)"
proof -
  from assms(4) have "set pool = set xs \<and> distinct pool = distinct xs"
    using expensiveFirstOf_reorders[of xs] shuffleArray_reorders[OF assms(3), of xs k0] by auto
  with assms(1,2) show ?thesis by (auto simp: distinct_map)
qed

subsection \<open>The scratch map of an attempt\<close>

lemma update_new_key: "k \<notin> fst ` set al \<Longrightarrow> AList.update k v al = al @ [(k, v)]"
  by (induction al) auto

lemma usedOf_new_key:
  assumes "k \<notin> fst ` set al"
  shows "usedOf al k = 0"
proof -
  from assms have "map_of al k = None" by (simp add: map_of_eq_None_iff)
  then show ?thesis by (simp add: usedOf_def)
qed

lemma foldl_noteUsed_distinct:
  "distinct (map fst tu @ map (\<lambda>p. Item_Details (fst p)) picks) \<Longrightarrow>
   foldl noteUsed tu picks = tu @ map (\<lambda>p. (Item_Details (fst p), snd p)) picks"
proof (induction picks arbitrary: tu)
  case Nil
  then show ?case by simp
next
  case (Cons p picks)
  from Cons.prems have new: "Item_Details (fst p) \<notin> fst ` set tu" by auto
  have n: "noteUsed tu p = tu @ [(Item_Details (fst p), snd p)]"
    by (simp add: noteUsed_def update_new_key[OF new] usedOf_new_key[OF new])
  from Cons.prems have "distinct (map fst (noteUsed tu p) @ map (\<lambda>p. Item_Details (fst p)) picks)"
    unfolding n by auto
  from Cons.IH[OF this] show ?case by (simp add: n)
qed

lemma usedOf_noteUsed:
  "usedOf (noteUsed tu p) n = (if n = Item_Details (fst p) then usedOf tu n + snd p else usedOf tu n)"
  by (simp add: noteUsed_def usedOf_def update_conv')

lemma usedOf_foldl_noteUsed:
  "usedOf (foldl noteUsed tu picks) n
     = usedOf tu n + sum_list (map snd (filter (\<lambda>p. Item_Details (fst p) = n) picks))"
  by (induction picks arbitrary: tu) (auto simp: usedOf_noteUsed)

lemma keys_noteUsed: "fst ` set (noteUsed tu p) = insert (Item_Details (fst p)) (fst ` set tu)"
proof -
  have "dom (map_of (noteUsed tu p)) = insert (Item_Details (fst p)) (dom (map_of tu))"
    by (simp add: noteUsed_def update_conv')
  then show ?thesis by (simp add: dom_map_of_conv_image_fst)
qed

lemma keys_foldl_noteUsed:
  "fst ` set (foldl noteUsed tu picks) = fst ` set tu \<union> (\<lambda>p. Item_Details (fst p)) ` set picks"
  by (induction picks arbitrary: tu) (auto simp: keys_noteUsed)

lemma name_formatEntry: "name (formatEntry d (mkEntry p)) = Item_Details (fst p)"
  by (simp add: formatEntry_def mkEntry_def)

lemma itemQty_formatEntry: "itemQty (formatEntry d (mkEntry p)) = snd p"
  by (simp add: formatEntry_def mkEntry_def)

subsection \<open>Conservation\<close>

lemma committed_line:
  assumes wf: "wf_stock stock"
    and sub: "fst ` set picks \<subseteq> snd ` set stock"
    and dist: "distinct (map (\<lambda>p. Item_Details (fst p)) picks)"
    and l: "l \<in> set (map (formatEntry d) (map mkEntry picks))"
  shows "\<exists>pre post. map_of stock (name l) = Some pre
           \<and> map_of (foldl (\<lambda>m p. commitQty m (Item_Details (fst p)) (snd p)) stock picks) (name l) = Some post
           \<and> \<bar>remainingQty post - (remainingQty pre - itemQty l)\<bar> \<le> 1 / 1000"
proof -
  from l obtain p where p: "p \<in> set picks" and lp: "l = formatEntry d (mkEntry p)" by auto
  from sub p have "fst p \<in> snd ` set stock" by auto
  from wf_stock_lookup[OF wf this] have pre: "map_of stock (Item_Details (fst p)) = Some (fst p)" .
  from foldl_commit_hit[of "\<lambda>p. Item_Details (fst p)" picks p stock "fst p" snd, OF dist p pre]
  have post: "map_of (foldl (\<lambda>m p. commitQty m (Item_Details (fst p)) (snd p)) stock picks)
                (Item_Details (fst p))
              = Some ((fst p)\<lparr>remainingQty := toFixed 3 (remainingQty (fst p) - snd p)\<rparr>)" .
  show ?thesis
    unfolding lp name_formatEntry itemQty_formatEntry
    using pre post toFixed3_close[of "remainingQty (fst p)" "snd p"]
    by (intro exI[of _ "fst p"] exI[of _ "(fst p)\<lparr>remainingQty := toFixed 3 (remainingQty (fst p) - snd p)\<rparr>"])
       simp
qed

lemma commitBill_picks:
  "commitBill stock (map mkEntry picks)
     = foldl (\<lambda>m p. commitQty m (Item_Details (fst p)) (snd p)) stock picks"
  by (simp add: commitBill_def foldl_map mkEntry_def)

lemma commitTempUsed_picks:
  "fst (foldl (\<lambda>(m, u) (n, q). (commitQty m n q, insert n u)) (m0, u0)
          (map (\<lambda>p. (Item_Details (fst p), snd p)) picks))
     = foldl (\<lambda>m p. commitQty m (Item_Details (fst p)) (snd p)) m0 picks"
  by (induction picks arbitrary: m0 u0) simp_all

lemma conservation_p1:
  assumes wf: "wf_stock stock" and rok: "rng_ok rnd"
    and g: "generateBillFromMap rnd stock targetMin targetMax dayTotalRemaining d margin md
              currentFailures k = (b, stock', k')"
    and s: "success b" and l: "l \<in> set (items b)"
  shows "\<exists>pre post. map_of stock (name l) = Some pre \<and> map_of stock' (name l) = Some post
           \<and> \<bar>remainingQty post - (remainingQty pre - itemQty l)\<bar> \<le> 1 / 1000"
proof -
  let ?avail = "availableItemsOf stock"
  from generateBillFromMap_success[OF g s] obtain t st where
    tl: "tierLoop rnd md margin targetMin targetMax dayTotalRemaining ?avail
           (expensiveFirstOf ?avail) (effortMultiplier currentFailures) baseAttempts k = (Some (t, st), k')"
    and b: "b = formatResult (currentBill st) (currentTotal st) targetMax d"
    and st': "stock' = commitBill stock (currentBill st)"
    by blast
  from tierLoop_Some[OF tl] obtain pool picks k1 where
    pool: "pool = expensiveFirstOf ?avail \<or> (\<exists>k0. pool = fst (shuffleArray rnd (?avail, k0)))"
    and tf: "takenFrom pool picks" and tr: "tracks picks (newAttempt k1) st"
    by blast
  from pool obtain k0 where "pool = expensiveFirstOf ?avail \<or> pool = fst (shuffleArray rnd (?avail, k0))"
    by blast
  from pool_good[OF subset_refl availableItemsOf_distinct[OF wf] rok this]
  have pg: "set pool \<subseteq> set ?avail" "distinct (map Item_Details pool)" by simp_all
  from takenFrom_reorder[OF tf pg] availableItemsOf_subset[of stock]
  have sub: "fst ` set picks \<subseteq> snd ` set stock"
    and dist: "distinct (map (\<lambda>p. Item_Details (fst p)) picks)" by auto
  have cb: "currentBill st = map mkEntry picks" using tr by (rule tracks_new_bill)
  from l have l': "l \<in> set (map (formatEntry d) (map mkEntry picks))"
    by (simp add: b items_formatResult cb)
  from committed_line[OF wf sub dist l'] show ?thesis
    by (simp add: st' cb commitBill_picks)
qed

lemma conservation_p2:
  assumes wf: "wf_stock stock" and rok: "rng_ok rnd"
    and g: "generateBillFromMap_p2 rnd stock targetMin targetMax dayTotalRemaining d margin md
              currentFailures dailyUsedItemIds billCounter k = (b, stock', billCounter', k')"
    and s: "success b"
    and c: "commitTempUsed (stock', dailyUsedItemIds) b = (stock'', dailyUsedItemIds')"
    and l: "l \<in> set (items b)"
  shows "\<exists>pre post. map_of stock (name l) = Some pre \<and> map_of stock'' (name l) = Some post
           \<and> \<bar>remainingQty post - (remainingQty pre - itemQty l)\<bar> \<le> 1 / 1000"
proof -
  let ?avail = "availableItemsOf stock"
  let ?fresh = "freshItemsOf stock dailyUsedItemIds"
  from generateBillFromMap_p2_frame[OF g] have same: "stock' = stock" by simp
  from generateBillFromMap_p2_success[OF g s] obtain t st where
    tl: "tierLoop_p2 rnd md margin targetMin targetMax dayTotalRemaining ?avail ?fresh
           (expensiveFirstOf ?avail) (expensiveFirstOf ?fresh)
           (effortMultiplier_p2 currentFailures) baseAttempts k = (Some (t, st), k')"
    and b: "b = (formatResult (currentBill st) (currentTotal st) targetMax d)
                  \<lparr>tempUsedMap := Some (tempUsed st)\<rparr>"
    by blast
  from tierLoop_p2_Some[OF tl] obtain pool picks k1 where
    pool: "pool = expensiveFirstOf ?fresh \<or> pool = expensiveFirstOf ?avail
           \<or> (\<exists>k0. pool = fst (shuffleArray rnd (?fresh, k0)))
           \<or> (\<exists>k0. pool = fst (shuffleArray rnd (?avail, k0)))"
    and tf: "takenFrom pool picks" and tr: "tracks picks (newAttempt k1) st"
    by blast
  have pg: "set pool \<subseteq> set ?avail \<and> distinct (map Item_Details pool)"
  proof -
    from pool consider
      (f) k0 where "pool = expensiveFirstOf ?fresh \<or> pool = fst (shuffleArray rnd (?fresh, k0))"
      | (a) k0 where "pool = expensiveFirstOf ?avail \<or> pool = fst (shuffleArray rnd (?avail, k0))"
      by blast
    then show ?thesis
    proof cases
      case f
      from pool_good[OF freshItemsOf_subset freshItemsOf_distinct[OF wf] rok f] show ?thesis .
    next
      case a
      from pool_good[OF subset_refl availableItemsOf_distinct[OF wf] rok a] show ?thesis .
    qed
  qed
  then have pg1: "set pool \<subseteq> set ?avail" and pg2: "distinct (map Item_Details pool)" by simp_all
  from takenFrom_reorder[OF tf pg1 pg2] availableItemsOf_subset[of stock]
  have sub: "fst ` set picks \<subseteq> snd ` set stock"
    and dist: "distinct (map (\<lambda>p. Item_Details (fst p)) picks)" by auto
  have cb: "currentBill st = map mkEntry picks" using tr by (rule tracks_new_bill)
  have tu: "tempUsed st = map (\<lambda>p. (Item_Details (fst p), snd p)) picks"
    using tracks_new_tempUsed[OF tr] foldl_noteUsed_distinct[of "[]" picks] dist by simp
  from l have l': "l \<in> set (map (formatEntry d) (map mkEntry picks))"
    by (simp add: b items_formatResult cb formatResult_def)
  have "stock'' = foldl (\<lambda>m p. commitQty m (Item_Details (fst p)) (snd p)) stock picks"
    using c commitTempUsed_picks[of stock dailyUsedItemIds picks]
    by (simp add: commitTempUsed_def b same tu)
  with committed_line[OF wf sub dist l'] show ?thesis by simp
qed

subsection \<open>Attempts of part_000\<close>

lemma attemptInv_same: "sameGathered st st' \<Longrightarrow> attemptInv st \<Longrightarrow> attemptInv st'"
  by (simp add: sameGathered_def attemptInv_def)

lemma attemptInv_added: "addedEntry it q st st' \<Longrightarrow> attemptInv st \<Longrightarrow> attemptInv st'"
  by (simp add: addedEntry_def attemptInv_def)

lemma attemptInv_calls: "attemptInv (st\<lparr>calls := c\<rparr>) = attemptInv st"
  by (simp add: attemptInv_def)

lemma attemptInv_pushEntry: "attemptInv st \<Longrightarrow> attemptInv (pushEntry it q st)"
  using pushEntry_cases[of st it q] by (auto intro: attemptInv_same attemptInv_added)

lemma attemptInv_new: "attemptInv (newAttempt k)"
  by (simp add: attemptInv_def newAttempt_def)

lemma pickItem_p0_cases:
  "sameGathered st (pickItem_p0 rnd targetMax minItems it st)
   \<or> (\<exists>q. 0 < q \<and> addedEntry it q st (pickItem_p0 rnd targetMax minItems it st))"
proof (cases "getRem (tempUsed st) it \<le> 1 / 1000 \<or> targetMax - currentTotal st < 1")
  case True
  then have "pickItem_p0 rnd targetMax minItems it st = st"
    by (auto simp: pickItem_p0_def Let_def)
  then show ?thesis by (simp add: sameGathered_refl)
next
  case False
  then have "(case chooseQty rnd minItems False
                     (canSellInFloat it (targetMax - currentTotal st))
                     (absMaxOf (getRem (tempUsed st) it) (targetMax - currentTotal st) it) st of
                (None, st1) \<Rightarrow> st1 | (Some q, st1) \<Rightarrow> pushEntry it q st1)
             = pickItem_p0 rnd targetMax minItems it st"
    by (simp add: pickItem_p0_def Let_def)
  then show ?thesis by (rule chooseQty_pushEntry_cases)
qed

lemma attemptInv_pickItem_p0: "attemptInv st \<Longrightarrow> attemptInv (pickItem_p0 rnd targetMax minItems it st)"
  using pickItem_p0_cases[of st rnd targetMax minItems it]
  by (auto intro: attemptInv_same attemptInv_added)

lemma attemptInv_pickItems_p0:
  "attemptInv st \<Longrightarrow> attemptInv (pickItems_p0 rnd targetMin targetMax minItems pool st)"
proof (induction pool arbitrary: st)
  case Nil
  then show ?case by simp
next
  case (Cons it pool)
  obtain b st1 where d: "doneCondition rnd targetMin minItems False st = (b, st1)"
    by (cases "doneCondition rnd targetMin minItems False st")
  have i1: "attemptInv st1"
    using doneCondition_frame[OF d] Cons.prems by (rule attemptInv_same)
  show ?case
  proof (cases b)
    case True
    with d i1 show ?thesis by simp
  next
    case False
    with d have "pickItems_p0 rnd targetMin targetMax minItems (it # pool) st
                 = pickItems_p0 rnd targetMin targetMax minItems pool
                     (pickItem_p0 rnd targetMax minItems it st1)"
      by simp
    with Cons.IH[OF attemptInv_pickItem_p0[OF i1]] show ?thesis by simp
  qed
qed

lemma attemptInv_exactFill_p0:
  "attemptInv st \<Longrightarrow> attemptInv (exactFill_p0 rnd targetMax randomItems n st)"
proof (induction n arbitrary: st)
  case 0
  then show ?case by simp
next
  case (Suc n)
  have a: "attemptInv (st\<lparr>calls := calls st + 1\<rparr>)" using Suc.prems by (simp add: attemptInv_calls)
  have b: "attemptInv (pushEntry r q (st\<lparr>calls := calls st + 1, calls := c\<rparr>))" for r q c
    using Suc.prems by (intro attemptInv_pushEntry) (simp add: attemptInv_calls)
  show ?case
    using Suc.prems Suc.IH[OF a] Suc.IH[OF b]
    by (simp add: Let_def)
qed

lemma attemptInv_sniperFill_p0:
  "attemptInv st \<Longrightarrow> attemptInv (sniperFill_p0 targetMax availableItems minItems st)"
  by (auto simp: sniperFill_p0_def Let_def attemptInv_def split: option.splits)

lemma attemptLoop_p0_end:
  "\<not> attemptNo < maxAttempts \<Longrightarrow>
   attemptLoop_p0 rnd md margin targetMin targetMax dayTotalRemaining availableItems minItems
     maxAttempts randomItems attemptNo k = (None, k)"
  by (subst attemptLoop_p0.simps) simp

lemma attemptLoop_p0_step:
  assumes "attemptNo < maxAttempts"
    and "st0 = (case md of
                  RANGE \<Rightarrow> pickItems_p0 rnd targetMin targetMax minItems randomItems (newAttempt k)
                | EXACT \<Rightarrow> sniperFill_p0 targetMax availableItems minItems
                            (exactFill_p0 rnd targetMax randomItems (minItems - 1) (newAttempt k)))"
    and "shuffleArray rnd (randomItems, calls st0) = (randomItems', k1)"
  shows "attemptLoop_p0 rnd md margin targetMin targetMax dayTotalRemaining availableItems minItems
           maxAttempts randomItems attemptNo k
         = (if isValid md margin targetMin targetMax minItems st0 \<and> safeLanding dayTotalRemaining margin st0
            then (Some st0, calls st0)
            else attemptLoop_p0 rnd md margin targetMin targetMax dayTotalRemaining availableItems
                   minItems maxAttempts randomItems' (attemptNo + 1) k1)"
  using assms by (subst attemptLoop_p0.simps) (simp add: Let_def)

lemma attemptLoop_p0_Some:
  "attemptLoop_p0 rnd md margin targetMin targetMax dayTotalRemaining availableItems minItems
       maxAttempts randomItems attemptNo k = (Some st, k')
   \<Longrightarrow> isValid md margin targetMin targetMax minItems st \<and> safeLanding dayTotalRemaining margin st
       \<and> attemptInv st"
proof (induction rnd md margin targetMin targetMax dayTotalRemaining availableItems minItems
         maxAttempts randomItems attemptNo k rule: attemptLoop_p0.induct)
  case (1 rnd md margin targetMin targetMax dayTotalRemaining availableItems minItems
          maxAttempts randomItems attemptNo k)
  show ?case
  proof (cases "attemptNo < maxAttempts")
    case False
    with "1.prems" show ?thesis by (simp add: attemptLoop_p0_end)
  next
    case lt: True
    define st0 where "st0 = (case md of
                  RANGE \<Rightarrow> pickItems_p0 rnd targetMin targetMax minItems randomItems (newAttempt k)
                | EXACT \<Rightarrow> sniperFill_p0 targetMax availableItems minItems
                            (exactFill_p0 rnd targetMax randomItems (minItems - 1) (newAttempt k)))"
    have inv: "attemptInv st0"
      unfolding st0_def
      by (cases md)
         (simp_all add: attemptInv_pickItems_p0 attemptInv_sniperFill_p0 attemptInv_exactFill_p0
            attemptInv_new)
    obtain randomItems' k1 where sh: "shuffleArray rnd (randomItems, calls st0) = (randomItems', k1)"
      by (cases "shuffleArray rnd (randomItems, calls st0)")
    note step = attemptLoop_p0_step[OF lt st0_def sh, of margin dayTotalRemaining]
    show ?thesis
    proof (cases "isValid md margin targetMin targetMax minItems st0 \<and> safeLanding dayTotalRemaining margin st0")
      case True
      with step "1.prems" have "st = st0" by simp
      with True inv show ?thesis by simp
    next
      case False
      with step "1.prems" have r: "attemptLoop_p0 rnd md margin targetMin targetMax dayTotalRemaining
          availableItems minItems maxAttempts randomItems' (attemptNo + 1) k1 = (Some st, k')"
        by simp
      show ?thesis
        by (rule "1.IH"[OF lt st0_def False sh[symmetric] r])
    qed
  qed
qed

lemma tierLoop_p0_Some:
  "tierLoop_p0 rnd md margin targetMin targetMax dayTotalRemaining availableItems effort tiers k
     = (Some (t, st), k')
   \<Longrightarrow> t \<in> set tiers \<and> count t \<le> length availableItems
       \<and> isValid md margin targetMin targetMax (count t) st
       \<and> safeLanding dayTotalRemaining margin st \<and> attemptInv st"
proof (induction tiers arbitrary: k)
  case Nil
  then show ?case by simp
next
  case (Cons t0 tiers)
  show ?case
  proof (cases "length availableItems < count t0")
    case True
    with Cons.prems have "tierLoop_p0 rnd md margin targetMin targetMax dayTotalRemaining availableItems
        effort tiers k = (Some (t, st), k')"
      by (simp add: Let_def)
    from Cons.IH[OF this] show ?thesis by simp
  next
    case False
    obtain randomItems k0 where sh: "shuffleArray rnd (availableItems, k) = (randomItems, k0)"
      by (cases "shuffleArray rnd (availableItems, k)")
    obtain r k1 where a: "attemptLoop_p0 rnd md margin targetMin targetMax dayTotalRemaining availableItems
                   (count t0) (max 1 (nat \<lfloor>of_nat (attempts t0) * effort\<rfloor>)) randomItems 0 k0 = (r, k1)"
      by (cases "attemptLoop_p0 rnd md margin targetMin targetMax dayTotalRemaining availableItems
                   (count t0) (max 1 (nat \<lfloor>of_nat (attempts t0) * effort\<rfloor>)) randomItems 0 k0")
    show ?thesis
    proof (cases r)
      case None
      with False sh a Cons.prems have "tierLoop_p0 rnd md margin targetMin targetMax dayTotalRemaining
          availableItems effort tiers k1 = (Some (t, st), k')"
        by (simp add: Let_def)
      from Cons.IH[OF this] show ?thesis by simp
    next
      case (Some st0)
      with False sh a Cons.prems have e: "t = t0" "st = st0" by (simp_all add: Let_def)
      from attemptLoop_p0_Some[OF a[unfolded Some]] e False show ?thesis by simp
    qed
  qed
qed

lemma generateBillFromMap_p0_success:
  assumes g: "generateBillFromMap_p0 rnd stock targetMin targetMax dayTotalRemaining d margin md
                currentFailures billCounter k = (b, stock', billCounter', k')"
    and s: "success b"
  shows "\<exists>t st. tierLoop_p0 rnd md margin targetMin targetMax dayTotalRemaining (availableItemsOf stock)
                   (effortMultiplier_p0 currentFailures) baseAttempts k = (Some (t, st), k')
                \<and> b = formatResult (currentBill st) (currentTotal st) targetMax d
                \<and> stock' = commitBill stock (currentBill st)"
proof (cases "length (availableItemsOf stock) = 0")
  case True
  with g have "b = failure (Some ''No items available'')" by (simp add: generateBillFromMap_p0_def)
  with s show ?thesis by (simp add: not_success_failure)
next
  case False
  obtain r k1 where tl: "tierLoop_p0 rnd md margin targetMin targetMax dayTotalRemaining
                   (availableItemsOf stock) (effortMultiplier_p0 currentFailures) baseAttempts k = (r, k1)"
    by (cases "tierLoop_p0 rnd md margin targetMin targetMax dayTotalRemaining
                   (availableItemsOf stock) (effortMultiplier_p0 currentFailures) baseAttempts k")
  show ?thesis
  proof (cases r)
    case None
    with False tl g have "b = failure None" by (simp add: generateBillFromMap_p0_def Let_def)
    with s show ?thesis by (simp add: not_success_failure)
  next
    case (Some ts)
    obtain t st where ts: "ts = (t, st)" by (cases ts)
    from False tl g Some ts have "b = formatResult (currentBill st) (currentTotal st) targetMax d"
        "stock' = commitBill stock (currentBill st)" "k' = k1"
      by (simp_all add: generateBillFromMap_p0_def Let_def)
    with tl Some ts show ?thesis by simp
  qed
qed

lemma generateBillFromMap_p0_failure:
  assumes g: "generateBillFromMap_p0 rnd stock targetMin targetMax dayTotalRemaining d margin md
                currentFailures billCounter k = (b, stock', billCounter', k')"
    and s: "\<not> success b"
  shows "stock' = stock"
proof (cases "length (availableItemsOf stock) = 0")
  case True
  with g show ?thesis by (simp add: generateBillFromMap_p0_def)
next
  case False
  obtain r k1 where tl: "tierLoop_p0 rnd md margin targetMin targetMax dayTotalRemaining
                   (availableItemsOf stock) (effortMultiplier_p0 currentFailures) baseAttempts k = (r, k1)"
    by (cases "tierLoop_p0 rnd md margin targetMin targetMax dayTotalRemaining
                   (availableItemsOf stock) (effortMultiplier_p0 currentFailures) baseAttempts k")
  show ?thesis
  proof (cases r)
    case None
    with False tl g show ?thesis by (simp add: generateBillFromMap_p0_def Let_def)
  next
    case (Some ts)
    obtain t st where ts: "ts = (t, st)" by (cases ts)
    from False tl g Some ts have "b = formatResult (currentBill st) (currentTotal st) targetMax d"
      by (simp add: generateBillFromMap_p0_def Let_def)
    with s show ?thesis by (simp add: success_formatResult)
  qed
qed

subsection \<open>The legacy composer\<close>

lemma untouched_pushLine:
  "untouched_legacy stock (pushLine_legacy productName it d finalQty finalItemTotal st)"
  by (simp add: untouched_legacy_def pushLine_legacy_def Let_def)

lemma untouched_offerItem:
  "untouched_legacy stock st \<Longrightarrow>
   untouched_legacy stock (offerItem_legacy productName it expectedItems billTarget d margin st)"
  by (simp add: offerItem_legacy_def Let_def untouched_pushLine)

lemma untouched_cong:
  "result_legacy st' = result_legacy st \<Longrightarrow> stock_legacy st' = stock_legacy st \<Longrightarrow>
   untouched_legacy stock st \<Longrightarrow> untouched_legacy stock st'"
  by (simp add: untouched_legacy_def)

lemma untouched_pickStep:
  assumes "untouched_legacy stock st"
  shows "untouched_legacy stock (pickStep_legacy allItems expectedItems minItems billTarget d margin st)"
proof -
  define productName where "productName = allItems ! startIndex_legacy st"
  define it where "it = the (map_of (stock_legacy st) productName)"
  define st1 where "st1 = offerItem_legacy productName it expectedItems billTarget d margin st"
  have u1: "untouched_legacy stock st1"
    unfolding st1_def using assms by (rule untouched_offerItem)
  show ?thesis
  proof (cases "remainingQty_legacy it \<le> 0")
    case True
    then show ?thesis
      using assms
      by (simp add: pickStep_legacy_def Let_def productName_def[symmetric] it_def[symmetric]
            untouched_legacy_def)
  next
    case False
    then show ?thesis
      using u1
      by (simp add: pickStep_legacy_def Let_def productName_def[symmetric] it_def[symmetric]
            st1_def[symmetric] untouched_legacy_def)
  qed
qed

lemma untouched_pickLoop:
  "untouched_legacy stock st \<Longrightarrow>
   untouched_legacy stock (pickLoop_legacy allItems expectedItems minItems billTarget d margin st)"
proof (induction allItems expectedItems minItems billTarget d margin st rule: pickLoop_legacy.induct)
  case (1 allItems expectedItems minItems billTarget d margin st)
  define again where
    "again = (pickedCount_legacy st < expectedItems \<and> \<not> looped_legacy st
              \<and> iterationCount_legacy st < length allItems * 2)"
  have unfold: "pickLoop_legacy allItems expectedItems minItems billTarget d margin st
      = (if again
         then pickLoop_legacy allItems expectedItems minItems billTarget d margin
                ((pickStep_legacy allItems expectedItems minItems billTarget d margin st)
                   \<lparr>iterationCount_legacy := iterationCount_legacy st + 1\<rparr>)
         else st)"
    unfolding again_def by (rule pickLoop_legacy.simps)
  show ?case
  proof (cases again)
    case True
    have "untouched_legacy stock
            ((pickStep_legacy allItems expectedItems minItems billTarget d margin st)
               \<lparr>iterationCount_legacy := iterationCount_legacy st + 1\<rparr>)"
      using untouched_pickStep[OF "1.prems"] by (simp add: untouched_legacy_def)
    from "1.IH"[OF True[unfolded again_def] this] True show ?thesis
      by (simp only: unfold if_True)
  next
    case False
    with "1.prems" show ?thesis by (simp only: unfold if_False)
  qed
qed

lemma pickLoop_legacy_fresh:
  assumes "result_legacy st = []" "stock_legacy st = stock"
    and "result_legacy (pickLoop_legacy allItems expectedItems minItems billTarget d margin st) = []"
  shows "stock_legacy (pickLoop_legacy allItems expectedItems minItems billTarget d margin st) = stock"
proof -
  from assms(2) have "untouched_legacy stock st" by (simp add: untouched_legacy_def)
  from untouched_pickLoop[OF this, of allItems expectedItems minItems billTarget d margin] assms(3)
  show ?thesis by (simp add: untouched_legacy_def)
qed

lemma generateBillFromMap_legacy_failure:
  assumes "generateBillFromMap_legacy rnd stock billTarget d margin billCounter lastStartIndex k
             = (b, stock', billCounter', lastStartIndex', k')"
    and "items_legacy b = []"
  shows "stock' = stock"
proof (cases "allItemsOf_legacy stock = []")
  case True
  with assms(1) show ?thesis by (simp add: generateBillFromMap_legacy_def Let_def)
next
  case False
  with assms show ?thesis
    by (auto simp: generateBillFromMap_legacy_def Let_def intro!: pickLoop_legacy_fresh
          split: if_splits)
qed

lemma demo_fail_legacy:
  "generateBillFromMap_legacy (\<lambda>_. 0) [(''Rice'', rice)] 20 ''2024-01-01'' 5 0 0 0
     = (\<lparr>items_legacy = [], billTotal_legacy = 0, targetAmount_legacy = Some 20,
          success_legacy = None\<rparr>, [(''Rice'', rice)], 1, 3, 1)"
  by code_simp

lemma demo_run_legacy:
  "generateBillFromMap_legacy (\<lambda>_. 0) [(''Rice'', rice)] 1000 ''2024-01-01'' 5 0 0 0
     = (\<lparr>items_legacy = [\<lparr>name = ''Rice'', itemQty = 10, unitPrice = 100, gstPercent = 0,
                             cessPercent = 0, mrp = 0, cessTaxAmount = 0, itemTotal = 1000,
                             date = ''2024-01-01''\<rparr>],
          billTotal_legacy = 1000, targetAmount_legacy = Some 1000, success_legacy = None\<rparr>,
        [(''Rice'', rice\<lparr>Amount_legacy := 0, remainingQty_legacy := 0\<rparr>)], 1, 3, 1)"
  by code_simp

subsection \<open>Runs on the example ledger\<close>

lemma commitTempUsed_fst:
  "fst (foldl (\<lambda>(m, u) (n, q). (commitQty m n q, insert n u)) (m0, u0) tu)
     = foldl (\<lambda>m p. commitQty m (fst p) (snd p)) m0 tu"
  by (induction tu arbitrary: m0 u0) (simp_all add: case_prod_beta)

lemma distinct_foldl_noteUsed:
  "distinct (map fst tu) \<Longrightarrow> distinct (map fst (foldl noteUsed tu picks))"
  by (induction picks arbitrary: tu) (simp_all add: noteUsed_def distinct_update)

lemma demo_run:
  "generateBillFromMap (\<lambda>_. 0) [(''Tea'', tea)] 100 300 1000 ''2024-01-01'' 5 RANGE 2001 0
   = (\<lparr>items = [\<lparr>name = ''Tea'', itemQty = 1, unitPrice = 100, gstPercent = 0, cessPercent = 0,
                  mrp = 0, cessTaxAmount = 0, itemTotal = 100, date = ''2024-01-01''\<rparr>],
       total = 100, targetAmount = Some 300, success = True, reason = None, tempUsedMap = None\<rparr>,
      [(''Tea'', tea\<lparr>remainingQty := 9\<rparr>)], 1)"
  by code_simp

lemma demo_run_p2:
  "generateBillFromMap_p2 (\<lambda>_. 0) [(''Tea'', tea)] 100 100 100 ''2024-01-01'' 50 EXACT 401 {} 0 0
   = (\<lparr>items = [\<lparr>name = ''Tea'', itemQty = 1, unitPrice = 100, gstPercent = 0, cessPercent = 0,
                  mrp = 0, cessTaxAmount = 0, itemTotal = 100, date = ''2024-01-01''\<rparr>],
       total = 100, targetAmount = Some 100, success = True, reason = None,
       tempUsedMap = Some [(''Tea'', 1)]\<rparr>,
      [(''Tea'', tea)], 1, 1)"
  by code_simp

lemma demo_fail:
  "generateBillFromMap (\<lambda>_. 0) [(''Tea'', tea)] 5000 6000 20000 ''2024-01-01'' 5 RANGE 2001 0
   = (\<lparr>items = [], total = 0, targetAmount = None, success = False, reason = None,
       tempUsedMap = None\<rparr>, [(''Tea'', tea)], 1)"
  by code_simp

lemma demo_fail_p2:
  "generateBillFromMap_p2 (\<lambda>_. 0) [(''Tea'', tea)] 5000 6000 20000 ''2024-01-01'' 5 RANGE 401 {} 7 0
   = (\<lparr>items = [], total = 0, targetAmount = None, success = False, reason = None,
       tempUsedMap = None\<rparr>, [(''Tea'', tea)], 8, 1)"
  by code_simp

lemma demo_run_p0:
  "generateBillFromMap_p0 (\<lambda>_. 0) [(''Tea'', tea)] 100 100 100 ''2024-01-01'' 50 EXACT 2001 0 0
   = (\<lparr>items = [\<lparr>name = ''Tea'', itemQty = 1, unitPrice = 100, gstPercent = 0, cessPercent = 0,
                  mrp = 0, cessTaxAmount = 0, itemTotal = 100, date = ''2024-01-01''\<rparr>],
       total = 100, targetAmount = Some 100, success = True, reason = None, tempUsedMap = None\<rparr>,
      [(''Tea'', tea\<lparr>remainingQty := 9\<rparr>)], 1, 0)"
  by code_simp

lemma demo_fail_p0:
  "generateBillFromMap_p0 (\<lambda>_. 0) [(''Tea'', tea)] 5000 6000 20000 ''2024-01-01'' 5 RANGE 2001 7 0
   = (\<lparr>items = [], total = 0, targetAmount = None, success = False, reason = None,
       tempUsedMap = None\<rparr>, [(''Tea'', tea)], 8, 1)"
  by code_simp

lemma demo_commit_p2:
  "commitTempUsed ([(''Tea'', tea)], {})
     \<lparr>items = [\<lparr>name = ''Tea'', itemQty = 1, unitPrice = 100, gstPercent = 0, cessPercent = 0,
                 mrp = 0, cessTaxAmount = 0, itemTotal = 100, date = ''2024-01-01''\<rparr>],
      total = 100, targetAmount = Some 100, success = True, reason = None,
      tempUsedMap = Some [(''Tea'', 1)]\<rparr>
   = ([(''Tea'', tea\<lparr>remainingQty := 9\<rparr>)], {''Tea''})"
  by code_simp

lemma wf_demo: "wf_stock [(''Tea'', tea)]"
  by (simp add: wf_stock_def tea_def)

lemma rng_ok_zero: "rng_ok (\<lambda>_. 0)"
  by (simp add: rng_ok_def)

subsection \<open>More facts for the claims\<close>

lemma lines_of_name:
  "map itemQty (filter (\<lambda>l. name l = n) (map (formatEntry d) (map mkEntry picks)))
     = map snd (filter (\<lambda>p. Item_Details (fst p) = n) picks)"
  by (induction picks) (simp_all add: name_formatEntry itemQty_formatEntry)

lemma names_of_lines:
  "name ` set (map (formatEntry d) (map mkEntry picks)) = (\<lambda>p. Item_Details (fst p)) ` set picks"
  by (induction picks) (simp_all add: name_formatEntry)






lemma overdraw_run:
  "generateBillFromMap (\<lambda>_. 0) [(''Spice'', spice), (''Oil'', oil)] 253 10000 20000
     ''2024-01-01'' 5 RANGE 2001 0
   = (\<lparr>items = [\<lparr>name = ''Oil'', itemQty = 1 / 4, unitPrice = 1000, gstPercent = 0, cessPercent = 0,
                  mrp = 0, cessTaxAmount = 0, itemTotal = 250, date = ''2024-01-01''\<rparr>,
                 \<lparr>name = ''Spice'', itemQty = 4 / 100, unitPrice = 100, gstPercent = 0, cessPercent = 0,
                  mrp = 0, cessTaxAmount = 0, itemTotal = 4, date = ''2024-01-01''\<rparr>],
       total = 254, targetAmount = Some 10000, success = True, reason = None, tempUsedMap = None\<rparr>,
      [(''Spice'', spice\<lparr>remainingQty := - (1 / 1000)\<rparr>), (''Oil'', oil\<lparr>remainingQty := 1 / 4\<rparr>)], 3)"
  by code_simp

subsection \<open>The day loop\<close>

lemma dayLoop_done:
  "\<not> dateAccumulated < dayTarget \<Longrightarrow>
   dayLoop rnd minBill maxBill d dayTarget (dateAccumulated, consecutiveFailures, r)
     = Some (dateAccumulated, consecutiveFailures, r)"
  by (subst dayLoop.simps) simp

lemma dayLoop_step:
  assumes "dateAccumulated < dayTarget"
    and "nextRequest minBill maxBill (dayTarget - dateAccumulated) consecutiveFailures
           = (md, targetMin, targetMax, currentMargin)"
    and "generateBillFromMap rnd (stockMap r) targetMin targetMax (dayTarget - dateAccumulated) d
           currentMargin md consecutiveFailures (randomCalls r) = (b, stock', k')"
  shows "dayLoop rnd minBill maxBill d dayTarget (dateAccumulated, consecutiveFailures, r)
         = (if success b
            then dayLoop rnd minBill maxBill d dayTarget
                   (dateAccumulated + total b, 0,
                    r\<lparr>stockMap := stock', allGeneratedBills := allGeneratedBills r @ [b],
                      randomCalls := k'\<rparr>)
            else if consecutiveFailures + 1 > 5000
            then Some (dateAccumulated, consecutiveFailures + 1,
                       skipDay d dayTarget dateAccumulated (r\<lparr>stockMap := stock', randomCalls := k'\<rparr>))
            else dayLoop rnd minBill maxBill d dayTarget
                   (dateAccumulated, consecutiveFailures + 1, r\<lparr>stockMap := stock', randomCalls := k'\<rparr>))"
  using assms by (subst dayLoop.simps) (simp add: Let_def)

lemma skipDay_critical: "criticalLogged d r (skipDay d dayTarget 0 r)"
  by (simp add: skipDay_def criticalLogged_def logBoth_def Let_def)

lemma criticalLogged_cong:
  "console r0 = console r \<Longrightarrow> logList r0 = logList r \<Longrightarrow> criticalLogged d r0 r' \<Longrightarrow> criticalLogged d r r'"
  by (simp add: criticalLogged_def)

text \<open>The loop leaves with more than 5000 consecutive failures only through the skip logic.\<close>

lemma dayLoop_exit:
  assumes "dayLoop rnd minBill maxBill d dayTarget s = Some y"
  shows "fst (snd s) \<le> 5000 \<Longrightarrow> fst (snd y) > 5000 \<Longrightarrow> fst y = 0
         \<Longrightarrow> criticalLogged d (snd (snd s)) (snd (snd y))"
proof (induction rnd minBill maxBill d dayTarget s y rule: dayLoop.raw_induct)
  case (1 loop rnd minBill maxBill d dayTarget s y)
  obtain acc cf r where s: "s = (acc, cf, r)" by (cases s)
  from "1.prems"(1) s have cf: "cf \<le> 5000" by simp
  show ?case
  proof (cases "acc < dayTarget")
    case False
    with "1.hyps" s have "y = s" by simp
    with "1.prems"(2) cf s show ?thesis by simp
  next
    case True
    obtain md targetMin targetMax currentMargin where
      n: "nextRequest minBill maxBill (dayTarget - acc) cf = (md, targetMin, targetMax, currentMargin)"
      by (cases "nextRequest minBill maxBill (dayTarget - acc) cf")
    obtain b stock' k' where
      g: "generateBillFromMap rnd (stockMap r) targetMin targetMax (dayTarget - acc) d currentMargin md cf
            (randomCalls r) = (b, stock', k')"
      by (cases "generateBillFromMap rnd (stockMap r) targetMin targetMax (dayTarget - acc) d
                   currentMargin md cf (randomCalls r)")
    define r1 where "r1 = r\<lparr>stockMap := stock', allGeneratedBills := allGeneratedBills r @ [b],
                            randomCalls := k'\<rparr>"
    define r2 where "r2 = r\<lparr>stockMap := stock', randomCalls := k'\<rparr>"
    show ?thesis
    proof (cases "success b")
      case sb: True
      with "1.hyps" True n g
      have "loop rnd minBill maxBill d dayTarget (acc + total b, 0, r1) = Some y"
        by (simp add: s Let_def r1_def)
      from "1.IH"[OF this] "1.prems"(2,3)
      have "criticalLogged d r1 (snd (snd y))" by simp
      then show ?thesis by (simp add: s r1_def criticalLogged_def)
    next
      case nb: False
      show ?thesis
      proof (cases "cf + 1 > 5000")
        case over: True
        with "1.hyps" True n g nb have y: "y = (acc, cf + 1, skipDay d dayTarget acc r2)"
          by (simp add: s Let_def r2_def)
        with "1.prems"(3) have "acc = 0" by simp
        with y skipDay_critical[of d r2 dayTarget] show ?thesis
          by (simp add: s r2_def criticalLogged_def)
      next
        case under: False
        with "1.hyps" True n g nb
        have "loop rnd minBill maxBill d dayTarget (acc, cf + 1, r2) = Some y"
          by (simp add: s Let_def r2_def)
        from "1.IH"[OF this] under "1.prems"(2,3)
        have "criticalLogged d r2 (snd (snd y))" by simp
        then show ?thesis by (simp add: s r2_def criticalLogged_def)
      qed
    qed
  qed
qed (rule assms)

lemma processDays_aborted: "abortAll r \<Longrightarrow> processDays rnd minBill maxBill dateAmountTargets r = Some r"
  by (cases dateAmountTargets) auto

subsection \<open>A day on an empty stock map\<close>

lemma generateBillFromMap_empty:
  "generateBillFromMap rnd [] targetMin targetMax dayTotalRemaining d margin md currentFailures k
     = (failure (Some ''No items''), [], k)"
  by (simp add: generateBillFromMap_def availableItemsOf_def)

lemma dayLoop_empty_stock:
  assumes "stockMap r = []" "0 < dayTarget"
  shows "consecutiveFailures \<le> 5000 \<Longrightarrow>
         dayLoop rnd minBill maxBill d dayTarget (0, consecutiveFailures, r)
           = Some (0, 5001, skipDay d dayTarget 0 r)"
proof (induction "5000 - consecutiveFailures" arbitrary: consecutiveFailures)
  case 0
  then have cf: "consecutiveFailures = 5000" by simp
  obtain md targetMin targetMax currentMargin where
    n: "nextRequest minBill maxBill (dayTarget - 0) consecutiveFailures
          = (md, targetMin, targetMax, currentMargin)"
    by (cases "nextRequest minBill maxBill (dayTarget - 0) consecutiveFailures")
  have same: "r\<lparr>stockMap := [], randomCalls := randomCalls r\<rparr> = r"
    using assms(1) by (cases r) simp
  from dayLoop_step[OF assms(2) n, of rnd r d, unfolded assms(1) generateBillFromMap_empty, OF refl]
  show ?case by (simp add: cf not_success_failure same)
next
  case (Suc n)
  then have lt: "consecutiveFailures < 5000" and m: "n = 5000 - (consecutiveFailures + 1)"
    and le: "consecutiveFailures + 1 \<le> 5000" by simp_all
  obtain md targetMin targetMax currentMargin where
    n: "nextRequest minBill maxBill (dayTarget - 0) consecutiveFailures
          = (md, targetMin, targetMax, currentMargin)"
    by (cases "nextRequest minBill maxBill (dayTarget - 0) consecutiveFailures")
  have same: "r\<lparr>stockMap := [], randomCalls := randomCalls r\<rparr> = r"
    using assms(1) by (cases r) simp
  from dayLoop_step[OF assms(2) n, of rnd r d, unfolded assms(1) generateBillFromMap_empty, OF refl]
  have "dayLoop rnd minBill maxBill d dayTarget (0, consecutiveFailures, r)
          = dayLoop rnd minBill maxBill d dayTarget (0, consecutiveFailures + 1, r)"
    using lt by (simp add: not_success_failure same)
  with Suc.hyps(1)[OF m le] show ?case by simp
qed

lemma emptyRun_day:
  "dayLoop (\<lambda>_. 0) 100 1000 ''2024-01-01'' 500 (0, 0, emptyRun)
     = Some (0, 5001, emptyRun\<lparr>hasSkipped := True, abortAll := True,
                               console := [CriticalError ''2024-01-01''],
                               logList := Some [CriticalError ''2024-01-01'']\<rparr>)"
proof -
  have "skipDay ''2024-01-01'' 500 0 emptyRun
          = emptyRun\<lparr>hasSkipped := True, abortAll := True,
                      console := [CriticalError ''2024-01-01''],
                      logList := Some [CriticalError ''2024-01-01'']\<rparr>"
    by (simp add: skipDay_def logBoth_def emptyRun_def Let_def)
  with dayLoop_empty_stock[of emptyRun 500 0 "\<lambda>_. 0" 100 1000 "''2024-01-01''"]
  show ?thesis by (simp add: emptyRun_def)
qed

subsection \<open>The day loop of part_002\<close>

lemma dayLoop_p2_done:
  "\<not> dateAccumulated < dayTarget \<Longrightarrow>
   dayLoop_p2 rnd minBill maxBill d dayTarget
      (dateAccumulated, consecutiveFailures, todaysBills, dailyUsedItemIds, billCounter, r)
     = Some (dateAccumulated, consecutiveFailures, todaysBills, dailyUsedItemIds, billCounter, r)"
  by (subst dayLoop_p2.simps) simp

lemma dayLoop_p2_fail_step:
  assumes "dateAccumulated < dayTarget" "\<not> dayTarget - dateAccumulated \<le> 5"
    and "nextRequest_p2 minBill maxBill (dayTarget - dateAccumulated) consecutiveFailures
           (rnd (randomCalls r)) = (md, targetMin, targetMax, currentMargin)"
    and "generateBillFromMap_p2 rnd (stockMap r) targetMin targetMax (dayTarget - dateAccumulated) d
           currentMargin md consecutiveFailures dailyUsedItemIds billCounter (randomCalls r + 1)
           = (b, stock', billCounter', k')"
    and "\<not> success b"
  shows "dayLoop_p2 rnd minBill maxBill d dayTarget
           (dateAccumulated, consecutiveFailures, todaysBills, dailyUsedItemIds, billCounter, r)
         = (if consecutiveFailures + 1 > 500
            then Some (dateAccumulated, consecutiveFailures + 1, todaysBills, dailyUsedItemIds,
                       billCounter',
                       skipDay_p2 d dayTarget dateAccumulated (r\<lparr>stockMap := stock', randomCalls := k'\<rparr>))
            else dayLoop_p2 rnd minBill maxBill d dayTarget
                   (dateAccumulated, consecutiveFailures + 1, todaysBills, dailyUsedItemIds,
                    billCounter', r\<lparr>stockMap := stock', randomCalls := k'\<rparr>))"
  using assms by (subst dayLoop_p2.simps) (simp add: Let_def)

lemma skipDay_p2_noBills: "noBillsLogged d r (skipDay_p2 d dayTarget 0 r)"
  by (simp add: skipDay_p2_def noBillsLogged_def logBoth_def Let_def)

text \<open>The loop leaves with more than 500 consecutive failures only through the skip logic.\<close>

lemma dayLoop_p2_exit:
  assumes "dayLoop_p2 rnd minBill maxBill d dayTarget s = Some y"
  shows "fst (snd s) \<le> 500 \<Longrightarrow> fst (snd y) > 500 \<Longrightarrow> fst y = 0
         \<Longrightarrow> noBillsLogged d (runOf s) (runOf y)"
proof (induction rnd minBill maxBill d dayTarget s y rule: dayLoop_p2.raw_induct)
  case (1 loop rnd minBill maxBill d dayTarget s y)
  obtain acc cf tb used bc r where s: "s = (acc, cf, tb, used, bc, r)" by (cases s)
  from "1.prems"(1) s have cf: "cf \<le> 500" by simp
  show ?case
  proof (cases "acc < dayTarget \<and> \<not> dayTarget - acc \<le> 5")
    case False
    with "1.hyps" s have "y = s" by (auto simp: Let_def split: if_splits)
    with "1.prems"(2) cf s show ?thesis by simp
  next
    case True
    then have lt: "acc < dayTarget" and far: "\<not> dayTarget - acc \<le> 5" by simp_all
    obtain md targetMin targetMax currentMargin where
      n: "nextRequest_p2 minBill maxBill (dayTarget - acc) cf (rnd (randomCalls r))
            = (md, targetMin, targetMax, currentMargin)"
      by (cases "nextRequest_p2 minBill maxBill (dayTarget - acc) cf (rnd (randomCalls r))")
    obtain b stock' bc' k' where
      g: "generateBillFromMap_p2 rnd (stockMap r) targetMin targetMax (dayTarget - acc) d currentMargin
            md cf used bc (randomCalls r + 1) = (b, stock', bc', k')"
      by (cases "generateBillFromMap_p2 rnd (stockMap r) targetMin targetMax (dayTarget - acc) d
                   currentMargin md cf used bc (randomCalls r + 1)")
    define r2 where "r2 = r\<lparr>stockMap := stock', randomCalls := k'\<rparr>"
    have keep: "noBillsLogged d r2 z \<Longrightarrow> noBillsLogged d r z" for z
      by (simp add: r2_def noBillsLogged_def)
    show ?thesis
    proof (cases "success b")
      case sb: True
      define repeat where
        "repeat = (total b \<in> set (map total (slice_last3 (slice_last3 (allGeneratedBills r) @ slice_last3 tb)))
                   \<and> cf < 50 \<and> md \<noteq> EXACT)"
      show ?thesis
      proof (cases repeat)
        case True
        with "1.hyps" lt far n g sb
        have "loop rnd minBill maxBill d dayTarget (acc, cf + 1, tb, used, bc', r2) = Some y"
          by (simp add: s Let_def r2_def repeat_def)
        moreover from True have "cf + 1 \<le> 500" by (simp add: repeat_def)
        ultimately have "noBillsLogged d r2 (runOf y)"
          using "1.IH"[of rnd minBill maxBill d dayTarget "(acc, cf + 1, tb, used, bc', r2)" y]
            "1.prems"(2,3) by (simp add: runOf_def)
        then show ?thesis by (simp add: s runOf_def keep)
      next
        case False
        obtain stock'' used' where c: "commitTempUsed (stock', used) b = (stock'', used')"
          by (cases "commitTempUsed (stock', used) b")
        define r3 where "r3 = r\<lparr>stockMap := stock'', randomCalls := k'\<rparr>"
        from False "1.hyps" lt far n g sb c
        have "loop rnd minBill maxBill d dayTarget (acc + total b, 0, tb @ [b], used', bc', r3) = Some y"
          by (auto simp: s Let_def r3_def repeat_def)
        then have "noBillsLogged d r3 (runOf y)"
          using "1.IH"[of rnd minBill maxBill d dayTarget "(acc + total b, 0, tb @ [b], used', bc', r3)" y]
            "1.prems"(2,3) by (simp add: runOf_def)
        then show ?thesis by (simp add: s runOf_def r3_def noBillsLogged_def)
      qed
    next
      case nb: False
      show ?thesis
      proof (cases "cf + 1 > 500")
        case over: True
        with "1.hyps" lt far n g nb have y: "y = (acc, cf + 1, tb, used, bc', skipDay_p2 d dayTarget acc r2)"
          by (simp add: s Let_def r2_def)
        with "1.prems"(3) have "acc = 0" by simp
        with y skipDay_p2_noBills[of d r2 dayTarget] show ?thesis
          by (simp add: s runOf_def keep)
      next
        case under: False
        with "1.hyps" lt far n g nb
        have "loop rnd minBill maxBill d dayTarget (acc, cf + 1, tb, used, bc', r2) = Some y"
          by (simp add: s Let_def r2_def)
        then have "noBillsLogged d r2 (runOf y)"
          using "1.IH"[of rnd minBill maxBill d dayTarget "(acc, cf + 1, tb, used, bc', r2)" y]
            under "1.prems"(2,3) by (simp add: runOf_def)
        then show ?thesis by (simp add: s runOf_def keep)
      qed
    qed
  qed
qed (rule assms)

lemma generateBillFromMap_p2_empty:
  "generateBillFromMap_p2 rnd [] targetMin targetMax dayTotalRemaining d margin md currentFailures
      dailyUsedItemIds billCounter k
     = (failure (Some ''No items''), [], billCounter + 1, k)"
  by (simp add: generateBillFromMap_p2_def availableItemsOf_def)

lemma dayLoop_p2_empty_step:
  assumes "stockMap r = []" "5 < dayTarget"
  shows "dayLoop_p2 rnd minBill maxBill d dayTarget
           (0, consecutiveFailures, todaysBills, dailyUsedItemIds, billCounter, r)
         = (if consecutiveFailures + 1 > 500
            then Some (0, consecutiveFailures + 1, todaysBills, dailyUsedItemIds, billCounter + 1,
                       skipDay_p2 d dayTarget 0 (r\<lparr>randomCalls := randomCalls r + 1\<rparr>))
            else dayLoop_p2 rnd minBill maxBill d dayTarget
                   (0, consecutiveFailures + 1, todaysBills, dailyUsedItemIds, billCounter + 1,
                    r\<lparr>randomCalls := randomCalls r + 1\<rparr>))"
proof -
  have same: "r\<lparr>stockMap := [], randomCalls := k\<rparr> = r\<lparr>randomCalls := k\<rparr>" for k
    using assms(1) by (cases r) simp
  from assms show ?thesis
    by (subst dayLoop_p2.simps)
       (simp add: Let_def generateBillFromMap_p2_empty not_success_failure same split: prod.splits)
qed

lemma dayLoop_p2_empty_stock:
  assumes "stockMap r = []" "5 < dayTarget"
  shows "consecutiveFailures \<le> 500 \<Longrightarrow>
         dayLoop_p2 rnd minBill maxBill d dayTarget
            (0, consecutiveFailures, [], {}, billCounter, r\<lparr>randomCalls := k\<rparr>)
           = Some (0, 501, [], {}, billCounter + (501 - consecutiveFailures),
                   skipDay_p2 d dayTarget 0 (r\<lparr>randomCalls := k + (501 - consecutiveFailures)\<rparr>))"
proof (induction "500 - consecutiveFailures" arbitrary: consecutiveFailures billCounter k)
  case 0
  then have cf: "consecutiveFailures = 500" by simp
  have e: "stockMap (r\<lparr>randomCalls := k\<rparr>) = []" using assms(1) by simp
  show ?case by (subst dayLoop_p2_empty_step[OF e assms(2)]) (simp add: cf)
next
  case (Suc n)
  then have lt: "consecutiveFailures < 500" and m: "n = 500 - (consecutiveFailures + 1)"
    and le: "consecutiveFailures + 1 \<le> 500" by simp_all
  have e: "stockMap (r\<lparr>randomCalls := k\<rparr>) = []" using assms(1) by simp
  have "dayLoop_p2 rnd minBill maxBill d dayTarget
          (0, consecutiveFailures, [], {}, billCounter, r\<lparr>randomCalls := k\<rparr>)
          = dayLoop_p2 rnd minBill maxBill d dayTarget
              (0, consecutiveFailures + 1, [], {}, billCounter + 1, r\<lparr>randomCalls := k + 1\<rparr>)"
    using lt by (subst dayLoop_p2_empty_step[OF e assms(2)]) simp
  also have "\<dots> = Some (0, 501, [], {}, billCounter + 1 + (501 - (consecutiveFailures + 1)),
                   skipDay_p2 d dayTarget 0 (r\<lparr>randomCalls := k + 1 + (501 - (consecutiveFailures + 1))\<rparr>))"
    by (rule Suc.hyps(1)[OF m le])
  also have "billCounter + 1 + (501 - (consecutiveFailures + 1)) = billCounter + (501 - consecutiveFailures)"
    using lt by simp
  also have "k + 1 + (501 - (consecutiveFailures + 1)) = k + (501 - consecutiveFailures)"
    using lt by simp
  finally show ?case .
qed

lemma emptyRun_day_p2:
  "dayLoop_p2 (\<lambda>_. 0) 100 1000 ''2024-01-01'' 500 (0, 0, [], {}, 0, emptyRun)
     = Some (0, 501, [], {}, 501,
             emptyRun\<lparr>hasSkipped := True, console := [FailureNoBills ''2024-01-01''],
                      logList := Some [FailureNoBills ''2024-01-01''], randomCalls := 501\<rparr>)"
proof -
  have a: "emptyRun\<lparr>randomCalls := 0\<rparr> = emptyRun" by (simp add: emptyRun_def)
  have e: "stockMap emptyRun = []" by (simp add: emptyRun_def)
  have sk: "skipDay_p2 ''2024-01-01'' 500 0 (emptyRun\<lparr>randomCalls := 0 + (501 - 0)\<rparr>)
          = emptyRun\<lparr>hasSkipped := True, console := [FailureNoBills ''2024-01-01''],
                      logList := Some [FailureNoBills ''2024-01-01''], randomCalls := 501\<rparr>"
    by (simp add: skipDay_p2_def logBoth_def emptyRun_def Let_def)
  from dayLoop_p2_empty_stock[OF e, of 500 0 "\<lambda>_. 0" 100 1000 "''2024-01-01''" 0 0]
  show ?thesis unfolding a sk by simp
qed

subsection \<open>A day of failing calls\<close>

text \<open>The calls of a streak touch the stock map and the random numbers only.\<close>

lemma afterFailures_frame:
  "console (afterFailures rnd minBill maxBill d dayTarget cf r n) = console r
   \<and> logList (afterFailures rnd minBill maxBill d dayTarget cf r n) = logList r
   \<and> hasSkipped (afterFailures rnd minBill maxBill d dayTarget cf r n) = hasSkipped r
   \<and> abortAll (afterFailures rnd minBill maxBill d dayTarget cf r n) = abortAll r
   \<and> allGeneratedBills (afterFailures rnd minBill maxBill d dayTarget cf r n) = allGeneratedBills r"
  by (induction n arbitrary: cf r) (simp_all split: prod.splits)

lemma afterFailures_p2_frame:
  "console (snd (afterFailures_p2 rnd minBill maxBill d dayTarget cf used br n)) = console (snd br)
   \<and> logList (snd (afterFailures_p2 rnd minBill maxBill d dayTarget cf used br n)) = logList (snd br)
   \<and> hasSkipped (snd (afterFailures_p2 rnd minBill maxBill d dayTarget cf used br n)) = hasSkipped (snd br)
   \<and> abortAll (snd (afterFailures_p2 rnd minBill maxBill d dayTarget cf used br n)) = abortAll (snd br)
   \<and> allGeneratedBills (snd (afterFailures_p2 rnd minBill maxBill d dayTarget cf used br n))
       = allGeneratedBills (snd br)"
  by (induction n arbitrary: cf br) (simp_all split: prod.splits)

text \<open>A streak of failing calls that reaches the ceiling ends the day in the skip logic.\<close>

lemma dayLoop_streak:
  assumes "0 < dayTarget"
  shows "consecutiveFailures \<le> 5000 \<Longrightarrow>
         (\<forall>n \<le> 5000 - consecutiveFailures.
            \<not> success (fst (dayCall rnd minBill maxBill d dayTarget (consecutiveFailures + n)
                              (afterFailures rnd minBill maxBill d dayTarget consecutiveFailures r n)))) \<Longrightarrow>
         dayLoop rnd minBill maxBill d dayTarget (0, consecutiveFailures, r)
           = Some (0, 5001,
                   skipDay d dayTarget 0
                     (afterFailures rnd minBill maxBill d dayTarget consecutiveFailures r
                        (5001 - consecutiveFailures)))"
proof (induction "5000 - consecutiveFailures" arbitrary: consecutiveFailures r)
  case 0
  then have cf: "consecutiveFailures = 5000" by simp
  obtain md targetMin targetMax currentMargin where
    n: "nextRequest minBill maxBill dayTarget consecutiveFailures
          = (md, targetMin, targetMax, currentMargin)"
    by (cases "nextRequest minBill maxBill dayTarget consecutiveFailures")
  obtain b stock' k' where
    g: "generateBillFromMap rnd (stockMap r) targetMin targetMax dayTarget d currentMargin md
          consecutiveFailures (randomCalls r) = (b, stock', k')"
    by (cases "generateBillFromMap rnd (stockMap r) targetMin targetMax dayTarget d currentMargin
                 md consecutiveFailures (randomCalls r)")
  have call: "dayCall rnd minBill maxBill d dayTarget consecutiveFailures r = (b, stock', k')"
    by (simp add: dayCall_def n g)
  have n0: "nextRequest minBill maxBill (dayTarget - 0) consecutiveFailures
          = (md, targetMin, targetMax, currentMargin)" using n by simp
  have g0: "generateBillFromMap rnd (stockMap r) targetMin targetMax (dayTarget - 0) d currentMargin md
          consecutiveFailures (randomCalls r) = (b, stock', k')" using g by simp
  from "0.prems"(2)[rule_format, of 0] have nb: "\<not> success b" by (simp add: call)
  have one: "5001 - consecutiveFailures = Suc 0" by (simp add: cf)
  from dayLoop_step[OF assms n0 g0] nb show ?case
    by (simp add: cf[symmetric] one call)
next
  case (Suc m)
  then have lt: "consecutiveFailures < 5000" and m: "m = 5000 - (consecutiveFailures + 1)"
    and le: "consecutiveFailures + 1 \<le> 5000" by simp_all
  obtain md targetMin targetMax currentMargin where
    n: "nextRequest minBill maxBill dayTarget consecutiveFailures
          = (md, targetMin, targetMax, currentMargin)"
    by (cases "nextRequest minBill maxBill dayTarget consecutiveFailures")
  obtain b stock' k' where
    g: "generateBillFromMap rnd (stockMap r) targetMin targetMax dayTarget d currentMargin md
          consecutiveFailures (randomCalls r) = (b, stock', k')"
    by (cases "generateBillFromMap rnd (stockMap r) targetMin targetMax dayTarget d currentMargin
                 md consecutiveFailures (randomCalls r)")
  have call: "dayCall rnd minBill maxBill d dayTarget consecutiveFailures r = (b, stock', k')"
    by (simp add: dayCall_def n g)
  have n0: "nextRequest minBill maxBill (dayTarget - 0) consecutiveFailures
          = (md, targetMin, targetMax, currentMargin)" using n by simp
  have g0: "generateBillFromMap rnd (stockMap r) targetMin targetMax (dayTarget - 0) d currentMargin md
          consecutiveFailures (randomCalls r) = (b, stock', k')" using g by simp
  define r1 where "r1 = r\<lparr>stockMap := stock', randomCalls := k'\<rparr>"
  from Suc.prems(2)[rule_format, of 0] have nb: "\<not> success b" by (simp add: call)
  have shift: "afterFailures rnd minBill maxBill d dayTarget consecutiveFailures r (Suc j)
                 = afterFailures rnd minBill maxBill d dayTarget (consecutiveFailures + 1) r1 j" for j
    by (simp add: call r1_def)
  have rest: "\<forall>j \<le> 5000 - (consecutiveFailures + 1).
            \<not> success (fst (dayCall rnd minBill maxBill d dayTarget (consecutiveFailures + 1 + j)
                              (afterFailures rnd minBill maxBill d dayTarget (consecutiveFailures + 1) r1 j)))"
  proof (intro allI impI)
    fix j assume "j \<le> 5000 - (consecutiveFailures + 1)"
    then have "Suc j \<le> 5000 - consecutiveFailures" using lt by simp
    from Suc.prems(2)[rule_format, OF this, unfolded shift]
    have "\<not> success (fst (dayCall rnd minBill maxBill d dayTarget (consecutiveFailures + Suc j)
                              (afterFailures rnd minBill maxBill d dayTarget (consecutiveFailures + 1) r1 j)))" .
    moreover have "consecutiveFailures + Suc j = consecutiveFailures + 1 + j" by simp
    ultimately show
      "\<not> success (fst (dayCall rnd minBill maxBill d dayTarget (consecutiveFailures + 1 + j)
                              (afterFailures rnd minBill maxBill d dayTarget (consecutiveFailures + 1) r1 j)))"
      by simp
  qed
  have step: "dayLoop rnd minBill maxBill d dayTarget (0, consecutiveFailures, r)
          = dayLoop rnd minBill maxBill d dayTarget (0, consecutiveFailures + 1, r1)"
    using dayLoop_step[OF assms n0 g0] nb lt by (simp add: r1_def)
  have cnt: "5001 - consecutiveFailures = Suc (5001 - (consecutiveFailures + 1))" using lt by simp
  from Suc.hyps(1)[OF m le rest] show ?case
    by (simp only: step cnt shift)
qed

text \<open>The same streak in part_002.\<close>

lemma dayLoop_p2_streak:
  assumes "5 < dayTarget"
  shows "consecutiveFailures \<le> 500 \<Longrightarrow>
         (\<forall>n \<le> 500 - consecutiveFailures.
            \<not> success (fst (dayCall_p2 rnd minBill maxBill d dayTarget (consecutiveFailures + n)
                              dailyUsedItemIds
                              (fst (afterFailures_p2 rnd minBill maxBill d dayTarget consecutiveFailures
                                      dailyUsedItemIds (billCounter, r) n))
                              (snd (afterFailures_p2 rnd minBill maxBill d dayTarget consecutiveFailures
                                      dailyUsedItemIds (billCounter, r) n))))) \<Longrightarrow>
         dayLoop_p2 rnd minBill maxBill d dayTarget
             (0, consecutiveFailures, todaysBills, dailyUsedItemIds, billCounter, r)
           = Some (0, 501, todaysBills, dailyUsedItemIds,
                   fst (afterFailures_p2 rnd minBill maxBill d dayTarget consecutiveFailures
                          dailyUsedItemIds (billCounter, r) (501 - consecutiveFailures)),
                   skipDay_p2 d dayTarget 0
                     (snd (afterFailures_p2 rnd minBill maxBill d dayTarget consecutiveFailures
                             dailyUsedItemIds (billCounter, r) (501 - consecutiveFailures))))"
proof (induction "500 - consecutiveFailures" arbitrary: consecutiveFailures billCounter r)
  case 0
  then have cf: "consecutiveFailures = 500" by simp
  obtain md targetMin targetMax currentMargin where
    n: "nextRequest_p2 minBill maxBill dayTarget consecutiveFailures (rnd (randomCalls r))
          = (md, targetMin, targetMax, currentMargin)"
    by (cases "nextRequest_p2 minBill maxBill dayTarget consecutiveFailures (rnd (randomCalls r))")
  obtain b stock' bc' k' where
    g: "generateBillFromMap_p2 rnd (stockMap r) targetMin targetMax dayTarget d currentMargin md
          consecutiveFailures dailyUsedItemIds billCounter (randomCalls r + 1) = (b, stock', bc', k')"
    by (cases "generateBillFromMap_p2 rnd (stockMap r) targetMin targetMax dayTarget d currentMargin
                 md consecutiveFailures dailyUsedItemIds billCounter (randomCalls r + 1)")
  have call: "dayCall_p2 rnd minBill maxBill d dayTarget consecutiveFailures dailyUsedItemIds billCounter r
                = (b, stock', bc', k')"
    by (simp only: dayCall_p2_def n g prod.case)
  have pos: "(0::rat) < dayTarget" "\<not> dayTarget - 0 \<le> 5" using assms by simp_all
  have n0: "nextRequest_p2 minBill maxBill (dayTarget - 0) consecutiveFailures (rnd (randomCalls r))
          = (md, targetMin, targetMax, currentMargin)" using n by (simp only: diff_zero)
  have g0: "generateBillFromMap_p2 rnd (stockMap r) targetMin targetMax (dayTarget - 0) d currentMargin md
          consecutiveFailures dailyUsedItemIds billCounter (randomCalls r + 1) = (b, stock', bc', k')"
    using g by (simp only: diff_zero)
  from "0.prems"(2)[rule_format, of 0] have nb: "\<not> success b" by (simp add: call)
  have one: "501 - consecutiveFailures = Suc 0" by (simp add: cf)
  from dayLoop_p2_fail_step[OF pos n0 g0 nb, of todaysBills] show ?case
    by (simp add: cf[symmetric] one call)
next
  case (Suc m)
  then have lt: "consecutiveFailures < 500" and m: "m = 500 - (consecutiveFailures + 1)"
    and le: "consecutiveFailures + 1 \<le> 500" by simp_all
  obtain md targetMin targetMax currentMargin where
    n: "nextRequest_p2 minBill maxBill dayTarget consecutiveFailures (rnd (randomCalls r))
          = (md, targetMin, targetMax, currentMargin)"
    by (cases "nextRequest_p2 minBill maxBill dayTarget consecutiveFailures (rnd (randomCalls r))")
  obtain b stock' bc' k' where
    g: "generateBillFromMap_p2 rnd (stockMap r) targetMin targetMax dayTarget d currentMargin md
          consecutiveFailures dailyUsedItemIds billCounter (randomCalls r + 1) = (b, stock', bc', k')"
    by (cases "generateBillFromMap_p2 rnd (stockMap r) targetMin targetMax dayTarget d currentMargin
                 md consecutiveFailures dailyUsedItemIds billCounter (randomCalls r + 1)")
  have call: "dayCall_p2 rnd minBill maxBill d dayTarget consecutiveFailures dailyUsedItemIds billCounter r
                = (b, stock', bc', k')"
    by (simp only: dayCall_p2_def n g prod.case)
  have pos: "(0::rat) < dayTarget" "\<not> dayTarget - 0 \<le> 5" using assms by simp_all
  have n0: "nextRequest_p2 minBill maxBill (dayTarget - 0) consecutiveFailures (rnd (randomCalls r))
          = (md, targetMin, targetMax, currentMargin)" using n by (simp only: diff_zero)
  have g0: "generateBillFromMap_p2 rnd (stockMap r) targetMin targetMax (dayTarget - 0) d currentMargin md
          consecutiveFailures dailyUsedItemIds billCounter (randomCalls r + 1) = (b, stock', bc', k')"
    using g by (simp only: diff_zero)
  define r1 where "r1 = r\<lparr>stockMap := stock', randomCalls := k'\<rparr>"
  from Suc.prems(2)[rule_format, of 0] have nb: "\<not> success b" by (simp add: call)
  have shift: "afterFailures_p2 rnd minBill maxBill d dayTarget consecutiveFailures dailyUsedItemIds
                 (billCounter, r) (Suc j)
               = afterFailures_p2 rnd minBill maxBill d dayTarget (consecutiveFailures + 1)
                   dailyUsedItemIds (bc', r1) j" for j
    by (simp add: call r1_def)
  have rest: "\<forall>j \<le> 500 - (consecutiveFailures + 1).
            \<not> success (fst (dayCall_p2 rnd minBill maxBill d dayTarget (consecutiveFailures + 1 + j)
                              dailyUsedItemIds
                              (fst (afterFailures_p2 rnd minBill maxBill d dayTarget (consecutiveFailures + 1)
                                      dailyUsedItemIds (bc', r1) j))
                              (snd (afterFailures_p2 rnd minBill maxBill d dayTarget (consecutiveFailures + 1)
                                      dailyUsedItemIds (bc', r1) j))))"
  proof (intro allI impI)
    fix j assume "j \<le> 500 - (consecutiveFailures + 1)"
    then have "Suc j \<le> 500 - consecutiveFailures" using lt by simp
    from Suc.prems(2)[rule_format, OF this, unfolded shift]
    have "\<not> success (fst (dayCall_p2 rnd minBill maxBill d dayTarget (consecutiveFailures + Suc j)
                              dailyUsedItemIds
                              (fst (afterFailures_p2 rnd minBill maxBill d dayTarget (consecutiveFailures + 1)
                                      dailyUsedItemIds (bc', r1) j))
                              (snd (afterFailures_p2 rnd minBill maxBill d dayTarget (consecutiveFailures + 1)
                                      dailyUsedItemIds (bc', r1) j))))" .
    moreover have "consecutiveFailures + Suc j = consecutiveFailures + 1 + j" by simp
    ultimately show
      "\<not> success (fst (dayCall_p2 rnd minBill maxBill d dayTarget (consecutiveFailures + 1 + j)
                              dailyUsedItemIds
                              (fst (afterFailures_p2 rnd minBill maxBill d dayTarget (consecutiveFailures + 1)
                                      dailyUsedItemIds (bc', r1) j))
                              (snd (afterFailures_p2 rnd minBill maxBill d dayTarget (consecutiveFailures + 1)
                                      dailyUsedItemIds (bc', r1) j))))"
      by simp
  qed
  have step: "dayLoop_p2 rnd minBill maxBill d dayTarget
                (0, consecutiveFailures, todaysBills, dailyUsedItemIds, billCounter, r)
          = dayLoop_p2 rnd minBill maxBill d dayTarget
                (0, consecutiveFailures + 1, todaysBills, dailyUsedItemIds, bc', r1)"
    using dayLoop_p2_fail_step[OF pos n0 g0 nb, of todaysBills] lt by (simp add: r1_def)
  have cnt: "501 - consecutiveFailures = Suc (501 - (consecutiveFailures + 1))" using lt by simp
  from Suc.hyps(1)[OF m le rest] show ?case
    by (simp only: step cnt shift)
qed

subsection \<open>A ledger on which every call fails\<close>

lemma rem1_dust: "rem1 (1 / 200) = 1 / 200"
  by code_simp

lemma chooseQty_small:
  "absMax < 1 / 100 \<Longrightarrow> chooseQty rnd minItems bigFirst True absMax st = (None, st)"
  by (simp add: chooseQty_def)

lemma pickItem_dust:
  assumes "tempUsed st = []"
  shows "pickItem rnd targetMax minItems attemptNo dust st = st"
proof -
  have rem: "getRem (tempUsed st) dust = 1 / 200"
    by (simp add: getRem_def usedOf_def assms dust_def)
  have fl: "canSellInFloat dust roomLeft" for roomLeft
    by (simp add: canSellInFloat_def dust_def rem1_dust)
  have small: "absMaxOf (1 / 200) roomLeft dust < 1 / 100" for roomLeft
    by (simp add: absMaxOf_def dust_def Let_def min_def)
  show ?thesis
    by (simp add: pickItem_def rem Let_def fl chooseQty_small[OF small])
qed

lemma pickItems_dust:
  assumes "1 \<le> minItems"
  shows "pickItems rnd targetMin targetMax minItems attemptNo [dust] (newAttempt k) = newAttempt k"
proof -
  have d: "doneCondition rnd targetMin minItems (attemptNo = 0) (newAttempt k) = (False, newAttempt k)"
    using assms by (simp add: doneCondition_def newAttempt_def)
  have p: "pickItem rnd targetMax minItems attemptNo dust (newAttempt k) = newAttempt k"
    by (rule pickItem_dust) (simp add: newAttempt_def)
  show ?thesis by (simp add: d p)
qed

lemma shuffle_single: "shuffleArray rnd ([x], k) = ([x], k)"
  by (simp add: shuffleArray_def)

lemma not_valid_new:
  "1 \<le> minItems \<Longrightarrow> \<not> isValid md margin targetMin targetMax minItems (newAttempt k)"
  by (simp add: isValid_def newAttempt_def Let_def)

lemma attemptLoop_dust:
  assumes "1 \<le> minItems"
  shows "attemptLoop rnd md margin targetMin targetMax dayTotalRemaining [dust] [dust] minItems
           maxAttempts attemptNo k = (None, k)"
proof (induction "maxAttempts - attemptNo" arbitrary: attemptNo)
  case 0
  then show ?case by (simp add: attemptLoop_end)
next
  case (Suc m)
  then have lt: "attemptNo < maxAttempts" and m: "m = maxAttempts - (attemptNo + 1)" by simp_all
  have pool: "(if attemptNo = 0 then ([dust], k) else shuffleArray rnd ([dust], k)) = ([dust], k)"
    by (simp add: shuffle_single)
  have st0: "newAttempt k = pickItems rnd targetMin targetMax minItems attemptNo [dust] (newAttempt k)"
    by (simp only: pickItems_dust[OF assms])
  from attemptLoop_step[OF lt pool st0, of md margin dayTotalRemaining] not_valid_new[OF assms]
  have "attemptLoop rnd md margin targetMin targetMax dayTotalRemaining [dust] [dust] minItems
           maxAttempts attemptNo k
        = attemptLoop rnd md margin targetMin targetMax dayTotalRemaining [dust] [dust] minItems
           maxAttempts (attemptNo + 1) k"
    by (simp add: newAttempt_def)
  with Suc.hyps(1)[OF m] show ?case by simp
qed

lemma generateBillFromMap_dust:
  "generateBillFromMap rnd [(''Dust'', dust)] targetMin targetMax dayTotalRemaining d margin md
     currentFailures k = (failure None, [(''Dust'', dust)], k)"
proof -
  have a: "availableItemsOf [(''Dust'', dust)] = [dust]"
    by (simp add: availableItemsOf_def dust_def)
  have e: "expensiveFirstOf [dust] = [dust]" by (simp add: expensiveFirstOf_def)
  have t: "tierLoop rnd md margin targetMin targetMax dayTotalRemaining [dust] [dust]
             (effortMultiplier currentFailures) baseAttempts k = (None, k)"
    by (simp add: baseAttempts_def Let_def attemptLoop_dust)
  show ?thesis by (simp add: generateBillFromMap_def a e t Let_def)
qed

lemma afterFailures_dust:
  "stockMap r = [(''Dust'', dust)] \<Longrightarrow>
   afterFailures rnd minBill maxBill d dayTarget cf r n = r"
proof (induction n arbitrary: cf)
  case 0
  show ?case by simp
next
  case (Suc n)
  have same: "r\<lparr>stockMap := [(''Dust'', dust)], randomCalls := randomCalls r\<rparr> = r"
    using Suc.prems by (cases r) simp
  have "dayCall rnd minBill maxBill d dayTarget cf r = (failure None, [(''Dust'', dust)], randomCalls r)"
    by (simp add: dayCall_def Suc.prems generateBillFromMap_dust split: prod.splits)
  with Suc.IH[OF Suc.prems] show ?case by (simp add: same)
qed

lemma dayCall_dust:
  "stockMap r = [(''Dust'', dust)] \<Longrightarrow>
   \<not> success (fst (dayCall rnd minBill maxBill d dayTarget cf r))"
  by (simp add: dayCall_def generateBillFromMap_dust not_success_failure split: prod.splits)

lemma dust_day:
  "dayLoop (\<lambda>_. 0) 100 1000 ''2024-01-01'' 500 (0, 0, dustRun)
     = Some (0, 5001, dustRun\<lparr>hasSkipped := True, abortAll := True,
                               console := [CriticalError ''2024-01-01''],
                               logList := Some [CriticalError ''2024-01-01'']\<rparr>)"
proof -
  have s: "stockMap dustRun = [(''Dust'', dust)]" by (simp add: dustRun_def)
  have "dayLoop (\<lambda>_. 0) 100 1000 ''2024-01-01'' 500 (0, 0, dustRun)
          = Some (0, 5001, skipDay ''2024-01-01'' 500 0
                     (afterFailures (\<lambda>_. 0) 100 1000 ''2024-01-01'' 500 0 dustRun (5001 - 0)))"
    by (rule dayLoop_streak) (simp_all add: afterFailures_dust[OF s] dayCall_dust[OF s])
  also have "afterFailures (\<lambda>_. 0) 100 1000 ''2024-01-01'' 500 0 dustRun (5001 - 0) = dustRun"
    by (rule afterFailures_dust[OF s])
  also have "skipDay ''2024-01-01'' 500 0 dustRun
          = dustRun\<lparr>hasSkipped := True, abortAll := True,
                      console := [CriticalError ''2024-01-01''],
                      logList := Some [CriticalError ''2024-01-01'']\<rparr>"
    by (simp add: skipDay_def logBoth_def dustRun_def Let_def)
  finally show ?thesis .
qed

text \<open>The same ledger in part_002.\<close>

lemma pickItem_p2_dust:
  assumes "tempUsed st = []"
  shows "pickItem_p2 rnd targetMax minItems attemptNo dust st = st"
proof -
  have rem: "getRem (tempUsed st) dust = 1 / 200"
    by (simp add: getRem_def usedOf_def assms dust_def)
  have fl: "canSellInFloat_p2 dust" by (simp add: canSellInFloat_p2_def dust_def)
  have small: "absMaxOf (1 / 200) roomLeft dust < 1 / 100" for roomLeft
    by (simp add: absMaxOf_def dust_def Let_def min_def)
  show ?thesis
    by (simp add: pickItem_p2_def rem Let_def fl chooseQty_small[OF small])
qed

lemma pickItems_p2_dust:
  assumes "1 \<le> minItems" "pool = [] \<or> pool = [dust]"
  shows "pickItems_p2 rnd targetMin targetMax minItems attemptNo pool (newAttempt k) = newAttempt k"
proof -
  have d: "doneCondition rnd targetMin minItems (attemptNo = 0 \<or> attemptNo = 2) (newAttempt k)
             = (False, newAttempt k)"
    using assms(1) by (simp add: doneCondition_def newAttempt_def)
  have p: "pickItem_p2 rnd targetMax minItems attemptNo dust (newAttempt k) = newAttempt k"
    by (rule pickItem_p2_dust) (simp add: newAttempt_def)
  from assms(2) show ?thesis by (auto simp: d p)
qed

lemma shuffle_nil: "shuffleArray rnd ([], k) = ([], k)"
  by (simp add: shuffleArray_def)

lemma selectPool_p2_dust:
  assumes "fresh = [] \<or> fresh = [dust]"
  shows "\<exists>pool. selectPool_p2 rnd [dust] fresh (expensiveFirstOf [dust]) (expensiveFirstOf fresh)
                   minItems attemptNo k = (pool, k) \<and> (pool = [] \<or> pool = [dust])"
  using assms
  by (auto simp: selectPool_p2_def Let_def shuffle_single shuffle_nil expensiveFirstOf_def)

lemma attemptLoop_p2_dust:
  assumes "1 \<le> minItems" "fresh = [] \<or> fresh = [dust]"
  shows "attemptLoop_p2 rnd md margin targetMin targetMax dayTotalRemaining [dust] fresh
           (expensiveFirstOf [dust]) (expensiveFirstOf fresh) minItems maxAttempts attemptNo k = (None, k)"
proof (induction "maxAttempts - attemptNo" arbitrary: attemptNo)
  case 0
  then show ?case by (simp add: attemptLoop_p2_end)
next
  case (Suc m)
  then have lt: "attemptNo < maxAttempts" and m: "m = maxAttempts - (attemptNo + 1)" by simp_all
  from selectPool_p2_dust[OF assms(2), of rnd minItems attemptNo k] obtain pool where
    pool: "selectPool_p2 rnd [dust] fresh (expensiveFirstOf [dust]) (expensiveFirstOf fresh)
             minItems attemptNo k = (pool, k)" and p: "pool = [] \<or> pool = [dust]" by blast
  have st0: "newAttempt k = pickItems_p2 rnd targetMin targetMax minItems attemptNo pool (newAttempt k)"
    by (simp only: pickItems_p2_dust[OF assms(1) p])
  from attemptLoop_p2_step[OF lt pool st0, of md margin dayTotalRemaining] not_valid_new[OF assms(1)]
  have "attemptLoop_p2 rnd md margin targetMin targetMax dayTotalRemaining [dust] fresh
           (expensiveFirstOf [dust]) (expensiveFirstOf fresh) minItems maxAttempts attemptNo k
        = attemptLoop_p2 rnd md margin targetMin targetMax dayTotalRemaining [dust] fresh
           (expensiveFirstOf [dust]) (expensiveFirstOf fresh) minItems maxAttempts (attemptNo + 1) k"
    by (simp add: newAttempt_def)
  with Suc.hyps(1)[OF m] show ?case by simp
qed

lemma generateBillFromMap_p2_dust:
  "generateBillFromMap_p2 rnd [(''Dust'', dust)] targetMin targetMax dayTotalRemaining d margin md
     currentFailures dailyUsedItemIds billCounter k
   = (failure None, [(''Dust'', dust)], billCounter + 1, k)"
proof -
  have a: "availableItemsOf [(''Dust'', dust)] = [dust]"
    by (simp add: availableItemsOf_def dust_def)
  have f: "freshItemsOf [(''Dust'', dust)] dailyUsedItemIds = []
           \<or> freshItemsOf [(''Dust'', dust)] dailyUsedItemIds = [dust]"
    by (simp add: freshItemsOf_def dust_def)
  have t: "tierLoop_p2 rnd md margin targetMin targetMax dayTotalRemaining [dust]
             (freshItemsOf [(''Dust'', dust)] dailyUsedItemIds) (expensiveFirstOf [dust])
             (expensiveFirstOf (freshItemsOf [(''Dust'', dust)] dailyUsedItemIds))
             (effortMultiplier_p2 currentFailures) baseAttempts k = (None, k)"
    by (simp add: baseAttempts_def Let_def attemptLoop_p2_dust[OF _ f])
  show ?thesis by (simp add: generateBillFromMap_p2_def a t Let_def)
qed

lemma afterFailures_p2_dust:
  "stockMap r = [(''Dust'', dust)] \<Longrightarrow>
   afterFailures_p2 rnd minBill maxBill d dayTarget cf used (bc, r) n
     = (bc + n, r\<lparr>randomCalls := randomCalls r + n\<rparr>)"
proof (induction n arbitrary: cf bc r)
  case 0
  show ?case by simp
next
  case (Suc n)
  have same: "r\<lparr>stockMap := [(''Dust'', dust)], randomCalls := k\<rparr> = r\<lparr>randomCalls := k\<rparr>" for k
    using Suc.prems by (cases r) simp
  have c: "dayCall_p2 rnd minBill maxBill d dayTarget cf used bc r
          = (failure None, [(''Dust'', dust)], bc + 1, randomCalls r + 1)"
    by (simp add: dayCall_p2_def Suc.prems generateBillFromMap_p2_dust split: prod.splits)
  have s: "stockMap (r\<lparr>randomCalls := randomCalls r + 1\<rparr>) = [(''Dust'', dust)]"
    using Suc.prems by simp
  have "afterFailures_p2 rnd minBill maxBill d dayTarget cf used (bc, r) (Suc n)
          = afterFailures_p2 rnd minBill maxBill d dayTarget (cf + 1) used
              (bc + 1, r\<lparr>randomCalls := randomCalls r + 1\<rparr>) n"
    by (simp add: c same)
  also have "\<dots> = (bc + 1 + n, (r\<lparr>randomCalls := randomCalls r + 1\<rparr>)
                         \<lparr>randomCalls := randomCalls (r\<lparr>randomCalls := randomCalls r + 1\<rparr>) + n\<rparr>)"
    by (rule Suc.IH[OF s])
  also have "\<dots> = (bc + Suc n, r\<lparr>randomCalls := randomCalls r + Suc n\<rparr>)" by simp
  finally show ?case .
qed

lemma dayCall_p2_dust:
  "stockMap r = [(''Dust'', dust)] \<Longrightarrow>
   \<not> success (fst (dayCall_p2 rnd minBill maxBill d dayTarget cf used bc r))"
  by (simp add: dayCall_p2_def generateBillFromMap_p2_dust not_success_failure split: prod.splits)

lemma dust_day_p2:
  "dayLoop_p2 (\<lambda>_. 0) 100 1000 ''2024-01-01'' 500 (0, 0, [], {}, 0, dustRun)
     = Some (0, 501, [], {}, 501,
             dustRun\<lparr>hasSkipped := True, console := [FailureNoBills ''2024-01-01''],
                     logList := Some [FailureNoBills ''2024-01-01''], randomCalls := 501\<rparr>)"
proof -
  have s: "stockMap dustRun = [(''Dust'', dust)]" by (simp add: dustRun_def)
  have a: "afterFailures_p2 (\<lambda>_. 0) 100 1000 ''2024-01-01'' 500 0 {} (0, dustRun) n
             = (n, dustRun\<lparr>randomCalls := n\<rparr>)" for n
    using afterFailures_p2_dust[OF s, of "\<lambda>_. 0" 100 1000 "''2024-01-01''" 500 0 "{}" 0 n]
    by (simp add: dustRun_def)
  have "dayLoop_p2 (\<lambda>_. 0) 100 1000 ''2024-01-01'' 500 (0, 0, [], {}, 0, dustRun)
          = Some (0, 501, [], {},
                  fst (afterFailures_p2 (\<lambda>_. 0) 100 1000 ''2024-01-01'' 500 0 {} (0, dustRun) (501 - 0)),
                  skipDay_p2 ''2024-01-01'' 500 0
                    (snd (afterFailures_p2 (\<lambda>_. 0) 100 1000 ''2024-01-01'' 500 0 {} (0, dustRun) (501 - 0))))"
  proof (rule dayLoop_p2_streak)
    show "(5::rat) < 500" by simp
    show "(0::nat) \<le> 500" by simp
    show "\<forall>n\<le>500 - 0. \<not> success (fst (dayCall_p2 (\<lambda>_. 0) 100 1000 ''2024-01-01'' 500 (0 + n) {}
             (fst (afterFailures_p2 (\<lambda>_. 0) 100 1000 ''2024-01-01'' 500 0 {} (0, dustRun) n))
             (snd (afterFailures_p2 (\<lambda>_. 0) 100 1000 ''2024-01-01'' 500 0 {} (0, dustRun) n))))"
    proof (intro allI impI)
      fix n :: nat
      have "stockMap (dustRun\<lparr>randomCalls := n\<rparr>) = [(''Dust'', dust)]" by (simp add: dustRun_def)
      from dayCall_p2_dust[OF this]
      show "\<not> success (fst (dayCall_p2 (\<lambda>_. 0) 100 1000 ''2024-01-01'' 500 (0 + n) {}
             (fst (afterFailures_p2 (\<lambda>_. 0) 100 1000 ''2024-01-01'' 500 0 {} (0, dustRun) n))
             (snd (afterFailures_p2 (\<lambda>_. 0) 100 1000 ''2024-01-01'' 500 0 {} (0, dustRun) n))))"
        by (simp add: a)
    qed
  qed
  also have "\<dots> = Some (0, 501, [], {}, 501,
             dustRun\<lparr>hasSkipped := True, console := [FailureNoBills ''2024-01-01''],
                     logList := Some [FailureNoBills ''2024-01-01''], randomCalls := 501\<rparr>)"
  proof -
    have b: "afterFailures_p2 (\<lambda>_. 0) 100 1000 ''2024-01-01'' 500 0 {} (0, dustRun) (501 - 0)
               = (501, dustRun\<lparr>randomCalls := 501\<rparr>)"
      using a[of 501] by simp
    have c: "skipDay_p2 ''2024-01-01'' 500 0 (dustRun\<lparr>randomCalls := 501\<rparr>)
               = dustRun\<lparr>hasSkipped := True, console := [FailureNoBills ''2024-01-01''],
                     logList := Some [FailureNoBills ''2024-01-01''], randomCalls := 501\<rparr>"
      by (simp add: skipDay_p2_def logBoth_def dustRun_def Let_def)
    show ?thesis by (simp only: b c fst_conv snd_conv)
  qed
  finally show ?thesis .
qed

subsection \<open>What a streak leaves behind\<close>

text \<open>The day of part_001 on which the calls fail until the ceiling is passed.\<close>

lemma critical_streak:
  assumes "0 < dayTarget" and "consecutiveFailures \<le> 5000"
    and "\<forall>n \<le> 5000 - consecutiveFailures.
           \<not> success (fst (dayCall rnd minBill maxBill d dayTarget (consecutiveFailures + n)
                             (afterFailures rnd minBill maxBill d dayTarget consecutiveFailures r n)))"
  shows "\<exists>r'. dayLoop rnd minBill maxBill d dayTarget (0, consecutiveFailures, r) = Some (0, 5001, r')
          \<and> console r' = console r @ [CriticalError d]
          \<and> logList r' = (case logList r of None \<Rightarrow> None | Some l \<Rightarrow> Some (l @ [CriticalError d]))
          \<and> hasSkipped r' \<and> abortAll r'
          \<and> allGeneratedBills r' = allGeneratedBills r
          \<and> processDays rnd minBill maxBill dateAmountTargets r' = Some r'
          \<and> (consecutiveFailures = 0 \<longrightarrow> \<not> abortAll r \<longrightarrow>
                processDays rnd minBill maxBill ((d, dayTarget) # dateAmountTargets) r = Some r')"
proof -
  define ra where "ra = afterFailures rnd minBill maxBill d dayTarget consecutiveFailures r
                          (5001 - consecutiveFailures)"
  define r' where "r' = skipDay d dayTarget 0 ra"
  have run: "dayLoop rnd minBill maxBill d dayTarget (0, consecutiveFailures, r) = Some (0, 5001, r')"
    unfolding r'_def ra_def using assms by (rule dayLoop_streak)
  have fr: "console ra = console r" "logList ra = logList r" "allGeneratedBills ra = allGeneratedBills r"
    unfolding ra_def using afterFailures_frame[of rnd minBill maxBill d dayTarget consecutiveFailures r
        "5001 - consecutiveFailures"] by simp_all
  have c: "criticalLogged d ra r'" unfolding r'_def by (rule skipDay_critical)
  have bills: "allGeneratedBills r' = allGeneratedBills ra"
    by (simp add: r'_def skipDay_def logBoth_def Let_def)
  from c have ab: "abortAll r'" by (simp add: criticalLogged_def)
  have stop: "processDays rnd minBill maxBill dateAmountTargets r' = Some r'"
    using ab by (rule processDays_aborted)
  have day: "processDays rnd minBill maxBill ((d, dayTarget) # dateAmountTargets) r = Some r'"
    if "consecutiveFailures = 0" "\<not> abortAll r"
    using that assms(1) run stop by simp
  from run c fr bills stop day show ?thesis
    by (intro exI[of _ r']) (simp add: criticalLogged_def)
qed

text \<open>The same day in part_002, where the ceiling is 500 and the later days go on.\<close>

lemma failed_streak_p2:
  assumes "5 < dayTarget" and "consecutiveFailures \<le> 500"
    and "\<forall>n \<le> 500 - consecutiveFailures.
            \<not> success (fst (dayCall_p2 rnd minBill maxBill d dayTarget (consecutiveFailures + n)
                              dailyUsedItemIds
                              (fst (afterFailures_p2 rnd minBill maxBill d dayTarget consecutiveFailures
                                      dailyUsedItemIds (billCounter, r) n))
                              (snd (afterFailures_p2 rnd minBill maxBill d dayTarget consecutiveFailures
                                      dailyUsedItemIds (billCounter, r) n))))"
  shows "\<exists>billCounter' r'.
           dayLoop_p2 rnd minBill maxBill d dayTarget
             (0, consecutiveFailures, todaysBills, dailyUsedItemIds, billCounter, r)
             = Some (0, 501, todaysBills, dailyUsedItemIds, billCounter', r')
           \<and> console r' = console r @ [FailureNoBills d]
           \<and> logList r' = (case logList r of None \<Rightarrow> None | Some l \<Rightarrow> Some (l @ [FailureNoBills d]))
           \<and> hasSkipped r'
           \<and> allGeneratedBills r' = allGeneratedBills r"
proof -
  define a where "a = afterFailures_p2 rnd minBill maxBill d dayTarget consecutiveFailures
                        dailyUsedItemIds (billCounter, r) (501 - consecutiveFailures)"
  define r' where "r' = skipDay_p2 d dayTarget 0 (snd a)"
  have run: "dayLoop_p2 rnd minBill maxBill d dayTarget
             (0, consecutiveFailures, todaysBills, dailyUsedItemIds, billCounter, r)
             = Some (0, 501, todaysBills, dailyUsedItemIds, fst a, r')"
    unfolding r'_def a_def using assms by (rule dayLoop_p2_streak)
  have fr: "console (snd a) = console r" "logList (snd a) = logList r"
    "allGeneratedBills (snd a) = allGeneratedBills r"
    unfolding a_def
    using afterFailures_p2_frame[of rnd minBill maxBill d dayTarget consecutiveFailures
        dailyUsedItemIds "(billCounter, r)" "501 - consecutiveFailures"] by simp_all
  have c: "noBillsLogged d (snd a) r'" unfolding r'_def by (rule skipDay_p2_noBills)
  have bills: "allGeneratedBills r' = allGeneratedBills (snd a)"
    by (simp add: r'_def skipDay_p2_def logBoth_def Let_def)
  from run c fr bills show ?thesis
    by (intro exI[of _ "fst a"] exI[of _ r']) (simp add: noBillsLogged_def)
qed

section \<open>Rounding to the nearest double\<close>

lemma two_powi_pos: "(0::rat) < 2 powi e"
  by (simp add: power_int_def)

lemma bitlen_powi:
  assumes "0 < p"
  shows "(2::rat) powi (bitlen p - 1) \<le> of_int p" and "of_int p < (2::rat) powi bitlen p"
proof -
  from bitlen_bounds[OF assms] have lo: "2 ^ nat (bitlen p - 1) \<le> p" and hi: "p < 2 ^ nat (bitlen p)"
    by simp_all
  have pos: "1 \<le> bitlen p" using assms bitlen_eq_zero_iff[of p] bitlen_nonneg[of p] by linarith
  have "(2::rat) powi (bitlen p - 1) = 2 ^ nat (bitlen p - 1)"
    using pos by (simp add: power_int_def)
  also have "\<dots> = of_int (2 ^ nat (bitlen p - 1))" by simp
  also have "\<dots> \<le> of_int p" using lo by (simp only: of_int_le_iff)
  finally show "(2::rat) powi (bitlen p - 1) \<le> of_int p" .
  have "(of_int p :: rat) < of_int (2 ^ nat (bitlen p))" using hi by (simp only: of_int_less_iff)
  also have "\<dots> = 2 ^ nat (bitlen p)" by simp
  also have "\<dots> = (2::rat) powi bitlen p" using pos by (simp add: power_int_def)
  finally show "of_int p < (2::rat) powi bitlen p" .
qed

lemma binade_bounds:
  assumes "0 < x"
  shows "2 powi binade x \<le> x \<and> x < 2 powi (binade x + 1)"
proof -
  obtain p q where pq: "quotient_of x = (p, q)" by (cases "quotient_of x")
  then have q: "0 < q" and x: "x = of_int p / of_int q"
    by (rule quotient_of_denom_pos, rule quotient_of_div)
  have p: "0 < p"
  proof (rule ccontr)
    assume "\<not> 0 < p"
    then have "(of_int p :: rat) \<le> 0" by simp
    with q have "of_int p / (of_int q :: rat) \<le> 0" by (simp add: divide_nonpos_pos)
    with x assms show False by simp
  qed
  define e0 where "e0 = bitlen p - bitlen q"
  have qr: "(0::rat) < of_int q" using q by simp
  have up: "x < 2 powi (e0 + 1)"
  proof -
    have "x < 2 powi bitlen p / of_int q"
      unfolding x using bitlen_powi(2)[OF p] qr by (simp add: divide_strict_right_mono)
    also have "\<dots> \<le> 2 powi bitlen p / 2 powi (bitlen q - 1)"
    proof (rule divide_left_mono)
      show "2 powi (bitlen q - 1) \<le> (of_int q :: rat)" by (rule bitlen_powi(1)[OF q])
      show "(0::rat) \<le> 2 powi bitlen p" using two_powi_pos[of "bitlen p"] by simp
      show "(0::rat) < of_int q * 2 powi (bitlen q - 1)"
        using qr two_powi_pos[of "bitlen q - 1"] by (rule mult_pos_pos)
    qed
    also have "\<dots> = 2 powi (bitlen p - (bitlen q - 1))" by (simp add: power_int_diff)
    also have "bitlen p - (bitlen q - 1) = e0 + 1" by (simp add: e0_def)
    finally show ?thesis .
  qed
  have lo: "2 powi (e0 - 1) < x"
  proof -
    have "(2::rat) powi (e0 - 1) = 2 powi (bitlen p - 1 - bitlen q)" by (simp add: e0_def algebra_simps)
    also have "\<dots> = 2 powi (bitlen p - 1) / 2 powi bitlen q" by (simp add: power_int_diff)
    also have "\<dots> < 2 powi (bitlen p - 1) / of_int q"
      using bitlen_powi(2)[OF q] two_powi_pos[of "bitlen p - 1"] qr
      by (intro divide_strict_left_mono) simp_all
    also have "\<dots> \<le> of_int p / of_int q"
      using bitlen_powi(1)[OF p] qr by (simp add: divide_right_mono)
    finally show ?thesis by (simp add: x)
  qed
  show ?thesis
  proof (cases "2 powi e0 \<le> x")
    case True
    then have "binade x = e0" by (simp add: binade_def pq e0_def Let_def)
    with True up show ?thesis by simp
  next
    case False
    then have "binade x = e0 - 1" by (simp add: binade_def pq e0_def Let_def)
    with False lo show ?thesis by simp
  qed
qed

lemma binade_unique:
  assumes "0 < x" "2 powi e \<le> x" "x < 2 powi (e + 1)"
  shows "binade x = e"
proof -
  from binade_bounds[OF assms(1)] have b: "2 powi binade x \<le> x" "x < 2 powi (binade x + 1)"
    by simp_all
  have "(2::rat) powi e < 2 powi (binade x + 1)" using assms(2) b(2) by simp
  then have 1: "e < binade x + 1"
    by (metis not_less power_int_increasing one_le_numeral)
  have "(2::rat) powi binade x < 2 powi (e + 1)" using assms(3) b(1) by simp
  then have 2: "binade x < e + 1"
    by (metis not_less power_int_increasing one_le_numeral)
  from 1 2 show ?thesis by simp
qed

lemma dbl_zero: "dbl 0 = 0"
  by (simp add: dbl_def)

lemma dbl_minus: "dbl (- x) = - dbl x"
  by (simp add: dbl_def sgn_minus Let_def)

lemma dbl_pos:
  assumes "0 < x" "2 powi e \<le> x" "x < 2 powi (e + 1)" "u = max e (- 1022) - 52"
  shows "dbl x = of_int (rne (x / 2 powi u)) * 2 powi u"
  using assms binade_unique[OF assms(1,2,3)] by (simp add: dbl_def Let_def)

lemma rne_near:
  assumes "of_int m - 1 / 2 < y" "y < of_int m + 1 / 2"
  shows "rne y = m"
proof -
  consider "\<lfloor>y\<rfloor> = m" | "\<lfloor>y\<rfloor> = m - 1"
  proof -
    have "m - 1 \<le> \<lfloor>y\<rfloor>" using assms(1) by (simp add: le_floor_iff) 
    moreover have "\<lfloor>y\<rfloor> \<le> m" using assms(2) by (simp add: floor_le_iff)
    ultimately show ?thesis using that by linarith
  qed
  then show ?thesis
  proof cases
    case 1
    then have "of_int m \<le> y" using of_int_floor_le[of y] by simp
    with assms(2) 1 show ?thesis by (simp add: rne_def Let_def)
  next
    case 2
    have "y < of_int m" using 2 floor_less_iff[of y m] by linarith 
    with assms(1) 2 show ?thesis by (simp add: rne_def Let_def)
  qed
qed

lemma rne_tie:
  assumes "y = of_int f + 1 / 2"
  shows "rne y = (if even f then f else f + 1)"
proof -
  have "\<lfloor>y\<rfloor> = f" unfolding assms by (simp add: floor_unique)
  then show ?thesis by (simp add: rne_def Let_def assms)
qed

text \<open>The rule the concrete values are obtained with.\<close>

lemma dbl_scaled:
  assumes "2 ^ 52 \<le> x * 2 ^ k" "x * 2 ^ k < 2 ^ 53" "k \<le> 1074"
  shows "dbl x = of_int (rne (x * 2 ^ k)) / 2 ^ k"
proof -
  define e where "e = 52 - int k"
  define u where "u = - int k"
  have p2: "(2::rat) powi u = 1 / 2 ^ k" by (simp add: u_def power_int_def divide_simps)
  have x: "0 < x"
  proof -
    have "(0::rat) < 2 ^ 52" by simp
    with assms(1) have "0 < x * 2 ^ k" by linarith
    then show ?thesis by (simp add: zero_less_mult_iff)
  qed
  have pe: "(2::rat) powi e = 2 ^ 52 / 2 ^ k"
    unfolding e_def by (simp add: power_int_diff)
  have pe1: "(2::rat) powi (e + 1) = 2 ^ 53 / 2 ^ k"
  proof -
    have "e + 1 = 53 - int k" by (simp add: e_def)
    then show ?thesis by (simp add: power_int_diff)
  qed
  have lo: "2 powi e \<le> x" unfolding pe using assms(1) by (simp add: divide_le_eq)
  have hi: "x < 2 powi (e + 1)" unfolding pe1 using assms(2) by (simp add: less_divide_eq)
  have ue: "u = max e (- 1022) - 52" using assms(3) by (simp add: e_def u_def)
  have y: "x / 2 powi u = x * 2 ^ k" by (simp add: p2)
  from dbl_pos[OF x lo hi ue] show ?thesis by (simp add: y p2)
qed

lemma dbl_normal:
  assumes "2 ^ 52 \<le> x * 2 ^ k" "x * 2 ^ k < 2 ^ 53" "k \<le> 1074"
    and "of_int m - 1 / 2 < x * 2 ^ k" "x * 2 ^ k < of_int m + 1 / 2"
    and "r = of_int m / 2 ^ k"
  shows "dbl x = r"
  using dbl_scaled[OF assms(1-3)] rne_near[OF assms(4,5)] assms(6) by simp

lemma dbl_normal_tie:
  assumes "2 ^ 52 \<le> x * 2 ^ k" "x * 2 ^ k < 2 ^ 53" "k \<le> 1074"
    and "x * 2 ^ k = of_int f + 1 / 2"
    and "r = of_int (if even f then f else f + 1) / 2 ^ k"
  shows "dbl x = r"
  using dbl_scaled[OF assms(1-3)] rne_tie[OF assms(4)] assms(5) by simp

subsection \<open>Values\<close>

text \<open>The floor of a quotient of numerals, for the evaluation of \<open>toFixed\<close>.\<close>

lemma floor_numeral_div: "\<lfloor>numeral a / numeral b :: rat\<rfloor> = numeral a div numeral b"
  using floor_divide_of_int_eq[of "numeral a" "numeral b", where ?'a = rat] by simp

text \<open>
  The doubles that the runs of the claims meet. Each is obtained with \<open>dbl_normal\<close> (or
  \<open>dbl_normal_tie\<close>) from the scaling \<open>k\<close> that brings the argument into \<open>[2^52, 2^53)\<close> and
  the integer \<open>m\<close> nearest to the scaled argument.
\<close>

lemma dbl_0: "dbl (1 / 1000) = 1152921504606847 / 1152921504606846976"
  by (rule dbl_normal[where k = 62 and m = 4611686018427388]) simp_all

lemma dbl_1: "dbl (1 / 50) = 5764607523034235 / 288230376151711744"
  by (rule dbl_normal[where k = 58 and m = 5764607523034235]) simp_all

lemma dbl_2: "dbl (3 / 40) = 5404319552844595 / 72057594037927936"
  by (rule dbl_normal[where k = 56 and m = 5404319552844595]) simp_all

lemma dbl_3: "dbl (1 / 10) = 3602879701896397 / 36028797018963968"
  by (rule dbl_normal[where k = 56 and m = 7205759403792794]) simp_all

lemma dbl_4: "dbl (3602879701896397 / 36028797018963968) = 3602879701896397 / 36028797018963968"
  by (rule dbl_normal[where k = 56 and m = 7205759403792794]) simp_all

lemma dbl_5: "dbl (1 / 5) = 3602879701896397 / 18014398509481984"
  by (rule dbl_normal[where k = 55 and m = 7205759403792794]) simp_all

lemma dbl_6: "dbl (3602879701896397 / 18014398509481984) = 3602879701896397 / 18014398509481984"
  by (rule dbl_normal[where k = 55 and m = 7205759403792794]) simp_all

lemma dbl_7: "dbl (3 / 10) = 5404319552844595 / 18014398509481984"
  by (rule dbl_normal[where k = 54 and m = 5404319552844595]) simp_all

lemma dbl_8: "dbl (10808639105689191 / 36028797018963968) = 1351079888211149 / 4503599627370496"
  by (rule dbl_normal_tie[where k = 54 and f = 5404319552844595]) simp_all

lemma dbl_9: "dbl (7500000000000001 / 25000000000000000) = 1351079888211149 / 4503599627370496"
  by (rule dbl_normal[where k = 54 and m = 5404319552844596]) simp_all

lemma dbl_10: "dbl (1) = 1"
  by (rule dbl_normal[where k = 52 and m = 4503599627370496]) simp_all

lemma dbl_11: "dbl (144115188075855875 / 144115188075855872) = 1"
  by (rule dbl_normal[where k = 52 and m = 4503599627370496]) simp_all

lemma dbl_12: "dbl (6050304624395551 / 4503599627370496) = 6050304624395551 / 4503599627370496"
  by (rule dbl_normal[where k = 52 and m = 6050304624395551]) simp_all

lemma dbl_13: "dbl (3 / 2) = 3 / 2"
  by (rule dbl_normal[where k = 52 and m = 6755399441055744]) simp_all

lemma dbl_14: "dbl (157 / 100) = 7070651414971679 / 4503599627370496"
  by (rule dbl_normal[where k = 52 and m = 7070651414971679]) simp_all

lemma dbl_15: "dbl (7093169413108531 / 4503599627370496) = 7093169413108531 / 4503599627370496"
  by (rule dbl_normal[where k = 52 and m = 7093169413108531]) simp_all

lemma dbl_16: "dbl (113490710609736499 / 72057594037927936) = 7093169413108531 / 4503599627370496"
  by (rule dbl_normal[where k = 52 and m = 7093169413108531]) simp_all

lemma dbl_17: "dbl (79 / 50) = 889460926405673 / 562949953421312"
  by (rule dbl_normal[where k = 52 and m = 7115687411245384]) simp_all

lemma dbl_18: "dbl (144115188075855875 / 72057594037927936) = 2"
  by (rule dbl_normal[where k = 51 and m = 4503599627370496]) simp_all

lemma dbl_19: "dbl (12258938923190846 / 5951788382546821) = 4638047358029169 / 2251799813685248"
  by (rule dbl_normal[where k = 51 and m = 4638047358029169]) simp_all

lemma dbl_20: "dbl (12614301081288050 / 5577426663521649) = 318301818856625 / 140737488355328"
  by (rule dbl_normal[where k = 51 and m = 5092829101706000]) simp_all

lemma dbl_21: "dbl (10555311626649600 / 4505007002254049) = 5276007061118201 / 2251799813685248"
  by (rule dbl_normal[where k = 51 and m = 5276007061118201]) simp_all

lemma dbl_22: "dbl (5 / 2) = 5 / 2"
  by (rule dbl_normal[where k = 51 and m = 5629499534213120]) simp_all

lemma dbl_23: "dbl (101 / 40) = 5685794529555251 / 2251799813685248"
  by (rule dbl_normal[where k = 51 and m = 5685794529555251]) simp_all

lemma dbl_24: "dbl (4) = 4"
  by (rule dbl_normal[where k = 50 and m = 4503599627370496]) simp_all

lemma dbl_25: "dbl (5) = 5"
  by (rule dbl_normal[where k = 50 and m = 5629499534213120]) simp_all

lemma dbl_26: "dbl (15 / 2) = 15 / 2"
  by (rule dbl_normal[where k = 50 and m = 8444249301319680]) simp_all

lemma dbl_27: "dbl (176541105392923443 / 18014398509481984) = 2758454771764429 / 281474976710656"
  by (rule dbl_normal[where k = 49 and m = 5516909543528858]) simp_all

lemma dbl_28: "dbl (10) = 10"
  by (rule dbl_normal[where k = 49 and m = 5629499534213120]) simp_all

lemma dbl_29: "dbl (36) = 36"
  by (rule dbl_normal[where k = 47 and m = 5066549580791808]) simp_all

lemma dbl_30: "dbl (3963 / 100) = 5577426663521649 / 140737488355328"
  by (rule dbl_normal[where k = 47 and m = 5577426663521649]) simp_all

lemma dbl_31: "dbl (5577426663521649 / 140737488355328) = 5577426663521649 / 140737488355328"
  by (rule dbl_normal[where k = 47 and m = 5577426663521649]) simp_all

lemma dbl_32: "dbl (180143985094819840 / 3602879701896397) = 50"
  by (rule dbl_normal[where k = 47 and m = 7036874417766400]) simp_all

lemma dbl_33: "dbl (50) = 50"
  by (rule dbl_normal[where k = 47 and m = 7036874417766400]) simp_all

lemma dbl_34: "dbl (3518437208883201 / 70368744177664) = 3518437208883201 / 70368744177664"
  by (rule dbl_normal[where k = 47 and m = 7036874417766402]) simp_all

lemma dbl_35: "dbl (1759218604441601 / 35184372088832) = 1759218604441601 / 35184372088832"
  by (rule dbl_normal[where k = 47 and m = 7036874417766404]) simp_all

lemma dbl_36: "dbl (101 / 2) = 101 / 2"
  by (rule dbl_normal[where k = 47 and m = 7107243161944064]) simp_all

lemma dbl_37: "dbl (105 / 2) = 105 / 2"
  by (rule dbl_normal[where k = 47 and m = 7388718138654720]) simp_all

lemma dbl_38: "dbl (2651 / 50) = 7461901632599491 / 140737488355328"
  by (rule dbl_normal[where k = 47 and m = 7461901632599491]) simp_all

lemma dbl_39: "dbl (7462605320041267 / 140737488355328) = 7462605320041267 / 140737488355328"
  by (rule dbl_normal[where k = 47 and m = 7462605320041267]) simp_all

lemma dbl_40: "dbl (119401685120660275 / 2251799813685248) = 7462605320041267 / 140737488355328"
  by (rule dbl_normal[where k = 47 and m = 7462605320041267]) simp_all

lemma dbl_41: "dbl (5303 / 100) = 1865827251870761 / 35184372088832"
  by (rule dbl_normal[where k = 47 and m = 7463309007483044]) simp_all

lemma dbl_42: "dbl (113 / 2) = 113 / 2"
  by (rule dbl_normal[where k = 47 and m = 7951668092076032]) simp_all

lemma dbl_43: "dbl (64) = 64"
  by (rule dbl_normal[where k = 46 and m = 4503599627370496]) simp_all

lemma dbl_44: "dbl (4505007002254049 / 70368744177664) = 4505007002254049 / 70368744177664"
  by (rule dbl_normal[where k = 46 and m = 4505007002254049]) simp_all

lemma dbl_45: "dbl (3201 / 50) = 4505007002254049 / 70368744177664"
  by (rule dbl_normal[where k = 46 and m = 4505007002254049]) simp_all

lemma dbl_46: "dbl (5951788382546821 / 70368744177664) = 5951788382546821 / 70368744177664"
  by (rule dbl_normal[where k = 46 and m = 5951788382546821]) simp_all

lemma dbl_47: "dbl (4229 / 50) = 5951788382546821 / 70368744177664"
  by (rule dbl_normal[where k = 46 and m = 5951788382546821]) simp_all

lemma dbl_48: "dbl (6050304624395551 / 70368744177664) = 6050304624395551 / 70368744177664"
  by (rule dbl_normal[where k = 46 and m = 6050304624395551]) simp_all

lemma dbl_49: "dbl (6307150540644025 / 70368744177664) = 6307150540644025 / 70368744177664"
  by (rule dbl_normal[where k = 46 and m = 6307150540644025]) simp_all

lemma dbl_50: "dbl (353082210785846912 / 3602879701896397) = 98"
  by (rule dbl_normal[where k = 46 and m = 6896136929411072]) simp_all

lemma dbl_51: "dbl (449008882848838451 / 4503599627370496) = 7015763794513101 / 70368744177664"
  by (rule dbl_normal[where k = 46 and m = 7015763794513101]) simp_all

lemma dbl_52: "dbl (100) = 100"
  by (rule dbl_normal[where k = 46 and m = 7036874417766400]) simp_all

lemma dbl_53: "dbl (12421 / 100) = 8740501714307645 / 70368744177664"
  by (rule dbl_normal[where k = 46 and m = 8740501714307645]) simp_all

lemma dbl_54: "dbl (17481003428615291 / 140737488355328) = 4370250857153823 / 35184372088832"
  by (rule dbl_normal_tie[where k = 46 and f = 8740501714307645]) simp_all

lemma dbl_55: "dbl (9008606629624545 / 70368744177664) = 281518957175767 / 2199023255552"
  by (rule dbl_normal_tie[where k = 45 and f = 4504303314812272]) simp_all

lemma dbl_56: "dbl (6401 / 50) = 4504303314812273 / 35184372088832"
  by (rule dbl_normal[where k = 45 and m = 4504303314812273]) simp_all

lemma dbl_57: "dbl (150) = 150"
  by (rule dbl_normal[where k = 45 and m = 5277655813324800]) simp_all

lemma dbl_58: "dbl (17421 / 100) = 6129469461595423 / 35184372088832"
  by (rule dbl_normal[where k = 45 and m = 6129469461595423]) simp_all

lemma dbl_59: "dbl (6129469461595423 / 35184372088832) = 6129469461595423 / 35184372088832"
  by (rule dbl_normal[where k = 45 and m = 6129469461595423]) simp_all

lemma dbl_60: "dbl (8901 / 50) = 6263521919253873 / 35184372088832"
  by (rule dbl_normal[where k = 45 and m = 6263521919253873]) simp_all

lemma dbl_61: "dbl (200) = 200"
  by (rule dbl_normal[where k = 45 and m = 7036874417766400]) simp_all

lemma dbl_62: "dbl (236) = 236"
  by (rule dbl_normal[where k = 45 and m = 8303511812964352]) simp_all

lemma dbl_63: "dbl (250) = 250"
  by (rule dbl_normal[where k = 45 and m = 8796093022208000]) simp_all

lemma dbl_64: "dbl (505 / 2) = 505 / 2"
  by (rule dbl_normal[where k = 45 and m = 8884053952430080]) simp_all

lemma dbl_65: "dbl (400) = 400"
  by (rule dbl_normal[where k = 44 and m = 7036874417766400]) simp_all

lemma dbl_66: "dbl (3600) = 3600"
  by (rule dbl_normal[where k = 41 and m = 7916483719987200]) simp_all

lemmas dbl_facts =
  dbl_zero dbl_minus dbl_0 dbl_1 dbl_2 dbl_3 dbl_4 dbl_5 dbl_6 dbl_7 dbl_8 dbl_9 dbl_10
  dbl_11 dbl_12 dbl_13 dbl_14 dbl_15 dbl_16 dbl_17 dbl_18 dbl_19 dbl_20 dbl_21 dbl_22 dbl_23
  dbl_24 dbl_25 dbl_26 dbl_27 dbl_28 dbl_29 dbl_30 dbl_31 dbl_32 dbl_33 dbl_34 dbl_35 dbl_36
  dbl_37 dbl_38 dbl_39 dbl_40 dbl_41 dbl_42 dbl_43 dbl_44 dbl_45 dbl_46 dbl_47 dbl_48 dbl_49
  dbl_50 dbl_51 dbl_52 dbl_53 dbl_54 dbl_55 dbl_56 dbl_57 dbl_58 dbl_59 dbl_60 dbl_61 dbl_62
  dbl_63 dbl_64 dbl_65 dbl_66

text \<open>What unfolds the arithmetic of a run, and what unfolds the composer.\<close>

lemmas ieee_ops = dadd_def dsub_def dmul_def ddiv_def toFixed_ieee_def toFixed_def or0_def
  floor_numeral_div

lemmas composer_ieee = generateBillFromMap_ieee_def availableItemsOf_ieee_def expensiveFirstOf_def
  effortMultiplier_ieee_def baseAttempts_def Let_def attemptLoop_ieee.simps newAttempt_def
  doneCondition_def pickItem_ieee_def getRem_ieee_def usedOf_def canSellInFloat_def rem1_def
  absMaxOf_ieee_def chooseQty_ieee_def pushEntry_ieee_def getItemBillTotal_ieee_def
  calculateItemTotal_ieee_def isValid_ieee_def safeLanding_ieee_def commitQty_ieee_def
  formatResult_ieee_def formatEntry_ieee_def priced_def

section \<open>The tax formula and the bounds of a bill in exact arithmetic\<close>

text \<open>
  What the code of the tax calculator and of the composers does when no operation rounds: the
  properties of this section hold of the exact reading for all inputs. They say what the
  code is written to achieve; the double-precision reading decides whether the program
  achieves it.

  On numbers the tax calculator returns \<open>toFixed(2)\<close> of
  \<open>unitPrice*qty*(1 + gstPercent/100) + mrp*qty*(cessPercent/100)\<close>: a whole number of
  hundredths that differs from that value by at most half a hundredth.
\<close>

lemma formula_in_exact_arithmetic:
  "calculateItemTotal (Num p) (Num q) (Num g) (Num c) (Num m)
     = Num (toFixed 2 (p * q * (1 + g / 100) + m * q * (c / 100)))
   \<and> (\<exists>k::int. calculateItemTotal (Num p) (Num q) (Num g) (Num c) (Num m) = Num (of_int k / 100)
        \<and> \<bar>of_int k / 100 - (p * q * (1 + g / 100) + m * q * (c / 100))\<bar> \<le> 1 / 200)
   \<and> calculateItemTotal (Num 100) (Num 2) (Num 18) (Num 0) (Num 0) = Num 236
   \<and> calculateItemTotal (Num 50) (Num 1) (Num 5) (Num 2) (Num 200) = Num (565 / 10)"
proof -
  define v where "v = p * q * (1 + g / 100) + m * q * (c / 100)"
  have v: "p * q + p * q * g / 100 + m * q * c / 100 = v"
    by (simp add: v_def field_simps)
  have eq: "calculateItemTotal (Num p) (Num q) (Num g) (Num c) (Num m) = Num (toFixed 2 v)"
    by (simp only: calculateItemTotal_Num v)
  obtain k :: int where k: "toFixed 2 v = of_int k / 10 ^ 2"
    using toFixed_int_multiple by blast
  have err: "\<bar>toFixed 2 v - v\<bar> \<le> 1 / (2 * 10 ^ 2)" by (rule toFixed_error)
  have ex: "\<exists>k::int. calculateItemTotal (Num p) (Num q) (Num g) (Num c) (Num m) = Num (of_int k / 100)
        \<and> \<bar>of_int k / 100 - v\<bar> \<le> 1 / 200"
  proof (intro exI conjI)
    show "calculateItemTotal (Num p) (Num q) (Num g) (Num c) (Num m) = Num (of_int k / 100)"
      using eq k by simp
    show "\<bar>of_int k / 100 - v\<bar> \<le> 1 / 200" using err k by simp
  qed
  have e1: "calculateItemTotal (Num 100) (Num 2) (Num 18) (Num 0) (Num 0) = Num 236"
    by code_simp
  have e2: "calculateItemTotal (Num 50) (Num 1) (Num 5) (Num 2) (Num 200) = Num (565 / 10)"
    by code_simp
  show ?thesis using eq ex e1 e2 unfolding v_def by blast
qed

text \<open>
  The total of a bill that a composer returns as a success lies within the bounds that were
  asked for, and the bill has at least as many lines as the tier it was composed on asks
  for. Composers of part_001, part_002 and part_000.
\<close>

lemma acceptance_in_exact_arithmetic:
  "(generateBillFromMap rnd stock targetMin targetMax dayTotalRemaining d margin md currentFailures k
      = (b, stock', k') \<longrightarrow> success b \<longrightarrow>
      (md = RANGE \<longrightarrow> targetMin \<le> total b \<and> total b \<le> targetMax)
      \<and> (md = EXACT \<longrightarrow> \<bar>targetMax - total b\<bar> \<le> margin)
      \<and> (\<exists>t st. tierLoop rnd md margin targetMin targetMax dayTotalRemaining (availableItemsOf stock)
                    (expensiveFirstOf (availableItemsOf stock)) (effortMultiplier currentFailures)
                    baseAttempts k = (Some (t, st), k')
               \<and> t \<in> set baseAttempts \<and> count t \<le> length (items b)))
   \<and> (generateBillFromMap_p2 rnd stock targetMin targetMax dayTotalRemaining d margin md currentFailures
        dailyUsedItemIds billCounter k = (b2, stock2, billCounter2, k2) \<longrightarrow> success b2 \<longrightarrow>
      (md = RANGE \<longrightarrow> targetMin \<le> total b2 \<and> total b2 \<le> targetMax)
      \<and> (md = EXACT \<longrightarrow> \<bar>targetMax - total b2\<bar> \<le> margin)
      \<and> (\<exists>t st. tierLoop_p2 rnd md margin targetMin targetMax dayTotalRemaining (availableItemsOf stock)
                    (freshItemsOf stock dailyUsedItemIds) (expensiveFirstOf (availableItemsOf stock))
                    (expensiveFirstOf (freshItemsOf stock dailyUsedItemIds))
                    (effortMultiplier_p2 currentFailures) baseAttempts k = (Some (t, st), k2)
               \<and> t \<in> set baseAttempts \<and> count t \<le> length (items b2)))
   \<and> (generateBillFromMap_p0 rnd stock targetMin targetMax dayTotalRemaining d margin md currentFailures
        billCounter k = (b0, stock0, billCounter0, k0) \<longrightarrow> success b0 \<longrightarrow>
      (md = RANGE \<longrightarrow> targetMin \<le> total b0 \<and> total b0 \<le> targetMax)
      \<and> (md = EXACT \<longrightarrow> \<bar>targetMax - total b0\<bar> \<le> margin)
      \<and> (\<exists>t st. tierLoop_p0 rnd md margin targetMin targetMax dayTotalRemaining (availableItemsOf stock)
                    (effortMultiplier_p0 currentFailures) baseAttempts k = (Some (t, st), k0)
               \<and> t \<in> set baseAttempts \<and> count t \<le> length (items b0)))"
proof (intro conjI impI)
  assume g: "generateBillFromMap rnd stock targetMin targetMax dayTotalRemaining d margin md
               currentFailures k = (b, stock', k')" and s: "success b"
  from generateBillFromMap_success[OF g s] obtain t st where
    tl: "tierLoop rnd md margin targetMin targetMax dayTotalRemaining (availableItemsOf stock)
           (expensiveFirstOf (availableItemsOf stock)) (effortMultiplier currentFailures)
           baseAttempts k = (Some (t, st), k')"
    and b: "b = formatResult (currentBill st) (currentTotal st) targetMax d"
    by blast
  from tierLoop_Some[OF tl] obtain picks k1 where mem: "t \<in> set baseAttempts"
    and v: "isValid md margin targetMin targetMax (count t) st"
    and l: "safeLanding dayTotalRemaining margin st"
    and tr: "tracks picks (newAttempt k1) st" by blast
  note acc = accepted_bill[OF v l tracks_new_inv[OF tr] b]
  from acc show "md = RANGE \<Longrightarrow> targetMin \<le> total b" by simp
  from acc show "md = RANGE \<Longrightarrow> total b \<le> targetMax" by simp
  from acc show "md = EXACT \<Longrightarrow> \<bar>targetMax - total b\<bar> \<le> margin" by simp
  from acc tl mem show "\<exists>t st. tierLoop rnd md margin targetMin targetMax dayTotalRemaining
        (availableItemsOf stock) (expensiveFirstOf (availableItemsOf stock))
        (effortMultiplier currentFailures) baseAttempts k = (Some (t, st), k')
        \<and> t \<in> set baseAttempts \<and> count t \<le> length (items b)" by blast
next
  assume g: "generateBillFromMap_p2 rnd stock targetMin targetMax dayTotalRemaining d margin md
               currentFailures dailyUsedItemIds billCounter k = (b2, stock2, billCounter2, k2)"
    and s: "success b2"
  from generateBillFromMap_p2_success[OF g s] obtain t st where
    tl: "tierLoop_p2 rnd md margin targetMin targetMax dayTotalRemaining (availableItemsOf stock)
           (freshItemsOf stock dailyUsedItemIds) (expensiveFirstOf (availableItemsOf stock))
           (expensiveFirstOf (freshItemsOf stock dailyUsedItemIds))
           (effortMultiplier_p2 currentFailures) baseAttempts k = (Some (t, st), k2)"
    and b: "b2 = (formatResult (currentBill st) (currentTotal st) targetMax d)
                   \<lparr>tempUsedMap := Some (tempUsed st)\<rparr>"
    by blast
  define bf where "bf = formatResult (currentBill st) (currentTotal st) targetMax d"
  have same: "total b2 = total bf" "items b2 = items bf" by (simp_all add: b bf_def)
  from tierLoop_p2_Some[OF tl] obtain picks k1 where mem: "t \<in> set baseAttempts"
    and v: "isValid md margin targetMin targetMax (count t) st"
    and l: "safeLanding dayTotalRemaining margin st"
    and tr: "tracks picks (newAttempt k1) st" by blast
  note acc = accepted_bill[OF v l tracks_new_inv[OF tr] bf_def, unfolded same[symmetric]]
  from acc show "md = RANGE \<Longrightarrow> targetMin \<le> total b2" by simp
  from acc show "md = RANGE \<Longrightarrow> total b2 \<le> targetMax" by simp
  from acc show "md = EXACT \<Longrightarrow> \<bar>targetMax - total b2\<bar> \<le> margin" by simp
  from acc tl mem show "\<exists>t st. tierLoop_p2 rnd md margin targetMin targetMax dayTotalRemaining
        (availableItemsOf stock) (freshItemsOf stock dailyUsedItemIds)
        (expensiveFirstOf (availableItemsOf stock)) (expensiveFirstOf (freshItemsOf stock dailyUsedItemIds))
        (effortMultiplier_p2 currentFailures) baseAttempts k = (Some (t, st), k2)
        \<and> t \<in> set baseAttempts \<and> count t \<le> length (items b2)" by blast
next
  assume g: "generateBillFromMap_p0 rnd stock targetMin targetMax dayTotalRemaining d margin md
               currentFailures billCounter k = (b0, stock0, billCounter0, k0)" and s: "success b0"
  from generateBillFromMap_p0_success[OF g s] obtain t st where
    tl: "tierLoop_p0 rnd md margin targetMin targetMax dayTotalRemaining (availableItemsOf stock)
           (effortMultiplier_p0 currentFailures) baseAttempts k = (Some (t, st), k0)"
    and b: "b0 = formatResult (currentBill st) (currentTotal st) targetMax d"
    by blast
  from tierLoop_p0_Some[OF tl] have mem: "t \<in> set baseAttempts"
    and v: "isValid md margin targetMin targetMax (count t) st"
    and l: "safeLanding dayTotalRemaining margin st"
    and inv: "attemptInv st" by simp_all
  note acc = accepted_bill[OF v l inv b]
  from acc show "md = RANGE \<Longrightarrow> targetMin \<le> total b0" by simp
  from acc show "md = RANGE \<Longrightarrow> total b0 \<le> targetMax" by simp
  from acc show "md = EXACT \<Longrightarrow> \<bar>targetMax - total b0\<bar> \<le> margin" by simp
  from acc tl mem show "\<exists>t st. tierLoop_p0 rnd md margin targetMin targetMax dayTotalRemaining
        (availableItemsOf stock) (effortMultiplier_p0 currentFailures) baseAttempts k = (Some (t, st), k0)
        \<and> t \<in> set baseAttempts \<and> count t \<le> length (items b0)" by blast
qed

text \<open>
  For a bill that a composer returns as a success, the day's remaining budget less the bill
  total is at most \<open>margin\<close> or more than 50. Composers of part_001, part_002 and part_000.
\<close>

lemma safe_landing_in_exact_arithmetic:
  "(generateBillFromMap rnd stock targetMin targetMax dayTotalRemaining d margin md currentFailures k
      = (b, stock', k') \<longrightarrow> success b \<longrightarrow>
      dayTotalRemaining - total b \<le> margin \<or> dayTotalRemaining - total b > 50)
   \<and> (generateBillFromMap_p2 rnd stock targetMin targetMax dayTotalRemaining d margin md currentFailures
        dailyUsedItemIds billCounter k = (b2, stock2, billCounter2, k2) \<longrightarrow> success b2 \<longrightarrow>
      dayTotalRemaining - total b2 \<le> margin \<or> dayTotalRemaining - total b2 > 50)
   \<and> (generateBillFromMap_p0 rnd stock targetMin targetMax dayTotalRemaining d margin md currentFailures
        billCounter k = (b0, stock0, billCounter0, k0) \<longrightarrow> success b0 \<longrightarrow>
      dayTotalRemaining - total b0 \<le> margin \<or> dayTotalRemaining - total b0 > 50)"
proof (intro conjI impI)
  assume g: "generateBillFromMap rnd stock targetMin targetMax dayTotalRemaining d margin md
               currentFailures k = (b, stock', k')" and s: "success b"
  from generateBillFromMap_success[OF g s] obtain t st where
    tl: "tierLoop rnd md margin targetMin targetMax dayTotalRemaining (availableItemsOf stock)
           (expensiveFirstOf (availableItemsOf stock)) (effortMultiplier currentFailures)
           baseAttempts k = (Some (t, st), k')"
    and b: "b = formatResult (currentBill st) (currentTotal st) targetMax d"
    by blast
  from tierLoop_Some[OF tl] obtain picks k1 where
    v: "isValid md margin targetMin targetMax (count t) st"
    and l: "safeLanding dayTotalRemaining margin st"
    and tr: "tracks picks (newAttempt k1) st" by blast
  from accepted_bill[OF v l tracks_new_inv[OF tr] b]
  show "dayTotalRemaining - total b \<le> margin \<or> dayTotalRemaining - total b > 50" by simp
next
  assume g: "generateBillFromMap_p2 rnd stock targetMin targetMax dayTotalRemaining d margin md
               currentFailures dailyUsedItemIds billCounter k = (b2, stock2, billCounter2, k2)"
    and s: "success b2"
  from generateBillFromMap_p2_success[OF g s] obtain t st where
    tl: "tierLoop_p2 rnd md margin targetMin targetMax dayTotalRemaining (availableItemsOf stock)
           (freshItemsOf stock dailyUsedItemIds) (expensiveFirstOf (availableItemsOf stock))
           (expensiveFirstOf (freshItemsOf stock dailyUsedItemIds))
           (effortMultiplier_p2 currentFailures) baseAttempts k = (Some (t, st), k2)"
    and b: "b2 = (formatResult (currentBill st) (currentTotal st) targetMax d)
                   \<lparr>tempUsedMap := Some (tempUsed st)\<rparr>"
    by blast
  define bf where "bf = formatResult (currentBill st) (currentTotal st) targetMax d"
  have same: "total b2 = total bf" by (simp add: b bf_def)
  from tierLoop_p2_Some[OF tl] obtain picks k1 where
    v: "isValid md margin targetMin targetMax (count t) st"
    and l: "safeLanding dayTotalRemaining margin st"
    and tr: "tracks picks (newAttempt k1) st" by blast
  from accepted_bill[OF v l tracks_new_inv[OF tr] bf_def]
  show "dayTotalRemaining - total b2 \<le> margin \<or> dayTotalRemaining - total b2 > 50"
    by (simp add: same)
next
  assume g: "generateBillFromMap_p0 rnd stock targetMin targetMax dayTotalRemaining d margin md
               currentFailures billCounter k = (b0, stock0, billCounter0, k0)" and s: "success b0"
  from generateBillFromMap_p0_success[OF g s] obtain t st where
    tl: "tierLoop_p0 rnd md margin targetMin targetMax dayTotalRemaining (availableItemsOf stock)
           (effortMultiplier_p0 currentFailures) baseAttempts k = (Some (t, st), k0)"
    and b: "b0 = formatResult (currentBill st) (currentTotal st) targetMax d"
    by blast
  from tierLoop_p0_Some[OF tl] have
    v: "isValid md margin targetMin targetMax (count t) st"
    and l: "safeLanding dayTotalRemaining margin st"
    and inv: "attemptInv st" by simp_all
  from accepted_bill[OF v l inv b]
  show "dayTotalRemaining - total b0 \<le> margin \<or> dayTotalRemaining - total b0 > 50" by simp
qed

section \<open>Claims about the tax calculator\<close>

text \<open>
  C5. The claim says that for all inputs the tax calculator returns
  \<open>unitPrice*qty*(1 + gstPercent/100) + mrp*qty*(cessPercent/100)\<close> rounded to two decimal
  places. The two examples of the claim come out as it says: \<open>lineTotal(100, 2, 18, 0, 0)\<close>
  is 236 and \<open>lineTotal(50, 1, 5, 2, 200)\<close> is 56.5. But the source applies \<open>toFixed(2)\<close> to
  the double that its products and sums gave, and that double can lie on the other side of a
  rounding boundary than the value of the formula. \<open>calculateItemTotal(1.5, 1, 5, 0, 0)\<close>
  returns 1.57, where the formula gives 1.575, which rounds to 1.58 by the rule of
  \<open>toFixed\<close> and by rounding half to even alike; \<open>calculateItemTotal(50.5, 1, 5, 0, 0)\<close>
  returns 53.02, where the formula gives 53.025, which the rule of \<open>toFixed\<close> rounds to
  53.03. On the exact value of the formula the same code is right for all inputs
  (\<open>formula_in_exact_arithmetic\<close>).
\<close>

theorem calculateItemTotal_misrounds:
  "calculateItemTotal_ieee 100 2 18 0 0 = 236
   \<and> calculateItemTotal_ieee 50 1 5 2 200 = 565 / 10
   \<and> calculateItemTotal_ieee (3 / 2) 1 5 0 0 = dbl (157 / 100)
   \<and> toFixed 2 (3 / 2 * 1 * (1 + 5 / 100) + 0 * 1 * (0 / 100)) = 158 / 100
   \<and> of_int (rne ((3 / 2 * 1 * (1 + 5 / 100) + 0 * 1 * (0 / 100)) * 100)) / 100 = (158 / 100 :: rat)
   \<and> calculateItemTotal_ieee (3 / 2) 1 5 0 0 < dbl (158 / 100)
   \<and> calculateItemTotal_ieee (101 / 2) 1 5 0 0 = dbl (5302 / 100)
   \<and> toFixed 2 (101 / 2 * 1 * (1 + 5 / 100) + 0 * 1 * (0 / 100)) = 5303 / 100
   \<and> calculateItemTotal_ieee (101 / 2) 1 5 0 0 < dbl (5303 / 100)"
proof -
  have a: "calculateItemTotal_ieee 100 2 18 0 0 = 236"
    by (simp add: calculateItemTotal_ieee_def ieee_ops dbl_facts)
  have b: "calculateItemTotal_ieee 50 1 5 2 200 = 565 / 10"
    by (simp add: calculateItemTotal_ieee_def ieee_ops dbl_facts)
  have c: "calculateItemTotal_ieee (3 / 2) 1 5 0 0 = dbl (157 / 100)"
    by (simp add: calculateItemTotal_ieee_def ieee_ops dbl_facts)
  have d: "toFixed 2 (3 / 2 * 1 * (1 + 5 / 100) + 0 * 1 * (0 / 100)) = 158 / 100"
    by (simp add: toFixed_def floor_numeral_div)
  have e: "of_int (rne ((3 / 2 * 1 * (1 + 5 / 100) + 0 * 1 * (0 / 100)) * 100)) / 100 = (158 / 100 :: rat)"
    using rne_tie[of "315 / 2" 157] by simp
  have f: "dbl (157 / 100) < dbl (158 / 100)"
    by (simp add: dbl_facts)
  have g: "calculateItemTotal_ieee (101 / 2) 1 5 0 0 = dbl (5302 / 100)"
    by (simp add: calculateItemTotal_ieee_def ieee_ops dbl_facts)
  have h: "toFixed 2 (101 / 2 * 1 * (1 + 5 / 100) + 0 * 1 * (0 / 100)) = 5303 / 100"
    by (simp add: toFixed_def floor_numeral_div)
  have i: "dbl (5302 / 100) < dbl (5303 / 100)"
    by (simp add: dbl_facts)
  from a b c d e f g h i show ?thesis by (simp only: simp_thms)
qed

text \<open>
  C8. The claim says a missing \<open>gstPercent\<close>, \<open>cessPercent\<close> or \<open>mrp\<close> counts as zero. The
  source guards \<open>mrp\<close> and \<open>cessPercent\<close> with \<open>|| 0\<close> and leaves \<open>gstPercent\<close> unguarded:
  with \<open>gstPercent\<close> missing the result is \<open>NaN\<close>, where \<open>gstPercent = 0\<close> gives 200. The
  program meets the case in \<open>buildStockMap\<close>: a row without the \<open>GST PERCENT\<close> cell gets the
  \<open>singleUnitCost\<close> \<open>NaN\<close>, where a cell holding 0 gives 100. A missing \<open>cessPercent\<close> or
  \<open>mrp\<close> does count as zero.
\<close>

theorem calculateItemTotal_missing_gst:
  "calculateItemTotal (Num 100) (Num 2) Undefined (Num 0) (Num 0) = NaN
   \<and> calculateItemTotal (Num 100) (Num 2) (Num 0) (Num 0) (Num 0) = Num 200
   \<and> singleUnitCostOf (Num 100) Undefined (Num 0) (Num 0) = NaN
   \<and> singleUnitCostOf (Num 100) (Num 0) (Num 0) (Num 0) = Num 100
   \<and> calculateItemTotal price q g Undefined m = calculateItemTotal price q g (Num 0) m
   \<and> calculateItemTotal price q g c Undefined = calculateItemTotal price q g c (Num 0)"
proof -
  have a: "calculateItemTotal (Num 100) (Num 2) Undefined (Num 0) (Num 0) = NaN" by code_simp
  have b: "calculateItemTotal (Num 100) (Num 2) (Num 0) (Num 0) (Num 0) = Num 200" by code_simp
  have c: "singleUnitCostOf (Num 100) Undefined (Num 0) (Num 0) = NaN" by code_simp
  have d: "singleUnitCostOf (Num 100) (Num 0) (Num 0) (Num 0) = Num 100" by code_simp
  have e: "calculateItemTotal price q g Undefined m = calculateItemTotal price q g (Num 0) m"
    by (simp add: calculateItemTotal_def)
  have f: "calculateItemTotal price q g c Undefined = calculateItemTotal price q g c (Num 0)"
    by (simp add: calculateItemTotal_def)
  from a b c d e f show ?thesis by (intro conjI)
qed

section \<open>Claims about the bill composer\<close>

text \<open>
  C1. The claim says that a successful bill has a total \<open>T\<close> with
  \<open>targetMin \<le> T \<le> targetMax\<close> in RANGE mode and \<open>abs(targetMax - T) \<le> margin\<close> in EXACT
  mode. The composer tests exactly these bounds (part_001, lines 223-231), but on
  \<open>currentTotal\<close>, the running sum of the line totals, and then returns
  \<open>+total.toFixed(2)\<close> (line 278). A sum of doubles need not be the double of a two-decimal
  number, so the rounding moves the total after the test has passed.

  RANGE: the stock holds A at 0.2 and B at 0.1, five of each, and \<open>Math.random()\<close> returns
  0; the call is \<open>generateBillFromMap(stockMap, 0.30000000000000004, 10, 100, date, 5,
  'RANGE', 2001)\<close>. The running sum of one A and one B is 0.30000000000000004 and passes the
  test; the bill is returned with the total 0.3, which is below \<open>targetMin\<close>.

  EXACT: the stock holds A at 84.58 and B at 39.63, five of each, and the call is the one
  the scheduler makes on a day of 174.21 that one bill may cover,
  \<open>generateBillFromMap(stockMap, 174.21, 174.21, 174.21, date, 50, 'EXACT', 0)\<close>. The
  running sum of one A and one B is 124.21000000000001, and 174.21 less this sum is 50 in
  double arithmetic: the test passes. The bill is returned with the total 124.21, and
  174.21 less 124.21 is more than 50, as a difference of doubles (50.000000000000014) and
  as a difference of the two numbers.

  In exact arithmetic, where the running sum is a whole number of hundredths, the same code
  keeps the bounds (\<open>acceptance_in_exact_arithmetic\<close>).
\<close>

theorem composer_total_out_of_bounds:
  "(case generateBillFromMap_ieee (\<lambda>_. 0)
           [(''A'', priced ''A'' (2 / 10) 5), (''B'', priced ''B'' (1 / 10) 5)]
           (dbl (30000000000000004 / 10 ^ 17)) 10 100 ''2024-01-01'' 5 RANGE 2001 0 of
      Inl e \<Rightarrow> False
    | Inr (b, stock', k') \<Rightarrow>
        success b
        \<and> map (\<lambda>l. (name l, itemQty l)) (items b) = [(''A'', 1), (''B'', 1)]
        \<and> total b = dbl (3 / 10)
        \<and> total b < dbl (30000000000000004 / 10 ^ 17))
   \<and> (case generateBillFromMap_ieee (\<lambda>_. 0)
              [(''A'', priced ''A'' (8458 / 100) 5), (''B'', priced ''B'' (3963 / 100) 5)]
              (dbl (17421 / 100)) (dbl (17421 / 100)) (dbl (17421 / 100)) ''2024-01-01'' 50 EXACT 0 0 of
         Inl e \<Rightarrow> False
       | Inr (b, stock', k') \<Rightarrow>
           success b
           \<and> map (\<lambda>l. (name l, itemQty l)) (items b) = [(''A'', 1), (''B'', 1)]
           \<and> total b = dbl (12421 / 100)
           \<and> 50 < \<bar>dsub (dbl (17421 / 100)) (total b)\<bar>
           \<and> 50 < \<bar>dbl (17421 / 100) - total b\<bar>)"
  by (simp add: composer_ieee ieee_ops dbl_facts)

text \<open>
  C2. A call of the composer that returns a failure leaves the stock map exactly as it was.
  Stated for part_001 and part_000, where only the accepted attempt is committed, for
  part_002, where the composer commits nothing, and for index.js, whose composer writes a row
  together with each line it pushes and whose callers take a result without a line as the
  failure.
\<close>

theorem failure_leaves_ledger:
  "(generateBillFromMap rnd stock targetMin targetMax dayTotalRemaining d margin md currentFailures k
      = (b, stock', k') \<longrightarrow> \<not> success b \<longrightarrow> stock' = stock)
   \<and> (generateBillFromMap_p2 rnd stock targetMin targetMax dayTotalRemaining d margin md currentFailures
        dailyUsedItemIds billCounter k = (b2, stock2, billCounter2, k2) \<longrightarrow> \<not> success b2 \<longrightarrow>
        stock2 = stock)
   \<and> (generateBillFromMap_p0 rnd stock targetMin targetMax dayTotalRemaining d margin md currentFailures
        billCounter k = (b0, stock0, billCounter0, k0) \<longrightarrow> \<not> success b0 \<longrightarrow> stock0 = stock)
   \<and> (generateBillFromMap_legacy rnd legacy billTarget d margin billCounter lastStartIndex k
        = (bl, legacy', billCounter', lastStartIndex', kl) \<longrightarrow> items_legacy bl = [] \<longrightarrow>
        legacy' = legacy)"
proof (intro conjI impI)
  assume "generateBillFromMap rnd stock targetMin targetMax dayTotalRemaining d margin md
            currentFailures k = (b, stock', k')" and "\<not> success b"
  then show "stock' = stock" by (rule generateBillFromMap_failure)
next
  assume "generateBillFromMap_p2 rnd stock targetMin targetMax dayTotalRemaining d margin md
            currentFailures dailyUsedItemIds billCounter k = (b2, stock2, billCounter2, k2)"
  from generateBillFromMap_p2_frame[OF this] show "stock2 = stock" by simp
next
  assume "generateBillFromMap_p0 rnd stock targetMin targetMax dayTotalRemaining d margin md
            currentFailures billCounter k = (b0, stock0, billCounter0, k0)" and "\<not> success b0"
  then show "stock0 = stock" by (rule generateBillFromMap_p0_failure)
next
  assume "generateBillFromMap_legacy rnd legacy billTarget d margin billCounter lastStartIndex k
            = (bl, legacy', billCounter', lastStartIndex', kl)" and "items_legacy bl = []"
  then show "legacy' = legacy" by (rule generateBillFromMap_legacy_failure)
qed

theorem failure_leaves_ledger_witness:
  "\<not> success (fst (generateBillFromMap (\<lambda>_. 0) [(''Tea'', tea)] 5000 6000 20000 ''2024-01-01'' 5 RANGE 2001 0))
   \<and> fst (snd (generateBillFromMap (\<lambda>_. 0) [(''Tea'', tea)] 5000 6000 20000 ''2024-01-01'' 5 RANGE 2001 0))
       = [(''Tea'', tea)]
   \<and> \<not> success (fst (generateBillFromMap_p2 (\<lambda>_. 0) [(''Tea'', tea)] 5000 6000 20000 ''2024-01-01'' 5 RANGE 401 {} 7 0))
   \<and> fst (snd (generateBillFromMap_p2 (\<lambda>_. 0) [(''Tea'', tea)] 5000 6000 20000 ''2024-01-01'' 5 RANGE 401 {} 7 0))
       = [(''Tea'', tea)]
   \<and> \<not> success (fst (generateBillFromMap_p0 (\<lambda>_. 0) [(''Tea'', tea)] 5000 6000 20000 ''2024-01-01'' 5 RANGE 2001 7 0))
   \<and> fst (snd (generateBillFromMap_p0 (\<lambda>_. 0) [(''Tea'', tea)] 5000 6000 20000 ''2024-01-01'' 5 RANGE 2001 7 0))
       = [(''Tea'', tea)]
   \<and> items_legacy (fst (generateBillFromMap_legacy (\<lambda>_. 0) [(''Rice'', rice)] 20 ''2024-01-01'' 5 0 0 0)) = []
   \<and> fst (snd (generateBillFromMap_legacy (\<lambda>_. 0) [(''Rice'', rice)] 20 ''2024-01-01'' 5 0 0 0))
       = [(''Rice'', rice)]"
proof -
  note p1 = failure_leaves_ledger[THEN conjunct1, rule_format, OF demo_fail]
  note p2 = failure_leaves_ledger[THEN conjunct2, THEN conjunct1, rule_format, OF demo_fail_p2]
  note p0 = failure_leaves_ledger[THEN conjunct2, THEN conjunct2, THEN conjunct1, rule_format,
      OF demo_fail_p0]
  note pl = failure_leaves_ledger[THEN conjunct2, THEN conjunct2, THEN conjunct2, rule_format,
      OF demo_fail_legacy]
  from p1 p2 p0 pl show ?thesis by (simp add: demo_fail demo_fail_p2 demo_fail_p0 demo_fail_legacy)
qed

text \<open>
  C4. The claim says that after an accepted bill the day's remaining budget less the bill
  total is at most \<open>margin\<close> or more than 50. The composer tests this (part_001, lines 234
  and 243, under the comment \<open>We check > 50 to avoid being left with ...\<close>), but on
  \<open>dayTotalRemaining - currentTotal\<close>, with \<open>currentTotal\<close> the running sum of the line
  totals, and the bill carries \<open>+total.toFixed(2)\<close>.

  The stock holds A at 64.02 and B at 64, five of each, and \<open>Math.random()\<close> returns 0; the
  call is \<open>generateBillFromMap(stockMap, 100, 150, 178.02, date, 5, 'RANGE', 2001)\<close>. The
  running sum of one A and one B is 128.01999999999998, which leaves 50.00000000000003 of
  178.02: more than 50, the test passes. The bill is returned with the total 128.02, and
  178.02 less 128.02 is 50, as a difference of doubles and as a difference of the two
  numbers: more than the margin 5 and not more than 50. The same bill comes back from
  \<open>generateBillFromMap(stockMap, 100, 150, 178.02, date, 5, 'RANGE', 0)\<close>, the first call
  the scheduler makes on a day of 178.02 with \<open>minBill\<close> 100 and \<open>maxBill\<close> 150.

  In exact arithmetic the same code keeps the bound (\<open>safe_landing_in_exact_arithmetic\<close>).
\<close>

theorem safe_landing_missed:
  "(case generateBillFromMap_ieee (\<lambda>_. 0)
           [(''A'', priced ''A'' (6402 / 100) 5), (''B'', priced ''B'' 64 5)]
           100 150 (dbl (17802 / 100)) ''2024-01-01'' 5 RANGE 2001 0 of
      Inl e \<Rightarrow> False
    | Inr (b, stock', k') \<Rightarrow>
        success b
        \<and> map (\<lambda>l. (name l, itemQty l)) (items b) = [(''A'', 1), (''B'', 1)]
        \<and> map (\<lambda>(n, i). (n, remainingQty i)) stock' = [(''A'', 4), (''B'', 4)]
        \<and> total b = dbl (12802 / 100)
        \<and> dsub (dbl (17802 / 100)) (total b) = 50
        \<and> dbl (17802 / 100) - total b = 50
        \<and> 5 < dbl (17802 / 100) - total b)
   \<and> (case generateBillFromMap_ieee (\<lambda>_. 0)
              [(''A'', priced ''A'' (6402 / 100) 5), (''B'', priced ''B'' 64 5)]
              100 150 (dbl (17802 / 100)) ''2024-01-01'' 5 RANGE 0 0 of
         Inl e \<Rightarrow> False
       | Inr (b, stock', k') \<Rightarrow>
           success b
           \<and> total b = dbl (12802 / 100)
           \<and> dsub (dbl (17802 / 100)) (total b) = 50
           \<and> dbl (17802 / 100) - total b = 50)"
  by (simp add: composer_ieee ieee_ops dbl_facts)

text \<open>
  C7. For every line of a committed bill, the remaining quantity of the line's item after
  the commit is its remaining quantity before the call less the line's quantity, up to 0.001.
  For part_001 the commit is the one inside the composer; for part_002 it is the caller's
  (\<open>commitTempUsed\<close>). The stock map is one that \<open>buildStockMap\<close> built and the random
  numbers lie in \<open>[0, 1)\<close>.
\<close>

theorem ledger_conservation:
  assumes "wf_stock stock" and "rng_ok rnd"
  shows "(generateBillFromMap rnd stock targetMin targetMax dayTotalRemaining d margin md currentFailures k
            = (b, stock', k') \<longrightarrow> success b \<longrightarrow>
          (\<forall>l \<in> set (items b). \<exists>pre post.
              map_of stock (name l) = Some pre \<and> map_of stock' (name l) = Some post
              \<and> \<bar>remainingQty post - (remainingQty pre - itemQty l)\<bar> \<le> 1 / 1000))
       \<and> (generateBillFromMap_p2 rnd stock targetMin targetMax dayTotalRemaining d margin md
            currentFailures dailyUsedItemIds billCounter k = (b2, stock2, billCounter2, k2) \<longrightarrow>
          success b2 \<longrightarrow> commitTempUsed (stock2, dailyUsedItemIds) b2 = (stock3, dailyUsedItemIds3) \<longrightarrow>
          (\<forall>l \<in> set (items b2). \<exists>pre post.
              map_of stock (name l) = Some pre \<and> map_of stock3 (name l) = Some post
              \<and> \<bar>remainingQty post - (remainingQty pre - itemQty l)\<bar> \<le> 1 / 1000))"
proof (intro conjI impI ballI)
  fix l
  assume "generateBillFromMap rnd stock targetMin targetMax dayTotalRemaining d margin md
            currentFailures k = (b, stock', k')" and "success b" and "l \<in> set (items b)"
  with assms show "\<exists>pre post. map_of stock (name l) = Some pre \<and> map_of stock' (name l) = Some post
              \<and> \<bar>remainingQty post - (remainingQty pre - itemQty l)\<bar> \<le> 1 / 1000"
    by (rule conservation_p1)
next
  fix l
  assume "generateBillFromMap_p2 rnd stock targetMin targetMax dayTotalRemaining d margin md
            currentFailures dailyUsedItemIds billCounter k = (b2, stock2, billCounter2, k2)"
    and "success b2"
    and "commitTempUsed (stock2, dailyUsedItemIds) b2 = (stock3, dailyUsedItemIds3)"
    and "l \<in> set (items b2)"
  with assms show "\<exists>pre post. map_of stock (name l) = Some pre \<and> map_of stock3 (name l) = Some post
              \<and> \<bar>remainingQty post - (remainingQty pre - itemQty l)\<bar> \<le> 1 / 1000"
    by (rule conservation_p2)
qed

theorem ledger_conservation_witness:
  "wf_stock [(''Tea'', tea)] \<and> rng_ok (\<lambda>_. 0)
   \<and> success (fst (generateBillFromMap (\<lambda>_. 0) [(''Tea'', tea)] 100 300 1000 ''2024-01-01'' 5 RANGE 2001 0))
   \<and> (\<exists>pre post. map_of [(''Tea'', tea)] ''Tea'' = Some pre
          \<and> map_of (fst (snd (generateBillFromMap (\<lambda>_. 0) [(''Tea'', tea)] 100 300 1000
                                 ''2024-01-01'' 5 RANGE 2001 0))) ''Tea'' = Some post
          \<and> \<bar>remainingQty post - (remainingQty pre - 1)\<bar> \<le> 1 / 1000)
   \<and> success (fst (generateBillFromMap_p2 (\<lambda>_. 0) [(''Tea'', tea)] 100 100 100 ''2024-01-01'' 50 EXACT 401 {} 0 0))
   \<and> (\<exists>pre post. map_of [(''Tea'', tea)] ''Tea'' = Some pre
          \<and> map_of [(''Tea'', tea\<lparr>remainingQty := 9\<rparr>)] ''Tea'' = Some post
          \<and> \<bar>remainingQty post - (remainingQty pre - 1)\<bar> \<le> 1 / 1000)"
proof -
  let ?line = "\<lparr>name = ''Tea'', itemQty = 1, unitPrice = 100, gstPercent = 0, cessPercent = 0,
                 mrp = 0, cessTaxAmount = 0, itemTotal = 100, date = ''2024-01-01''\<rparr>"
  note p1 = ledger_conservation[OF wf_demo rng_ok_zero, THEN conjunct1, rule_format,
               OF demo_run, of ?line]
  note p2 = ledger_conservation[OF wf_demo rng_ok_zero, THEN conjunct2, rule_format,
               OF demo_run_p2 _ demo_commit_p2, of ?line]
  from p1 p2 show ?thesis by (simp add: wf_demo rng_ok_zero demo_run demo_run_p2)
qed




text \<open>
  C3. The quantity of a fractional line is \<open>toFixed(2)\<close> of a fraction of the stock left, and
  rounding to two decimals can round up past that stock. With 0.039 units of \<open>spice\<close> left,
  attempt 0 of the last tier takes \<open>toFixed(2)\<close> of \<open>0.039 * 0.9\<close>, that is 0.04 units, the bill
  is accepted, and the commit leaves \<open>spice\<close> with a remaining quantity of -0.001.
\<close>

theorem rounding_overdraws_stock:
  "success (fst (generateBillFromMap (\<lambda>_. 0) [(''Spice'', spice), (''Oil'', oil)] 253 10000 20000
                   ''2024-01-01'' 5 RANGE 2001 0))
   \<and> map (\<lambda>l. (name l, itemQty l))
        (items (fst (generateBillFromMap (\<lambda>_. 0) [(''Spice'', spice), (''Oil'', oil)] 253 10000 20000
                       ''2024-01-01'' 5 RANGE 2001 0)))
      = [(''Oil'', 1 / 4), (''Spice'', 4 / 100)]
   \<and> map (\<lambda>(n, i). (n, remainingQty i))
        (fst (snd (generateBillFromMap (\<lambda>_. 0) [(''Spice'', spice), (''Oil'', oil)] 253 10000 20000
                     ''2024-01-01'' 5 RANGE 2001 0)))
      = [(''Spice'', - (1 / 1000)), (''Oil'', 1 / 4)]"
  by (simp add: overdraw_run)

text \<open>
  C10. The composer of part_002 never writes to the stock map: every call, successful or
  not, returns with the map it was given. A successful bill reports what it consumed in
  \<open>tempUsedMap\<close>: the names of its lines, each with the sum of the quantities of its lines,
  and a failure carries no such map. The ledger changes only when the caller commits: its
  loop over \<open>tempUsedMap\<close> replaces the remaining quantity of each reported name by
  \<open>toFixed(3)\<close> of its difference with the reported quantity.
\<close>

theorem composer_p2_leaves_ledger:
  assumes g: "generateBillFromMap_p2 rnd stock targetMin targetMax dayTotalRemaining d margin md
                currentFailures dailyUsedItemIds billCounter k = (b, stock', billCounter', k')"
  shows "stock' = stock
       \<and> (\<not> success b \<longrightarrow> tempUsedMap b = None)
       \<and> (success b \<longrightarrow>
            (\<exists>tu. tempUsedMap b = Some tu
               \<and> fst ` set tu = name ` set (items b)
               \<and> (\<forall>n. usedOf tu n = sum_list (map itemQty (filter (\<lambda>l. name l = n) (items b))))
               \<and> (\<forall>n q i u. (n, q) \<in> set tu \<longrightarrow> map_of stock n = Some i \<longrightarrow>
                     map_of (fst (commitTempUsed (stock', u) b)) n
                       = Some (i\<lparr>remainingQty := toFixed 3 (remainingQty i - q)\<rparr>))))"
proof (intro conjI impI)
  from generateBillFromMap_p2_frame[OF g] show same: "stock' = stock" by simp
  show "tempUsedMap b = None" if "\<not> success b"
    using g that by (rule generateBillFromMap_p2_failure)
  show "\<exists>tu. tempUsedMap b = Some tu
               \<and> fst ` set tu = name ` set (items b)
               \<and> (\<forall>n. usedOf tu n = sum_list (map itemQty (filter (\<lambda>l. name l = n) (items b))))
               \<and> (\<forall>n q i u. (n, q) \<in> set tu \<longrightarrow> map_of stock n = Some i \<longrightarrow>
                     map_of (fst (commitTempUsed (stock', u) b)) n
                       = Some (i\<lparr>remainingQty := toFixed 3 (remainingQty i - q)\<rparr>))"
    if s: "success b"
  proof -
    from generateBillFromMap_p2_success[OF g s] obtain t st where
      tl: "tierLoop_p2 rnd md margin targetMin targetMax dayTotalRemaining (availableItemsOf stock)
             (freshItemsOf stock dailyUsedItemIds) (expensiveFirstOf (availableItemsOf stock))
             (expensiveFirstOf (freshItemsOf stock dailyUsedItemIds))
             (effortMultiplier_p2 currentFailures) baseAttempts k = (Some (t, st), k')"
      and b: "b = (formatResult (currentBill st) (currentTotal st) targetMax d)
                    \<lparr>tempUsedMap := Some (tempUsed st)\<rparr>"
      by blast
    from tierLoop_p2_Some[OF tl] obtain picks k1 where tr: "tracks picks (newAttempt k1) st"
      by blast
    define tu where "tu = foldl noteUsed [] picks"
    have tum: "tempUsedMap b = Some tu"
      using tracks_new_tempUsed[OF tr] by (simp add: b tu_def)
    have its: "items b = map (formatEntry d) (map mkEntry picks)"
      using tracks_new_bill[OF tr] by (simp add: b formatResult_def)
    have keys: "fst ` set tu = name ` set (items b)"
      unfolding its names_of_lines tu_def by (simp add: keys_foldl_noteUsed)
    have used: "usedOf tu n = sum_list (map itemQty (filter (\<lambda>l. name l = n) (items b)))" for n
    proof -
      have "usedOf [] n = 0" by (simp add: usedOf_def)
      with usedOf_foldl_noteUsed[of "[]" picks n] show ?thesis
        unfolding its lines_of_name tu_def by simp
    qed
    have dist: "distinct (map fst tu)"
      unfolding tu_def by (rule distinct_foldl_noteUsed) simp
    have commit: "map_of (fst (commitTempUsed (stock', u) b)) n
                    = Some (i\<lparr>remainingQty := toFixed 3 (remainingQty i - q)\<rparr>)"
      if "(n, q) \<in> set tu" "map_of stock n = Some i" for n q i u
    proof -
      have "fst (commitTempUsed (stock', u) b) = foldl (\<lambda>m p. commitQty m (fst p) (snd p)) stock tu"
        by (simp add: commitTempUsed_def tum same commitTempUsed_fst)
      moreover from foldl_commit_hit[of fst tu "(n, q)" stock i snd] dist that
      have "map_of (foldl (\<lambda>m p. commitQty m (fst p) (snd p)) stock tu) n
              = Some (i\<lparr>remainingQty := toFixed 3 (remainingQty i - q)\<rparr>)" by simp
      ultimately show ?thesis by simp
    qed
    from tum keys used commit show ?thesis by blast
  qed
qed

theorem composer_p2_leaves_ledger_witness:
  "fst (snd (generateBillFromMap_p2 (\<lambda>_. 0) [(''Tea'', tea)] 100 100 100 ''2024-01-01'' 50 EXACT 401 {} 0 0))
     = [(''Tea'', tea)]
   \<and> success (fst (generateBillFromMap_p2 (\<lambda>_. 0) [(''Tea'', tea)] 100 100 100 ''2024-01-01'' 50 EXACT 401 {} 0 0))
   \<and> tempUsedMap (fst (generateBillFromMap_p2 (\<lambda>_. 0) [(''Tea'', tea)] 100 100 100 ''2024-01-01'' 50 EXACT 401 {} 0 0))
     = Some [(''Tea'', 1)]
   \<and> \<not> success (fst (generateBillFromMap_p2 (\<lambda>_. 0) [(''Tea'', tea)] 5000 6000 20000 ''2024-01-01'' 5 RANGE 401 {} 7 0))
   \<and> tempUsedMap (fst (generateBillFromMap_p2 (\<lambda>_. 0) [(''Tea'', tea)] 5000 6000 20000 ''2024-01-01'' 5 RANGE 401 {} 7 0))
     = None"
proof -
  note p1 = composer_p2_leaves_ledger[OF demo_run_p2]
  note p2 = composer_p2_leaves_ledger[OF demo_fail_p2]
  from p1 p2 show ?thesis by (simp add: demo_run_p2 demo_fail_p2)
qed

section \<open>Claims about the scheduler\<close>

text \<open>The day of part_001 that ends as a critical failure, and what follows it.\<close>

lemma critical_day:
  assumes "dayLoop rnd minBill maxBill d dayTarget (0, 0, r)
             = Some (dateAccumulated, consecutiveFailures, r')"
    and "consecutiveFailures > 5000" and "dateAccumulated = 0"
  shows "console r' = console r @ [CriticalError d]
       \<and> logList r' = (case logList r of None \<Rightarrow> None | Some l \<Rightarrow> Some (l @ [CriticalError d]))
       \<and> hasSkipped r' \<and> abortAll r'
       \<and> processDays rnd minBill maxBill dateAmountTargets r' = Some r'
       \<and> (\<not> abortAll r \<longrightarrow>
            processDays rnd minBill maxBill ((d, dayTarget) # dateAmountTargets) r = Some r')"
proof -
  from dayLoop_exit[OF assms(1)] assms(2,3) have c: "criticalLogged d r r'" by simp
  then have ab: "abortAll r'" by (simp add: criticalLogged_def)
  have stop: "processDays rnd minBill maxBill dateAmountTargets r' = Some r'"
    using ab by (rule processDays_aborted)
  have pos: "0 < dayTarget"
  proof (rule ccontr)
    assume "\<not> 0 < dayTarget"
    then have "dayLoop rnd minBill maxBill d dayTarget (0, 0, r) = Some (0, 0, r)"
      by (rule dayLoop_done)
    with assms(1,2) show False by simp
  qed
  have day: "processDays rnd minBill maxBill ((d, dayTarget) # dateAmountTargets) r = Some r'"
    if "\<not> abortAll r"
    using that pos assms(1) stop by simp
  from c stop day show ?thesis by (simp add: criticalLogged_def)
qed

text \<open>The day of part_002 that ends without a bill.\<close>

lemma failed_day_p2:
  assumes "dayLoop_p2 rnd minBill maxBill d dayTarget (0, 0, [], {}, billCounter, r)
             = Some (dateAccumulated, consecutiveFailures, todaysBills, dailyUsedItemIds, billCounter', r')"
    and "consecutiveFailures > 500" and "dateAccumulated = 0"
  shows "console r' = console r @ [FailureNoBills d]
       \<and> logList r' = (case logList r of None \<Rightarrow> None | Some l \<Rightarrow> Some (l @ [FailureNoBills d]))
       \<and> hasSkipped r'"
proof -
  from dayLoop_p2_exit[OF assms(1)] assms(2,3) have "noBillsLogged d r r'"
    by (simp add: runOf_def)
  then show ?thesis by (simp add: noBillsLogged_def)
qed

text \<open>
  C9. Part_001 has the strict policy and the ceiling 5000. Take a day on which nothing has
  accumulated, at any count of consecutive failures up to the ceiling, and let every call
  the loop makes from there fail until the count passes the ceiling (each call on the stock
  map and the random numbers the call before it left). Then the loop of the day ends, with
  nothing accumulated and the count at 5001; the critical message of that day has been
  written, to the console and to the log list of the page when there is one; \<open>hasSkipped\<close>
  and \<open>abortAll\<close> are set; no bill has been added; and the loop over the schedule stops:
  whatever days follow, the run stays as it is, so no further bill is generated. Started at
  the beginning of the day, this is what the loop over the schedule returns for the day and
  all the days after it.

  Part_002 has the ceiling 500 and does not abort: under the same condition its loop of the
  day ends with the count at 501, the failure message of the day written and \<open>hasSkipped\<close>
  set, and no bill added.

  Conversely, in either part a day's loop that has ended with the count above the ceiling and
  nothing accumulated has left the run in this state.
\<close>

theorem critical_failure_aborts:
  "(0 < dayTarget \<longrightarrow> consecutiveFailures \<le> 5000 \<longrightarrow>
      (\<forall>n \<le> 5000 - consecutiveFailures.
           \<not> success (fst (dayCall rnd minBill maxBill d dayTarget (consecutiveFailures + n)
                             (afterFailures rnd minBill maxBill d dayTarget consecutiveFailures r n)))) \<longrightarrow>
      (\<exists>r'. dayLoop rnd minBill maxBill d dayTarget (0, consecutiveFailures, r) = Some (0, 5001, r')
          \<and> console r' = console r @ [CriticalError d]
          \<and> logList r' = (case logList r of None \<Rightarrow> None | Some l \<Rightarrow> Some (l @ [CriticalError d]))
          \<and> hasSkipped r' \<and> abortAll r'
          \<and> allGeneratedBills r' = allGeneratedBills r
          \<and> processDays rnd minBill maxBill dateAmountTargets r' = Some r'
          \<and> (consecutiveFailures = 0 \<longrightarrow> \<not> abortAll r \<longrightarrow>
                processDays rnd minBill maxBill ((d, dayTarget) # dateAmountTargets) r = Some r')))
   \<and> (5 < dayTarget2 \<longrightarrow> consecutiveFailures2 \<le> 500 \<longrightarrow>
      (\<forall>n \<le> 500 - consecutiveFailures2.
            \<not> success (fst (dayCall_p2 rnd minBill maxBill d dayTarget2 (consecutiveFailures2 + n)
                              dailyUsedItemIds
                              (fst (afterFailures_p2 rnd minBill maxBill d dayTarget2 consecutiveFailures2
                                      dailyUsedItemIds (billCounter, r2) n))
                              (snd (afterFailures_p2 rnd minBill maxBill d dayTarget2 consecutiveFailures2
                                      dailyUsedItemIds (billCounter, r2) n))))) \<longrightarrow>
      (\<exists>billCounter' r'.
           dayLoop_p2 rnd minBill maxBill d dayTarget2
             (0, consecutiveFailures2, todaysBills, dailyUsedItemIds, billCounter, r2)
             = Some (0, 501, todaysBills, dailyUsedItemIds, billCounter', r')
           \<and> console r' = console r2 @ [FailureNoBills d]
           \<and> logList r' = (case logList r2 of None \<Rightarrow> None | Some l \<Rightarrow> Some (l @ [FailureNoBills d]))
           \<and> hasSkipped r'
           \<and> allGeneratedBills r' = allGeneratedBills r2))
   \<and> (dayLoop rnd minBill maxBill d dayTarget3 (0, 0, r3) = Some (dateAccumulated3, consecutiveFailures3, r3')
      \<longrightarrow> consecutiveFailures3 > 5000 \<longrightarrow> dateAccumulated3 = 0 \<longrightarrow>
      console r3' = console r3 @ [CriticalError d]
      \<and> logList r3' = (case logList r3 of None \<Rightarrow> None | Some l \<Rightarrow> Some (l @ [CriticalError d]))
      \<and> hasSkipped r3' \<and> abortAll r3'
      \<and> processDays rnd minBill maxBill dateAmountTargets r3' = Some r3'
      \<and> (\<not> abortAll r3 \<longrightarrow>
           processDays rnd minBill maxBill ((d, dayTarget3) # dateAmountTargets) r3 = Some r3'))
   \<and> (dayLoop_p2 rnd minBill maxBill d dayTarget4 (0, 0, [], {}, billCounter4, r4)
        = Some (dateAccumulated4, consecutiveFailures4, todaysBills4, dailyUsedItemIds4, billCounter4', r4')
      \<longrightarrow> consecutiveFailures4 > 500 \<longrightarrow> dateAccumulated4 = 0 \<longrightarrow>
      console r4' = console r4 @ [FailureNoBills d]
      \<and> logList r4' = (case logList r4 of None \<Rightarrow> None | Some l \<Rightarrow> Some (l @ [FailureNoBills d]))
      \<and> hasSkipped r4')"
  (is "?strict \<and> ?lenient \<and> ?strictExit \<and> ?lenientExit")
proof (intro conjI)
  show ?strict by (intro impI) (rule critical_streak)
  show ?lenient by (intro impI) (rule failed_streak_p2)
  show ?strictExit by (intro impI) (rule critical_day)
  show ?lenientExit by (intro impI) (rule failed_day_p2)
qed

theorem critical_failure_aborts_witness:
  "dayLoop (\<lambda>_. 0) 100 1000 ''2024-01-01'' 500 (0, 0, dustRun)
     = Some (0, 5001, dustRun\<lparr>hasSkipped := True, abortAll := True,
                               console := [CriticalError ''2024-01-01''],
                               logList := Some [CriticalError ''2024-01-01'']\<rparr>)
   \<and> processDays (\<lambda>_. 0) 100 1000 [(''2024-01-01'', 500), (''2024-01-02'', 700)] dustRun
       = Some (dustRun\<lparr>hasSkipped := True, abortAll := True,
                        console := [CriticalError ''2024-01-01''],
                        logList := Some [CriticalError ''2024-01-01'']\<rparr>)
   \<and> allGeneratedBills (dustRun\<lparr>hasSkipped := True, abortAll := True,
                        console := [CriticalError ''2024-01-01''],
                        logList := Some [CriticalError ''2024-01-01'']\<rparr>) = []
   \<and> dayLoop_p2 (\<lambda>_. 0) 100 1000 ''2024-01-01'' 500 (0, 0, [], {}, 0, dustRun)
       = Some (0, 501, [], {}, 501,
               dustRun\<lparr>hasSkipped := True, console := [FailureNoBills ''2024-01-01''],
                       logList := Some [FailureNoBills ''2024-01-01''], randomCalls := 501\<rparr>)
   \<and> (5001::nat) > 5000 \<and> (501::nat) > 500
   \<and> console (dustRun\<lparr>hasSkipped := True, console := [FailureNoBills ''2024-01-01''],
                       logList := Some [FailureNoBills ''2024-01-01''], randomCalls := 501\<rparr>)
       = console dustRun @ [FailureNoBills ''2024-01-01'']"
proof -
  let ?crit = "dustRun\<lparr>hasSkipped := True, abortAll := True,
                        console := [CriticalError ''2024-01-01''],
                        logList := Some [CriticalError ''2024-01-01'']\<rparr>"
  let ?fail = "dustRun\<lparr>hasSkipped := True, console := [FailureNoBills ''2024-01-01''],
                       logList := Some [FailureNoBills ''2024-01-01''], randomCalls := 501\<rparr>"
  have s: "stockMap dustRun = [(''Dust'', dust)]" by (simp add: dustRun_def)
  have na: "\<not> abortAll dustRun" by (simp add: dustRun_def)
  have pos: "(0::rat) < 500" "(5::rat) < 500" "(0::nat) \<le> 5000" "(0::nat) \<le> 500" by simp_all
  have big: "(5001::nat) > 5000" "(501::nat) > 500" by simp_all
  have fails: "\<forall>n \<le> 5000 - 0.
           \<not> success (fst (dayCall (\<lambda>_. 0) 100 1000 ''2024-01-01'' 500 (0 + n)
                             (afterFailures (\<lambda>_. 0) 100 1000 ''2024-01-01'' 500 0 dustRun n)))"
    by (simp add: afterFailures_dust[OF s] dayCall_dust[OF s])
  have a: "afterFailures_p2 (\<lambda>_. 0) 100 1000 ''2024-01-01'' 500 0 {} (0, dustRun) n
             = (n, dustRun\<lparr>randomCalls := n\<rparr>)" for n
    using afterFailures_p2_dust[OF s, of "\<lambda>_. 0" 100 1000 "''2024-01-01''" 500 0 "{}" 0 n]
    by (simp add: dustRun_def)
  have fails2: "\<forall>n\<le>500 - 0. \<not> success (fst (dayCall_p2 (\<lambda>_. 0) 100 1000 ''2024-01-01'' 500 (0 + n) {}
             (fst (afterFailures_p2 (\<lambda>_. 0) 100 1000 ''2024-01-01'' 500 0 {} (0, dustRun) n))
             (snd (afterFailures_p2 (\<lambda>_. 0) 100 1000 ''2024-01-01'' 500 0 {} (0, dustRun) n))))"
  proof (intro allI impI)
    fix n :: nat
    have "stockMap (dustRun\<lparr>randomCalls := n\<rparr>) = [(''Dust'', dust)]" by (simp add: dustRun_def)
    from dayCall_p2_dust[OF this]
    show "\<not> success (fst (dayCall_p2 (\<lambda>_. 0) 100 1000 ''2024-01-01'' 500 (0 + n) {}
             (fst (afterFailures_p2 (\<lambda>_. 0) 100 1000 ''2024-01-01'' 500 0 {} (0, dustRun) n))
             (snd (afterFailures_p2 (\<lambda>_. 0) 100 1000 ''2024-01-01'' 500 0 {} (0, dustRun) n))))"
      by (simp add: a)
  qed
  note t = critical_failure_aborts[of 500 0 "\<lambda>_. 0" 100 1000 "''2024-01-01''" dustRun
      "[(''2024-01-02'', 700)]" 500 0 "{}" 0 dustRun "[]" 500 dustRun 0 5001 ?crit
      500 0 dustRun 0 501 "[]" "{}" 501 ?fail]
  from t[THEN conjunct1, rule_format, OF pos(1) pos(3) fails[rule_format]] obtain r' where
    r': "dayLoop (\<lambda>_. 0) 100 1000 ''2024-01-01'' 500 (0, 0, dustRun) = Some (0, 5001, r')"
    and days': "\<not> abortAll dustRun \<longrightarrow>
           processDays (\<lambda>_. 0) 100 1000 [(''2024-01-01'', 500), (''2024-01-02'', 700)] dustRun = Some r'"
    by auto
  from r' dust_day have eq: "r' = ?crit" by simp
  from days' na eq have days:
    "processDays (\<lambda>_. 0) 100 1000 [(''2024-01-01'', 500), (''2024-01-02'', 700)] dustRun = Some ?crit"
    by simp
  from t[THEN conjunct2, THEN conjunct1, rule_format, OF pos(2) pos(4) fails2[rule_format]]
  obtain bc' r2' where
    r2': "dayLoop_p2 (\<lambda>_. 0) 100 1000 ''2024-01-01'' 500 (0, 0, [], {}, 0, dustRun)
            = Some (0, 501, [], {}, bc', r2')" by auto
  note exit1 = t[THEN conjunct2, THEN conjunct2, THEN conjunct1, rule_format, OF dust_day big(1) refl]
  note exit2 = t[THEN conjunct2, THEN conjunct2, THEN conjunct2, rule_format, OF dust_day_p2 big(2) refl]
  have none: "allGeneratedBills ?crit = []" by (simp add: dustRun_def)
  from exit2 have logged: "console ?fail = console dustRun @ [FailureNoBills ''2024-01-01'']"
    by (rule conjunct1)
  from r' eq days none dust_day_p2 logged show ?thesis by simp
qed

end
